(* ===== verification/Rust_Prelude.thy ===== *)
theory Rust_Prelude
  imports Main "HOL-Library.Word" "HOL-Library.Sublist" "HOL-Library.Code_Target_Nat"
begin

text \<open>
  Shared vocabulary of the development: the machine integer types of the Rust sources, results
  as sums, and the slice, string and integer operations of the Rust standard library that the
  crates use. A Rust \<open>&str\<close> or \<open>String\<close> is a \<open>string\<close> whose characters are the bytes of its
  UTF-8 encoding, a \<open>&[u8]\<close> or \<open>Vec<u8>\<close> is a list of 8-bit words, a \<open>usize\<close> that
  indexes a slice is a \<open>nat\<close> (slices are shorter than \<open>2 ^ 63\<close>), with the checks the code makes
  against \<open>2 ^ 64\<close> written out.
\<close>

section \<open>Types\<close>

type_synonym u8 = "8 word"
type_synonym u16 = "16 word"
type_synonym u32 = "32 word"
type_synonym u64 = "64 word"
type_synonym i64 = int
type_synonym bytes = "u8 list"
type_synonym uuid = "128 word"

named_theorems rust_std \<open>unfolding rules for the standard library models\<close>
named_theorems slice_bounds \<open>index bounds that searches in slices return\<close>

section \<open>Results\<close>

definition bind_res :: "'e + 'a \<Rightarrow> ('a \<Rightarrow> 'e + 'b) \<Rightarrow> 'e + 'b" where
  "bind_res m f = (case m of Inl e \<Rightarrow> Inl e | Inr a \<Rightarrow> f a)"

definition ok_or :: "'e \<Rightarrow> 'a option \<Rightarrow> 'e + 'a" where
  "ok_or e x = (case x of None \<Rightarrow> Inl e | Some a \<Rightarrow> Inr a)"

lemma bind_res_simps [simp]:
  "bind_res (Inl e) f = Inl e"
  "bind_res (Inr a) f = f a"
  by (simp_all add: bind_res_def)

lemma ok_or_simps [simp]: "ok_or e None = Inl e" "ok_or e (Some a) = Inr a"
  by (simp_all add: ok_or_def)

lemma bind_res_eq_Inr [simp]:
  "bind_res m f = Inr b \<longleftrightarrow> (\<exists>a. m = Inr a \<and> f a = Inr b)"
  by (cases m) auto

lemma ok_or_eq_Inr [simp]: "ok_or e x = Inr a \<longleftrightarrow> x = Some a"
  by (cases x) auto

section \<open>Saturating and checked machine arithmetic\<close>

definition sat_add :: "'a::len word \<Rightarrow> 'a word \<Rightarrow> 'a word" where
  "sat_add a b = (if unat a + unat b < 2 ^ LENGTH('a) then a + b else - 1)"

definition sat_mul :: "'a::len word \<Rightarrow> 'a word \<Rightarrow> 'a word" where
  "sat_mul a b = (if unat a * unat b < 2 ^ LENGTH('a) then a * b else - 1)"

definition sat_sub :: "'a::len word \<Rightarrow> 'a word \<Rightarrow> 'a word" where
  "sat_sub a b = (if b \<le> a then a - b else 0)"

definition checked_add :: "'a::len word \<Rightarrow> 'a word \<Rightarrow> 'a word option" where
  "checked_add a b = (if unat a + unat b < 2 ^ LENGTH('a) then Some (a + b) else None)"

lemma unat_max_word: "unat (- 1 :: 'a::len word) = 2 ^ LENGTH('a) - 1"
  by transfer (simp add: mask_eq_exp_minus_1 take_bit_minus_one_eq_mask nat_diff_distrib nat_power_eq)

lemma unat_sat_add:
  "unat (sat_add a b) = min (unat a + unat b) (2 ^ LENGTH('a) - 1)" for a b :: "'a::len word"
  by (auto simp: sat_add_def unat_max_word unat_word_ariths)

lemma unat_sat_mul:
  "unat (sat_mul a b) = min (unat a * unat b) (2 ^ LENGTH('a) - 1)" for a b :: "'a::len word"
  by (auto simp: sat_mul_def unat_max_word unat_word_ariths)

lemma unat_sat_sub: "unat (sat_sub a b) = unat a - unat b"
  by (auto simp: sat_sub_def unat_sub word_le_nat_alt)

lemma checked_add_Some:
  "checked_add a b = Some c \<longleftrightarrow> unat a + unat b < 2 ^ LENGTH('a) \<and> c = a + b" for a b :: "'a::len word"
  by (auto simp: checked_add_def)

lemma unat_add_no_wrap:
  "unat a + unat b < 2 ^ LENGTH('a) \<Longrightarrow> unat (a + b) = unat a + unat b" for a b :: "'a::len word"
  by (simp add: unat_word_ariths)

section \<open>Slices\<close>

definition starts_with :: "'a list \<Rightarrow> 'a list \<Rightarrow> bool" where
  "starts_with xs p \<longleftrightarrow> take (length p) xs = p"

definition ends_with :: "'a list \<Rightarrow> 'a list \<Rightarrow> bool" where
  "ends_with xs p \<longleftrightarrow> length p \<le> length xs \<and> drop (length xs - length p) xs = p"

text \<open>\<open>xs[a..b]\<close> for \<open>a \<le> b \<le> len\<close>, and \<open>xs.get(a..b)\<close>, which checks these bounds.\<close>

definition slice :: "nat \<Rightarrow> nat \<Rightarrow> 'a list \<Rightarrow> 'a list" where
  "slice a b xs = take (b - a) (drop a xs)"

definition get_range :: "nat \<Rightarrow> nat \<Rightarrow> 'a list \<Rightarrow> 'a list option" where
  "get_range a b xs = (if a \<le> b \<and> b \<le> length xs then Some (slice a b xs) else None)"

text \<open>\<open>xs.windows(n).position(P)\<close>, for \<open>n > 0\<close>.\<close>

fun find_window :: "nat \<Rightarrow> ('a list \<Rightarrow> bool) \<Rightarrow> 'a list \<Rightarrow> nat option" where
  "find_window n P [] = None"
| "find_window n P (x # xs) =
     (if n \<le> length (x # xs) \<and> P (take n (x # xs)) then Some 0
      else map_option Suc (find_window n P xs))"

definition find_sub :: "'a list \<Rightarrow> 'a list \<Rightarrow> nat option" where
  "find_sub pat xs = find_window (length pat) (\<lambda>w. w = pat) xs"

text \<open>\<open>xs.split(P)\<close>: the pieces between separators, at least one piece.\<close>

fun split_by :: "('a \<Rightarrow> bool) \<Rightarrow> 'a list \<Rightarrow> 'a list list" where
  "split_by P [] = [[]]"
| "split_by P (x # xs) =
     (if P x then [] # split_by P xs
      else (case split_by P xs of [] \<Rightarrow> [[x]] | y # ys \<Rightarrow> (x # y) # ys))"

fun position :: "('a \<Rightarrow> bool) \<Rightarrow> 'a list \<Rightarrow> nat option" where
  "position P [] = None"
| "position P (x # xs) = (if P x then Some 0 else map_option Suc (position P xs))"

definition split_once :: "'a \<Rightarrow> 'a list \<Rightarrow> ('a list \<times> 'a list) option" where
  "split_once c s = map_option (\<lambda>i. (take i s, drop (Suc i) s)) (position ((=) c) s)"

definition rsplit_once :: "'a \<Rightarrow> 'a list \<Rightarrow> ('a list \<times> 'a list) option" where
  "rsplit_once c s = map_option (\<lambda>(a, b). (rev b, rev a)) (split_once c (rev s))"

fun find_map :: "('a \<Rightarrow> 'b option) \<Rightarrow> 'a list \<Rightarrow> 'b option" where
  "find_map f [] = None"
| "find_map f (x # xs) = (case f x of Some y \<Rightarrow> Some y | None \<Rightarrow> find_map f xs)"

definition strip_suffix :: "'a list \<Rightarrow> 'a list \<Rightarrow> 'a list option" where
  "strip_suffix xs p = (if ends_with xs p then Some (take (length xs - length p) xs) else None)"

lemma starts_with_prefix: "starts_with xs p \<longleftrightarrow> prefix p xs"
  unfolding starts_with_def prefix_def by (metis append_eq_conv_conj append_take_drop_id)

lemma length_slice [simp]: "b \<le> length xs \<Longrightarrow> length (slice a b xs) = b - a"
  by (simp add: slice_def)

lemma slice_append_slice:
  assumes "a \<le> b" and "b \<le> c"
  shows "slice a b xs @ slice b c xs = slice a c xs"
proof -
  have "drop b xs = drop (b - a) (drop a xs)" using assms(1) by simp
  moreover have "c - a = (b - a) + (c - b)" using assms by simp
  ultimately show ?thesis by (simp only: slice_def take_add)
qed

lemma slice_0_length [simp]: "slice 0 (length xs) xs = xs"
  by (simp add: slice_def)

lemma find_window_Some:
  "find_window n P xs = Some i \<Longrightarrow> i + n \<le> length xs \<and> P (slice i (i + n) xs)"
  by (induction xs arbitrary: i) (auto simp: slice_def split: if_splits)

lemma find_sub_Some: "find_sub pat xs = Some i \<Longrightarrow>
    i + length pat \<le> length xs \<and> slice i (i + length pat) xs = pat"
  unfolding find_sub_def by (drule find_window_Some) simp

lemma find_window_bound [slice_bounds]: "find_window n P xs = Some i \<Longrightarrow> i + n \<le> length xs"
  using find_window_Some by blast

lemma find_sub_bound [slice_bounds]: "find_sub pat xs = Some i \<Longrightarrow> i + length pat \<le> length xs"
  using find_sub_Some by blast

lemma find_window_append:
  "find_window n P xs = Some i \<Longrightarrow> find_window n P (xs @ ys) = Some i"
proof (induction xs arbitrary: i)
  case (Cons x xs)
  have eq: "take n (x # xs @ ys) = take n (x # xs)" if "n \<le> length (x # xs)"
    using that by (cases n) auto
  show ?case
  proof (cases "n \<le> length (x # xs) \<and> P (take n (x # xs))")
    case True
    with Cons.prems eq show ?thesis by auto
  next
    case False
    with Cons.prems obtain j where j: "find_window n P xs = Some j" "i = Suc j"
      by (auto split: if_splits)
    from find_window_bound [OF j(1)] have "n \<le> length (x # xs)" by simp
    with False eq Cons.IH [OF j(1)] j(2) show ?thesis by auto
  qed
qed simp

lemma position_Some: "position P xs = Some i \<Longrightarrow> i < length xs \<and> P (xs ! i)"
  by (induction xs arbitrary: i) (auto split: if_splits)

lemma position_bound [slice_bounds]: "position P xs = Some i \<Longrightarrow> i < length xs"
  using position_Some by blast

lemma position_append_sep:
  "(\<forall>y\<in>set xs. \<not> P y) \<Longrightarrow> P c \<Longrightarrow> position P (xs @ c # ys) = Some (length xs)"
  by (induction xs) auto

lemma position_None: "position P xs = None \<longleftrightarrow> (\<forall>y\<in>set xs. \<not> P y)"
  by (induction xs) auto

lemma split_once_append:
  "c \<notin> set xs \<Longrightarrow> split_once c (xs @ c # ys) = Some (xs, ys)"
proof -
  assume "c \<notin> set xs"
  then have "\<forall>y\<in>set xs. \<not> c = y" by auto
  then show ?thesis using position_append_sep [of xs "(=) c" c ys] by (simp add: split_once_def)
qed

lemma split_once_Some:
  "split_once c s = Some (a, b) \<Longrightarrow> s = a @ c # b \<and> c \<notin> set a"
proof (induction s arbitrary: a)
  case Nil
  then show ?case by (simp add: split_once_def)
next
  case (Cons x s)
  then show ?case
    by (cases "c = x") (auto simp: split_once_def)
qed

lemma split_by_not_Nil [simp]: "split_by P xs \<noteq> []"
  by (induction xs) (auto split: list.splits)

lemma find_map_Some:
  "find_map f xs = Some y \<Longrightarrow> \<exists>x\<in>set xs. f x = Some y"
  by (induction xs) (auto split: option.splits)

section \<open>ASCII\<close>

definition bytes_of :: "string \<Rightarrow> bytes" where
  "bytes_of s = map of_char s"

definition crlf :: bytes where "crlf = [13, 10]"
definition crlf2 :: bytes where "crlf2 = [13, 10, 13, 10]"

lemma length_crlf [simp]: "length crlf = 2" "length crlf2 = 4"
  by (simp_all add: crlf_def crlf2_def)

lemma length_bytes_of [simp]: "length (bytes_of s) = length s"
  by (simp add: bytes_of_def)

lemma bytes_of_append [simp]: "bytes_of (s @ t) = bytes_of s @ bytes_of t"
  by (simp add: bytes_of_def)

definition is_ascii_digit :: "u8 \<Rightarrow> bool" where
  "is_ascii_digit b \<longleftrightarrow> 48 \<le> b \<and> b \<le> 57"

definition is_ascii_uppercase :: "u8 \<Rightarrow> bool" where
  "is_ascii_uppercase b \<longleftrightarrow> 65 \<le> b \<and> b \<le> 90"

definition to_ascii_lowercase :: "u8 \<Rightarrow> u8" where
  "to_ascii_lowercase b = (if is_ascii_uppercase b then b + 32 else b)"

definition eq_ignore_ascii_case :: "bytes \<Rightarrow> bytes \<Rightarrow> bool" where
  "eq_ignore_ascii_case a b \<longleftrightarrow> map to_ascii_lowercase a = map to_ascii_lowercase b"

text \<open>\<open>u8::is_ascii_whitespace\<close>: space, tab, line feed, form feed, carriage return.\<close>

definition is_ascii_whitespace :: "u8 \<Rightarrow> bool" where
  "is_ascii_whitespace b \<longleftrightarrow> b \<in> {32, 9, 10, 12, 13}"

section \<open>Trimming a string: Unicode white space in its UTF-8 encoding\<close>

definition white_space :: "nat list list" where
  "white_space =
     [[9], [10], [11], [12], [13], [32], [0xC2, 0x85], [0xC2, 0xA0], [0xE1, 0x9A, 0x80]]
     @ map (\<lambda>i. [0xE2, 0x80, 0x80 + i]) [0..<11]
     @ [[0xE2, 0x80, 0xA8], [0xE2, 0x80, 0xA9], [0xE2, 0x80, 0xAF], [0xE2, 0x81, 0x9F],
        [0xE3, 0x80, 0x80]]"

text \<open>Strips encoded white space characters from the front; the fuel bounds their number.\<close>

fun strip_ws :: "nat list list \<Rightarrow> nat \<Rightarrow> nat list \<Rightarrow> nat list" where
  "strip_ws ws 0 s = s"
| "strip_ws ws (Suc k) s =
     (case find (starts_with s) ws of None \<Rightarrow> s | Some w \<Rightarrow> strip_ws ws k (drop (length w) s))"

definition str_trim :: "string \<Rightarrow> string" where
  "str_trim s =
     (let cs = map of_char s :: nat list;
          a = strip_ws white_space (length cs) cs;
          b = rev (strip_ws (map rev white_space) (length a) (rev a))
      in map char_of b)"

lemma str_trim_Nil [simp]: "str_trim [] = []"
  by (simp add: str_trim_def)

section \<open>Parsing and printing unsigned integers\<close>

definition digit_of :: "nat \<Rightarrow> nat \<Rightarrow> nat option" where
  "digit_of radix c =
     (let d = (if 48 \<le> c \<and> c \<le> 57 then Some (c - 48)
               else if 97 \<le> c \<and> c \<le> 122 then Some (c - 87)
               else if 65 \<le> c \<and> c \<le> 90 then Some (c - 55) else None)
      in case d of Some v \<Rightarrow> if v < radix then Some v else None | None \<Rightarrow> None)"

fun digits_val :: "nat \<Rightarrow> nat \<Rightarrow> nat list \<Rightarrow> nat option" where
  "digits_val radix acc [] = Some acc"
| "digits_val radix acc (c # cs) =
     (case digit_of radix c of None \<Rightarrow> None | Some d \<Rightarrow> digits_val radix (acc * radix + d) cs)"

text \<open>
  \<open>from_str_radix\<close> of an unsigned type with \<open>bound\<close> values: one leading plus sign is allowed,
  the rest is a non-empty list of digits whose value must be below the bound.
\<close>

definition parse_uint :: "nat \<Rightarrow> nat \<Rightarrow> nat list \<Rightarrow> nat option" where
  "parse_uint radix bound cs =
     (let ds = (case cs of [] \<Rightarrow> [] | c # r \<Rightarrow> if c = 43 then r else cs)
      in if ds = [] then None
         else case digits_val radix 0 ds of
           None \<Rightarrow> None | Some v \<Rightarrow> if v < bound then Some v else None)"

definition parse_str :: "nat \<Rightarrow> string \<Rightarrow> nat option" where
  "parse_str bound s = parse_uint 10 bound (map of_char s)"

definition parse_bytes :: "nat \<Rightarrow> nat \<Rightarrow> bytes \<Rightarrow> nat option" where
  "parse_bytes radix bound bs = parse_uint radix bound (map unat bs)"

definition digit_char :: "nat \<Rightarrow> char" where
  "digit_char d = char_of (if d < 10 then 48 + d else 87 + d)"

function show_radix :: "nat \<Rightarrow> nat \<Rightarrow> string" where
  "show_radix r n = (if n < r \<or> r < 2 then [digit_char n] else show_radix r (n div r) @ [digit_char (n mod r)])"
  by pat_completeness auto
termination
  by (relation "measure snd") auto

declare show_radix.simps [simp del]

definition show_nat :: "nat \<Rightarrow> string" where
  "show_nat n = show_radix 10 n"

lemma show_radix_not_Nil [simp]: "show_radix r n \<noteq> []"
  by (subst show_radix.simps) simp

lemma show_nat_not_Nil [simp]: "show_nat n \<noteq> []"
  by (simp add: show_nat_def)

lemma of_digit_char: "d < 16 \<Longrightarrow> of_char (digit_char d) = (if d < 10 then 48 + d else 87 + d)"
  by (simp add: digit_char_def)

lemma digit_of_digit_char:
  "d < r \<Longrightarrow> r \<le> 16 \<Longrightarrow> digit_of r (of_char (digit_char d)) = Some d"
  by (subst of_digit_char) (auto simp: digit_of_def)

lemma digits_val_append:
  "digits_val r acc (xs @ ys) = (case digits_val r acc xs of None \<Rightarrow> None | Some v \<Rightarrow> digits_val r v ys)"
  by (induction xs arbitrary: acc) (auto split: option.splits)

lemma digits_val_show_radix:
  "2 \<le> r \<Longrightarrow> r \<le> 16 \<Longrightarrow> digits_val r 0 (map of_char (show_radix r n)) = Some n"
proof (induction r n rule: show_radix.induct)
  case (1 r n)
  show ?case
  proof (cases "n < r")
    case True
    with 1 show ?thesis by (subst show_radix.simps) (simp add: digit_of_digit_char)
  next
    case False
    with 1 have "digits_val r 0 (map of_char (show_radix r (n div r))) = Some (n div r)" by simp
    with False 1 show ?thesis
      by (subst show_radix.simps) (simp add: digits_val_append digit_of_digit_char)
  qed
qed

lemma show_radix_digits:
  "2 \<le> r \<Longrightarrow> c \<in> set (show_radix r n) \<Longrightarrow> \<exists>d<r. c = digit_char d"
proof (induction r n rule: show_radix.induct)
  case (1 r n)
  show ?case
  proof (cases "n < r")
    case True
    with "1.prems" show ?thesis by (subst (asm) show_radix.simps) auto
  next
    case False
    with "1.prems" have "c \<in> set (show_radix r (n div r)) \<or> c = digit_char (n mod r)"
      by (subst (asm) show_radix.simps) auto
    moreover have "n mod r < r" using "1.prems" by simp
    moreover have "\<not> (n < r \<or> r < 2)" using False "1.prems" by simp
    ultimately show ?thesis using "1.IH" "1.prems"(1) by blast
  qed
qed

lemma show_nat_no_char:
  assumes "\<And>d. d < 10 \<Longrightarrow> c \<noteq> digit_char d"
  shows "c \<notin> set (show_nat n)"
  using show_radix_digits [of 10 c n] assms by (auto simp: show_nat_def)

lemma show_nat_hd: "map of_char (show_nat n) \<noteq> (43::nat) # r"
proof
  assume "map of_char (show_nat n) = (43::nat) # r"
  then obtain c cs where c: "show_nat n = c # cs" "of_char c = (43::nat)" by auto
  then have "c \<in> set (show_radix 10 n)" by (simp add: show_nat_def)
  then obtain d where "d < 10" "c = digit_char d" using show_radix_digits [of 10 c n] by auto
  with c(2) of_digit_char [of d] show False by simp
qed

lemma parse_str_show_nat: "n < bound \<Longrightarrow> parse_str bound (show_nat n) = Some n"
  using digits_val_show_radix [of 10 n] show_nat_hd [of n]
  by (auto simp: parse_str_def parse_uint_def show_nat_def [symmetric] Let_def split: list.splits)

lemma parse_uint_bound: "parse_uint r b cs = Some v \<Longrightarrow> v < b"
  by (auto simp: parse_uint_def Let_def split: if_splits option.splits)

lemma parse_str_bound: "parse_str b s = Some v \<Longrightarrow> v < b"
  by (simp add: parse_str_def parse_uint_bound)

lemma parse_bytes_bound: "parse_bytes r b s = Some v \<Longrightarrow> v < b"
  by (simp add: parse_bytes_def parse_uint_bound)

end
