(* ===== verification/Float64.thy ===== *)
theory Float64
  imports Complex_Main Rust_Prelude "HOL-Library.Log_Nat"
begin

text \<open>
  The part of IEEE 754 binary64 arithmetic that the load schedule uses. A finite \<open>f64\<close> is the
  rational number it stands for; an operation is the exact operation followed by rounding to
  the nearest number with a 53-bit significand, ties to even. The schedule only forms quotients,
  products and sums of numbers of magnitude below \<open>2 ^ 65\<close> and, where they are not zero, above
  \<open>2 ^ -65\<close>, so overflow, subnormal numbers and NaN do not occur and the exponent range is left
  out of the model.
\<close>

type_synonym f64 = rat

text \<open>The exponent of the largest power of two that is at most a positive number.\<close>

definition ilog2 :: "rat \<Rightarrow> int" where
  "ilog2 x = (let (n, d) = quotient_of x; e = bitlen n - bitlen d
              in if 2 powi e \<le> x then e else e - 1)"

definition round_half_even :: "rat \<Rightarrow> int" where
  "round_half_even x =
     (let f = \<lfloor>x\<rfloor>; r = x - of_int f
      in if r < 1 / 2 then f else if 1 / 2 < r then f + 1 else if even f then f else f + 1)"

definition f64_round_to :: "rat \<Rightarrow> f64" where
  "f64_round_to x =
     (if x = 0 then 0
      else let u = 2 powi (ilog2 \<bar>x\<bar> - 52) in of_int (round_half_even (x / u)) * u)"

definition f64_of_u64 :: "u64 \<Rightarrow> f64" where
  "f64_of_u64 w = f64_round_to (of_nat (unat w))"

definition f64_of_u32 :: "u32 \<Rightarrow> f64" where
  "f64_of_u32 w = f64_round_to (of_nat (unat w))"

definition f64_add :: "f64 \<Rightarrow> f64 \<Rightarrow> f64" where "f64_add a b = f64_round_to (a + b)"
definition f64_sub :: "f64 \<Rightarrow> f64 \<Rightarrow> f64" where "f64_sub a b = f64_round_to (a - b)"
definition f64_mul :: "f64 \<Rightarrow> f64 \<Rightarrow> f64" where "f64_mul a b = f64_round_to (a * b)"
definition f64_div :: "f64 \<Rightarrow> f64 \<Rightarrow> f64" where "f64_div a b = f64_round_to (a / b)"

text \<open>\<open>f64::round\<close> (half away from zero), \<open>max(0.0)\<close> and the saturating cast \<open>as u32\<close>.\<close>

definition f64_round :: "f64 \<Rightarrow> f64" where
  "f64_round x = (if 0 \<le> x then of_int \<lfloor>x + 1 / 2\<rfloor> else - of_int \<lfloor>- x + 1 / 2\<rfloor>)"

definition f64_to_u32 :: "f64 \<Rightarrow> u32" where
  "f64_to_u32 x = (if x < 0 then 0 else if 2 ^ 32 \<le> x then - 1 else of_int \<lfloor>x\<rfloor>)"

lemmas f64_op_defs = f64_add_def f64_sub_def f64_mul_def f64_div_def

section \<open>The exponent\<close>

lemma powi_mono: "a \<le> b \<Longrightarrow> (2::rat) powi a \<le> 2 powi b"
  by (rule power_int_increasing) auto

lemma powi_less_cancel: "(2::rat) powi a < 2 powi b \<Longrightarrow> a < b"
  by (meson powi_mono leD leI)

lemma powi_nat: "0 \<le> k \<Longrightarrow> (2::rat) powi k = 2 ^ nat k"
  by (simp add: power_int_def)

lemma bitlen_bounds_rat:
  assumes "0 < n"
  shows "(2::rat) powi (bitlen n - 1) \<le> of_int n \<and> of_int n < (2::rat) powi bitlen n"
proof -
  have p: "0 < bitlen n" using bitlen_nonneg [of n] bitlen_eq_zero_iff [of n] assms by linarith
  have b: "2 ^ nat (bitlen n - 1) \<le> n \<and> n < 2 ^ nat (bitlen n)"
    using bitlen_bounds [OF assms] .
  have "(2::rat) powi (bitlen n - 1) = of_int (2 ^ nat (bitlen n - 1))"
    using p by (simp add: powi_nat)
  moreover have "(2::rat) powi bitlen n = of_int (2 ^ nat (bitlen n))"
    using p by (simp add: powi_nat)
  ultimately show ?thesis using b by (simp only: of_int_le_iff of_int_less_iff)
qed

lemma ilog2_bounds:
  assumes "0 < x"
  shows "2 powi ilog2 x \<le> x \<and> x < 2 powi (ilog2 x + 1)"
proof -
  obtain n d where q: "quotient_of x = (n, d)" by (cases "quotient_of x") auto
  have d: "0 < d" using quotient_of_denom_pos [OF q] .
  have x: "x = of_int n / of_int d" using quotient_of_div [OF q] .
  have n: "0 < n" using assms d x by (simp add: zero_less_divide_iff)
  let ?e = "bitlen n - bitlen d"
  have nb: "(2::rat) powi (bitlen n - 1) \<le> of_int n" "of_int n < (2::rat) powi bitlen n"
    using bitlen_bounds_rat [OF n] by auto
  have db: "(2::rat) powi (bitlen d - 1) \<le> of_int d" "of_int d < (2::rat) powi bitlen d"
    using bitlen_bounds_rat [OF d] by auto
  have dp: "(0::rat) < of_int d" using d by simp
  have "(2::rat) powi (?e - 1) = 2 powi (bitlen n - 1) / 2 powi bitlen d"
  proof -
    have "?e - 1 = (bitlen n - 1) - bitlen d" by simp
    then show ?thesis by (simp only:) (rule power_int_diff, simp)
  qed
  also have "\<dots> \<le> of_int n / of_int d"
    using nb db dp n by (intro frac_le) auto
  finally have lo: "2 powi (?e - 1) \<le> x" by (simp add: x)
  have "of_int n / of_int d < (2::rat) powi bitlen n / 2 powi (bitlen d - 1)"
    using nb db n by (intro frac_less) auto
  also have "\<dots> = 2 powi (?e + 1)"
  proof -
    have "?e + 1 = bitlen n - (bitlen d - 1)" by simp
    then show ?thesis by (simp only:) (rule power_int_diff [symmetric], simp)
  qed
  finally have hi: "x < 2 powi (?e + 1)" by (simp add: x)
  show ?thesis using lo hi by (auto simp: ilog2_def q Let_def not_le)
qed

lemma ilog2_unique:
  assumes "0 < x" and "2 powi e \<le> x" and "x < 2 powi (e + 1)"
  shows "ilog2 x = e"
proof -
  have "2 powi e < (2::rat) powi (ilog2 x + 1)" "2 powi ilog2 x < (2::rat) powi (e + 1)"
    using ilog2_bounds [OF assms(1)] assms(2,3) by linarith+
  then have "e < ilog2 x + 1" "ilog2 x < e + 1" by (auto dest: powi_less_cancel)
  then show ?thesis by simp
qed

lemma ilog2_mono: "0 < x \<Longrightarrow> x \<le> y \<Longrightarrow> ilog2 x \<le> ilog2 y"
proof -
  assume "0 < x" "x \<le> y"
  then have "(2::rat) powi ilog2 x < 2 powi (ilog2 y + 1)"
    using ilog2_bounds [of x] ilog2_bounds [of y] by linarith
  then show ?thesis using powi_less_cancel by fastforce
qed

section \<open>Rounding\<close>

lemma round_half_even_of_int [simp]: "round_half_even (of_int k) = k"
  by (simp add: round_half_even_def Let_def)

lemma round_half_even_bounds: "\<lfloor>x\<rfloor> \<le> round_half_even x \<and> round_half_even x \<le> \<lfloor>x\<rfloor> + 1"
  by (simp add: round_half_even_def Let_def)

lemma round_half_even_mono: "x \<le> y \<Longrightarrow> round_half_even x \<le> round_half_even y"
proof (cases "\<lfloor>x\<rfloor> = \<lfloor>y\<rfloor>")
  case True
  assume "x \<le> y"
  with True show ?thesis by (auto simp: round_half_even_def Let_def)
next
  case False
  assume "x \<le> y"
  with False have "\<lfloor>x\<rfloor> + 1 \<le> \<lfloor>y\<rfloor>" using floor_mono [of x y] by linarith
  then show ?thesis using round_half_even_bounds [of x] round_half_even_bounds [of y] by linarith
qed

lemma floor_neg: "x \<noteq> of_int \<lfloor>x\<rfloor> \<Longrightarrow> \<lfloor>- x\<rfloor> = - \<lfloor>x\<rfloor> - 1" for x :: rat
  using floor_correct [of x] by (intro floor_unique) (auto simp: order.strict_iff_order)

lemma round_half_even_minus: "round_half_even (- x) = - round_half_even x"
proof (cases "x = of_int \<lfloor>x\<rfloor>")
  case True
  then obtain k where "x = of_int k" by blast
  then show ?thesis using round_half_even_of_int [of "- k"] by simp
next
  case False
  have f: "\<lfloor>- x\<rfloor> = - \<lfloor>x\<rfloor> - 1" using floor_neg [OF False] .
  have "even (- \<lfloor>x\<rfloor> - 1) = odd \<lfloor>x\<rfloor>" by simp
  then show ?thesis by (auto simp: round_half_even_def Let_def f)
qed

lemma f64_round_to_0 [simp]: "f64_round_to 0 = 0"
  by (simp add: f64_round_to_def)

lemma f64_round_to_minus: "f64_round_to (- x) = - f64_round_to x"
  by (simp add: f64_round_to_def Let_def round_half_even_minus minus_divide_left [symmetric])

lemma f64_round_to_binade:
  assumes "0 < x"
  shows "2 powi ilog2 x \<le> f64_round_to x \<and> f64_round_to x \<le> 2 powi (ilog2 x + 1)"
proof -
  let ?u = "(2::rat) powi (ilog2 x - 52)"
  have u: "0 < ?u" by simp
  have lo: "of_int (2 ^ 52) * ?u = 2 powi ilog2 x"
    by (simp add: power_int_diff)
  have hi: "of_int (2 ^ 53) * ?u = 2 powi (ilog2 x + 1)"
    by (simp add: power_int_diff power_int_add)
  have "of_int (2 ^ 52) \<le> x / ?u" "x / ?u \<le> of_int (2 ^ 53)"
    using ilog2_bounds [OF assms] u lo hi by (simp_all add: field_simps)
  then have r: "2 ^ 52 \<le> round_half_even (x / ?u)" "round_half_even (x / ?u) \<le> 2 ^ 53"
    using round_half_even_mono round_half_even_of_int by metis+
  have "of_int (2 ^ 52) * ?u \<le> of_int (round_half_even (x / ?u)) * ?u"
    using r(1) u by (intro mult_right_mono) (simp_all only: of_int_le_iff less_imp_le)
  moreover have "of_int (round_half_even (x / ?u)) * ?u \<le> of_int (2 ^ 53) * ?u"
    using r(2) u by (intro mult_right_mono) (simp_all only: of_int_le_iff less_imp_le)
  ultimately show ?thesis
    using assms by (simp only: lo hi) (simp add: f64_round_to_def Let_def)
qed

lemma f64_round_to_mono_pos:
  assumes "0 < x" and "x \<le> y"
  shows "f64_round_to x \<le> f64_round_to y"
proof (cases "ilog2 x = ilog2 y")
  case True
  let ?u = "(2::rat) powi (ilog2 y - 52)"
  have "x / ?u \<le> y / ?u" using assms(2) by (simp add: divide_right_mono)
  then have "round_half_even (x / ?u) \<le> round_half_even (y / ?u)" by (rule round_half_even_mono)
  then have "of_int (round_half_even (x / ?u)) * ?u \<le> of_int (round_half_even (y / ?u)) * ?u"
    by (intro mult_right_mono) simp_all
  then show ?thesis using assms True by (simp add: f64_round_to_def Let_def)
next
  case False
  then have "ilog2 x + 1 \<le> ilog2 y" using ilog2_mono [OF assms] by linarith
  then have "(2::rat) powi (ilog2 x + 1) \<le> 2 powi ilog2 y" by (rule powi_mono)
  moreover have "0 < y" using assms by linarith
  ultimately show ?thesis
    using f64_round_to_binade [of x] f64_round_to_binade [of y] assms(1) by linarith
qed

lemma f64_round_to_nonneg: "0 \<le> x \<Longrightarrow> 0 \<le> f64_round_to x"
proof (cases "x = 0")
  case False
  assume "0 \<le> x"
  with False have "0 < x" by simp
  then have "2 powi ilog2 x \<le> f64_round_to x" using f64_round_to_binade by blast
  moreover have "(0::rat) \<le> 2 powi ilog2 x" by simp
  ultimately show ?thesis by linarith
qed simp

lemma f64_round_to_pos: "0 < x \<Longrightarrow> 0 < f64_round_to x"
proof -
  assume "0 < x"
  then have "2 powi ilog2 x \<le> f64_round_to x" using f64_round_to_binade by blast
  moreover have "(0::rat) < 2 powi ilog2 x" by simp
  ultimately show ?thesis by linarith
qed

lemma f64_round_to_mono: "x \<le> y \<Longrightarrow> f64_round_to x \<le> f64_round_to y"
proof -
  assume xy: "x \<le> y"
  consider "0 < x" | "x \<le> 0" "0 \<le> y" | "y < 0" using xy by linarith
  then show ?thesis
  proof cases
    case 1
    then show ?thesis using xy by (rule f64_round_to_mono_pos)
  next
    case 2
    then show ?thesis
      using f64_round_to_nonneg [of y] f64_round_to_nonneg [of "- x"] f64_round_to_minus [of x] by simp
  next
    case 3
    then have "f64_round_to (- y) \<le> f64_round_to (- x)" using xy by (intro f64_round_to_mono_pos) auto
    then show ?thesis by (simp add: f64_round_to_minus)
  qed
qed

lemma f64_round_to_int_pos:
  assumes "0 < k" and "k < 2 ^ 53"
  shows "f64_round_to (of_int k) = of_int k"
proof -
  let ?x = "of_int k :: rat" and ?e = "ilog2 (of_int k :: rat)"
  have x: "0 < ?x" using assms by simp
  have "(2::rat) powi ?e < 2 powi 53"
  proof -
    have "(of_int k :: rat) < of_int (2 ^ 53)" using assms(2) by (simp only: of_int_less_iff)
    then show ?thesis using ilog2_bounds [OF x] by (simp add: power_int_def)
  qed
  then have e: "?e \<le> 52" using powi_less_cancel by fastforce
  have inv: "1 / (2::rat) powi (?e - 52) = 2 powi (52 - ?e)"
    by (simp add: power_int_minus [symmetric] inverse_eq_divide [symmetric])
  have i: "?x / 2 powi (?e - 52) = of_int (k * 2 ^ nat (52 - ?e))"
    using e by (simp add: divide_inverse power_int_minus [symmetric] powi_nat)
  have "f64_round_to ?x = of_int (k * 2 ^ nat (52 - ?e)) * 2 powi (?e - 52)"
    using x by (simp add: f64_round_to_def Let_def i del: of_int_mult)
  also have "\<dots> = ?x" by (simp flip: i del: of_int_mult)
  finally show ?thesis .
qed

lemma f64_round_to_int: "\<bar>k\<bar> < 2 ^ 53 \<Longrightarrow> f64_round_to (of_int k) = of_int k"
  using f64_round_to_int_pos [of k] f64_round_to_int_pos [of "- k"] f64_round_to_minus [of "of_int k"]
  by (cases "k = 0"; cases "0 < k") auto

lemma f64_of_u32_exact: "f64_of_u32 w = of_nat (unat w)"
proof -
  have "unat w < 2 ^ 32" using unsigned_less [of w, where 'a = nat] by simp
  then have "int (unat w) < int (2 ^ 53)" unfolding of_nat_less_iff by (rule less_trans) simp
  then have "\<bar>int (unat w)\<bar> < 2 ^ 53" by (simp only: abs_of_nat of_nat_power of_nat_numeral)
  then have "f64_round_to (of_int (int (unat w))) = of_int (int (unat w))" by (rule f64_round_to_int)
  then show ?thesis by (simp only: f64_of_u32_def of_int_of_nat_eq)
qed

section \<open>Rounding and casting an interpolated value\<close>

lemma f64_round_between_nat:
  assumes "of_nat a \<le> x" and "x \<le> of_nat b"
  shows "\<exists>k. a \<le> k \<and> k \<le> b \<and> f64_round x = of_nat k"
proof -
  have x0: "0 \<le> x" using assms(1) of_nat_0_le_iff [of a] by linarith
  let ?k = "\<lfloor>x + 1 / 2\<rfloor>"
  have "int a \<le> ?k" using assms(1) by (simp add: le_floor_iff)
  moreover have "?k \<le> int b" using assms(2) by (simp add: floor_le_iff)
  moreover from calculation have "of_int ?k = (of_nat (nat ?k) :: rat)"
    by (simp add: of_nat_nat)
  ultimately have "a \<le> nat ?k" "nat ?k \<le> b" "f64_round x = of_nat (nat ?k)"
    using x0 by (auto simp: f64_round_def nat_le_iff)
  then show ?thesis by blast
qed

lemma f64_to_u32_of_nat: "k < 2 ^ 32 \<Longrightarrow> unat (f64_to_u32 (of_nat k)) = k"
proof -
  assume k: "k < 2 ^ 32"
  then have "(of_nat k :: rat) < of_nat (2 ^ 32)" by (simp only: of_nat_less_iff)
  then have "\<not> (2::rat) ^ 32 \<le> of_nat k" by simp
  moreover have "unat (of_nat k :: u32) = k" using k by (simp add: unat_of_nat)
  ultimately show ?thesis by (simp add: f64_to_u32_def)
qed

end
