(* ===== verification/Ip_Addr.thy ===== *)
theory Ip_Addr
  imports Rust_Prelude
begin

text \<open>
  The parts of \<open>std::net\<close> the crates use: parsing and printing of IPv4 addresses, printing of
  IPv6 addresses, and \<open>IpAddr\<close>.
\<close>

section \<open>IPv4\<close>

text \<open>One octet: one to three decimal digits, no superfluous leading zero, below 256.\<close>

definition parse_octet :: "string \<Rightarrow> nat option" where
  "parse_octet s =
     (if s = [] \<or> 3 < length s \<or> (1 < length s \<and> hd s = CHR ''0'') then None
      else case digits_val 10 0 (map of_char s) of
        None \<Rightarrow> None | Some v \<Rightarrow> if v < 256 then Some v else None)"

definition parse_ipv4 :: "string \<Rightarrow> u32 option" where
  "parse_ipv4 s =
     (case map parse_octet (split_by ((=) CHR ''.'') s) of
        [Some a, Some b, Some c, Some d] \<Rightarrow>
          Some (of_nat (a * 2 ^ 24 + b * 2 ^ 16 + c * 2 ^ 8 + d))
      | _ \<Rightarrow> None)"

definition show_ipv4 :: "u32 \<Rightarrow> string" where
  "show_ipv4 w =
     (let n = unat w
      in show_nat (n div 2 ^ 24) @ ''.'' @ show_nat (n div 2 ^ 16 mod 256) @ ''.''
         @ show_nat (n div 2 ^ 8 mod 256) @ ''.'' @ show_nat (n mod 256))"

lemma split_by_append_sep:
  assumes "\<forall>x\<in>set xs. \<not> P x" and "P c"
  shows "split_by P (xs @ c # ys) = xs # split_by P ys"
  using assms by (induction xs) auto

lemma split_by_no_sep: "\<forall>x\<in>set xs. \<not> P x \<Longrightarrow> split_by P xs = [xs]"
  by (induction xs) auto

lemma digit_char_neq:
  "d < 10 \<Longrightarrow> of_char c \<noteq> 48 + d \<Longrightarrow> c \<noteq> digit_char d"
  using of_digit_char [of d] by auto

lemma digit_char_not_punct:
  "d < 10 \<Longrightarrow> CHR ''.'' \<noteq> digit_char d" "d < 10 \<Longrightarrow> CHR ''/'' \<noteq> digit_char d"
  "0 < d \<Longrightarrow> d < 10 \<Longrightarrow> CHR ''0'' \<noteq> digit_char d"
  by (rule digit_char_neq; simp)+

lemma show_nat_no_punct [simp]: "CHR ''.'' \<notin> set (show_nat n)" "CHR ''/'' \<notin> set (show_nat n)"
  by (rule show_nat_no_char, simp add: digit_char_not_punct)+

lemma show_nat_no_dot: "\<forall>x\<in>set (show_nat n). \<not> CHR ''.'' = x"
  using show_nat_no_punct(1) by metis

lemma show_nat_digits:
  "n < 10 \<Longrightarrow> show_nat n = [digit_char n]"
  "10 \<le> n \<Longrightarrow> n < 100 \<Longrightarrow> show_nat n = [digit_char (n div 10), digit_char (n mod 10)]"
  "100 \<le> n \<Longrightarrow> n < 1000 \<Longrightarrow>
     show_nat n = [digit_char (n div 10 div 10), digit_char (n div 10 mod 10), digit_char (n mod 10)]"
  by (simp_all add: show_nat_def show_radix.simps [of 10 n] show_radix.simps [of 10 "n div 10"]
      show_radix.simps [of 10 "n div 10 div 10"] less_mult_imp_div_less)

lemma parse_octet_show [simp]: "n < 256 \<Longrightarrow> parse_octet (show_nat n) = Some n"
proof -
  assume n: "n < 256"
  have v: "digits_val 10 0 (map of_char (show_nat n)) = Some n"
    using digits_val_show_radix [of 10 n] by (simp add: show_nat_def)
  have "length (show_nat n) \<le> 3 \<and> (1 < length (show_nat n) \<longrightarrow> hd (show_nat n) \<noteq> CHR ''0'')"
  proof -
    consider "n < 10" | "10 \<le> n" "n < 100" | "100 \<le> n" by linarith
    then show ?thesis
    proof cases
      case 1
      then show ?thesis by (simp add: show_nat_digits)
    next
      case 2
      then have "0 < n div 10" "n div 10 < 10"
        by (simp_all add: div_greater_zero_iff less_mult_imp_div_less)
      with 2 show ?thesis
        using digit_char_not_punct(3) [of "n div 10"] by (auto simp: show_nat_digits)
    next
      case 3
      have "0 < n div 10 div 10" "n div 10 div 10 < 10" using 3 n by (simp_all add: div_mult2_eq [symmetric] div_greater_zero_iff less_mult_imp_div_less)
      then show ?thesis
        using 3 n digit_char_not_punct(3) [of "n div 10 div 10"] by (auto simp: show_nat_digits)
    qed
  qed
  with n v show ?thesis by (auto simp: parse_octet_def not_less)
qed

lemma octets_value:
  "n div 2 ^ 24 * 2 ^ 24 + n div 2 ^ 16 mod 256 * 2 ^ 16 + n div 2 ^ 8 mod 256 * 2 ^ 8 + n mod 256
     = (n::nat)"
proof -
  define a where "a = n div 256"
  define b where "b = a div 256"
  define c where "c = b div 256"
  have d: "n div 2 ^ 8 = a" "n div 2 ^ 16 = b" "n div 2 ^ 24 = c"
    by (simp_all add: a_def b_def c_def div_mult2_eq [symmetric])
  have "n = a * 256 + n mod 256" "a = b * 256 + a mod 256" "b = c * 256 + b mod 256"
    by (simp_all only: a_def b_def c_def div_mult_mod_eq)
  then have "c * 16777216 + b mod 256 * 65536 + a mod 256 * 256 + n mod 256 = n"
    by linarith
  then show ?thesis unfolding d by simp
qed

lemma split_show_ipv4:
  "split_by ((=) CHR ''.'') (show_ipv4 w) =
     [show_nat (unat w div 2 ^ 24), show_nat (unat w div 2 ^ 16 mod 256),
      show_nat (unat w div 2 ^ 8 mod 256), show_nat (unat w mod 256)]"
  by (simp add: show_ipv4_def Let_def split_by_append_sep split_by_no_sep show_nat_no_dot)

lemma unat_u32_div: "unat w div 2 ^ 24 < 256" for w :: u32
  using unsigned_less [of w, where 'a = nat] by (simp add: less_mult_imp_div_less)

lemma parse_show_ipv4 [simp]: "parse_ipv4 (show_ipv4 w) = Some w"
proof -
  have "(of_nat (unat w div 2 ^ 24 * 2 ^ 24 + unat w div 2 ^ 16 mod 256 * 2 ^ 16
      + unat w div 2 ^ 8 mod 256 * 2 ^ 8 + unat w mod 256) :: u32) = w"
    by (simp only: octets_value) simp
  moreover have "parse_octet (show_nat (unat w div 2 ^ 24)) = Some (unat w div 2 ^ 24)"
    by (rule parse_octet_show, rule unat_u32_div)
  ultimately show ?thesis by (simp add: parse_ipv4_def split_show_ipv4 del: of_nat_add of_nat_mult)
qed

lemma show_ipv4_inj: "show_ipv4 a = show_ipv4 b \<Longrightarrow> a = b"
  by (metis option.inject parse_show_ipv4)

lemma show_ipv4_no_slash [simp]: "CHR ''/'' \<notin> set (show_ipv4 w)"
  by (simp add: show_ipv4_def Let_def)

section \<open>IPv6 and IpAddr\<close>

datatype ip_addr = V4 u32 | V6 "128 word"

definition is_ipv4 :: "ip_addr \<Rightarrow> bool" where
  "is_ipv4 a \<longleftrightarrow> (case a of V4 _ \<Rightarrow> True | V6 _ \<Rightarrow> False)"

definition segments6 :: "128 word \<Rightarrow> nat list" where
  "segments6 w = map (\<lambda>i. unat w div 2 ^ (16 * (7 - i)) mod 2 ^ 16) [0..<8]"

text \<open>The first longest run of zero segments, as (start, length).\<close>

fun zero_run :: "nat \<Rightarrow> nat \<times> nat \<Rightarrow> nat \<times> nat \<Rightarrow> nat list \<Rightarrow> nat \<times> nat" where
  "zero_run i longest current [] = longest"
| "zero_run i longest current (s # ss) =
     (if s = 0 then
        let current' = ((if snd current = 0 then i else fst current), snd current + 1)
        in zero_run (Suc i) (if snd longest < snd current' then current' else longest) current' ss
      else zero_run (Suc i) longest (0, 0) ss)"

fun show_segments :: "nat list \<Rightarrow> string" where
  "show_segments [] = []"
| "show_segments [s] = show_radix 16 s"
| "show_segments (s # ss) = show_radix 16 s @ '':'' @ show_segments ss"

definition show_ipv6 :: "128 word \<Rightarrow> string" where
  "show_ipv6 w =
     (let segs = segments6 w
      in if take 5 segs = [0, 0, 0, 0, 0] \<and> segs ! 5 = 65535
         then ''::ffff:'' @ show_ipv4 (of_nat (unat w mod 2 ^ 32))
         else let (start, len) = zero_run 0 (0, 0) (0, 0) segs
              in if 1 < len
                 then show_segments (take start segs) @ ''::'' @ show_segments (drop (start + len) segs)
                 else show_segments segs)"

definition show_ip :: "ip_addr \<Rightarrow> string" where
  "show_ip a = (case a of V4 w \<Rightarrow> show_ipv4 w | V6 w \<Rightarrow> show_ipv6 w)"

end
