(* ===== verification/Domain.thy ===== *)
theory Domain
  imports Float64 Ip_Addr
begin

text \<open>
  The crate \<open>crates/domain\<close>: the scenario a user submits, its load schedule and its validation,
  and the network profile with its address pools.
\<close>

definition SCENARIO_VERSION :: u32 where "SCENARIO_VERSION = 4"
definition MAX_PAYLOAD_BYTES :: nat where "MAX_PAYLOAD_BYTES = 64 * 1024 * 1024"

section \<open>Data\<close>

datatype scenario_path =
    ManagedDirect (profile_revision_id: uuid) (path_server_port: u16)
  | ExplicitProxy (path_client_node_id: string) (client_bind_ip: ip_addr)
      (path_server_node_id: string) (server_listen_ip: ip_addr) (path_server_port: u16)
      (path_proxy_addr: string)

definition scenario_path_default :: "uuid \<Rightarrow> scenario_path" where
  "scenario_path_default new_id = ManagedDirect new_id 8080"

record endpoint_profile =
  ep_node_id :: string
  ep_interface_name :: string
  ep_start_cidr :: string
  ep_count :: u32

datatype network_provisioning = ManagedNamespace | OperatorManaged

record network_profile_draft =
  np_id :: uuid
  np_name :: string
  np_provisioning :: network_provisioning
  np_allow_virtual_interfaces :: bool
  np_client_endpoint :: endpoint_profile
  np_server_endpoint :: endpoint_profile
  np_mtu :: u32
  np_diagnostic_port :: u16
  np_path_probe_enabled :: bool

definition network_profile_default :: "uuid \<Rightarrow> network_profile_draft" where
  "network_profile_default new_id =
     \<lparr>np_id = new_id, np_name = ''Managed direct network'', np_provisioning = ManagedNamespace,
      np_allow_virtual_interfaces = False,
      np_client_endpoint = \<lparr>ep_node_id = ''node-1'', ep_interface_name = ''eth1'',
        ep_start_cidr = ''10.20.0.10/24'', ep_count = 16\<rparr>,
      np_server_endpoint = \<lparr>ep_node_id = ''node-1'', ep_interface_name = ''eth2'',
        ep_start_cidr = ''10.20.0.100/24'', ep_count = 16\<rparr>,
      np_mtu = 1370, np_diagnostic_port = 39000, np_path_probe_enabled = True\<rparr>"

datatype protocol = Tcp | Http1 | Http2

datatype payload_mode = Manual | CaptureReplay

datatype payload_kind = PkEmpty | PkFixed | PkText | PkFile | PkRandom

datatype random_format = Binary | PrintableAscii

record payload_profile =
  pp_kind :: payload_kind
  pp_size_bytes :: u64
  pp_text :: string
  pp_artifact_id :: "uuid option"
  pp_random_format :: random_format

definition payload_fixed :: "u64 \<Rightarrow> payload_profile" where
  "payload_fixed n = \<lparr>pp_kind = PkFixed, pp_size_bytes = n, pp_text = [], pp_artifact_id = None,
     pp_random_format = Binary\<rparr>"

definition payload_byte_len :: "payload_profile \<Rightarrow> nat" where
  "payload_byte_len p =
     (case pp_kind p of PkEmpty \<Rightarrow> 0 | PkText \<Rightarrow> length (pp_text p) | _ \<Rightarrow> unat (pp_size_bytes p))"

datatype load_stage_mode = Ramp | Hold

record load_stage =
  ls_name :: string
  ls_mode :: load_stage_mode
  ls_duration_secs :: u64
  ls_target_virtual_clients :: u32
  ls_include_in_results :: bool

definition load_stage_default :: load_stage where
  "load_stage_default = \<lparr>ls_name = ''Hold'', ls_mode = Hold, ls_duration_secs = 10,
     ls_target_virtual_clients = 1, ls_include_in_results = True\<rparr>"

record http2_profile =
  h2_max_concurrent_streams :: u32

record http_request_profile =
  rq_method :: string
  rq_path :: string
  rq_host :: string
  rq_request_body_bytes :: u64
  rq_response_body_bytes :: u64
  rq_keep_alive :: bool
  rq_transactions_per_connection :: u32
  rq_think_time_ms :: u64

record tcp_payload_profile =
  tcp_tx_bytes :: u64
  tcp_rx_bytes :: u64

datatype tls_version = Tls12 | Tls13

record tls_profile =
  tls_enabled :: bool
  tls_verify_peer :: bool
  tls_version :: tls_version
  tls_cipher_suite :: "string option"
  tls_server_name :: string
  tls_ca_pem :: "string option"
  tls_server_cert_pem :: "string option"
  tls_server_key_pem :: "string option"

record timeout_profile =
  to_connect_ms :: u64
  to_proxy_connect_ms :: u64
  to_response_ms :: u64

record scenario =
  sc_version :: u32
  sc_id :: uuid
  sc_name :: string
  sc_path :: scenario_path
  sc_protocol :: protocol
  sc_virtual_clients :: u32
  sc_duration_secs :: u64
  sc_load_stages :: "load_stage list"
  sc_request :: http_request_profile
  sc_http2 :: http2_profile
  sc_tcp :: tcp_payload_profile
  sc_request_payload :: payload_profile
  sc_response_payload :: payload_profile
  sc_payload_mode :: payload_mode
  sc_capture_artifact_id :: "uuid option"
  sc_tls :: tls_profile
  sc_timeouts :: timeout_profile
  sc_observation_interfaces :: "string list"
  sc_runtime_target_addr :: "string option"
  sc_runtime_interface :: "string option"
  sc_runtime_namespace :: "string option"
  sc_runtime_source_ips :: "ip_addr list"

definition http2_profile_default :: http2_profile where
  "http2_profile_default = \<lparr>h2_max_concurrent_streams = 100\<rparr>"

definition http_request_profile_default :: http_request_profile where
  "http_request_profile_default =
     \<lparr>rq_method = ''GET'', rq_path = ''/'', rq_host = ''proxy-tester.local'',
      rq_request_body_bytes = 0, rq_response_body_bytes = 128, rq_keep_alive = True,
      rq_transactions_per_connection = 1, rq_think_time_ms = 0\<rparr>"

definition tcp_payload_profile_default :: tcp_payload_profile where
  "tcp_payload_profile_default = \<lparr>tcp_tx_bytes = 64, tcp_rx_bytes = 64\<rparr>"

definition tls_profile_default :: tls_profile where
  "tls_profile_default =
     \<lparr>tls_enabled = False, tls_verify_peer = False, tls_version = Tls13, tls_cipher_suite = None,
      tls_server_name = ''proxy-tester.local'', tls_ca_pem = None, tls_server_cert_pem = None,
      tls_server_key_pem = None\<rparr>"

definition timeout_profile_default :: timeout_profile where
  "timeout_profile_default =
     \<lparr>to_connect_ms = 3000, to_proxy_connect_ms = 3000, to_response_ms = 5000\<rparr>"

text \<open>
  \<open>Scenario::default\<close>; the two random identifiers are arguments, the name is the source's
  Korean literal in UTF-8.
\<close>

definition scenario_default :: "uuid \<Rightarrow> uuid \<Rightarrow> scenario" where
  "scenario_default new_id new_path_id =
     \<lparr>sc_version = SCENARIO_VERSION, sc_id = new_id,
      sc_name = map char_of [0xEA, 0xB8, 0xB0, 0xEB, 0xB3, 0xB8, 0x20, 0xEC, 0x8B, 0x9C, 0xED, 0x97,
        0x98 :: nat],
      sc_path = scenario_path_default new_path_id, sc_protocol = Tcp, sc_virtual_clients = 1,
      sc_duration_secs = 10, sc_load_stages = [], sc_request = http_request_profile_default,
      sc_http2 = http2_profile_default, sc_tcp = tcp_payload_profile_default,
      sc_request_payload = payload_fixed 64, sc_response_payload = payload_fixed 64,
      sc_payload_mode = Manual, sc_capture_artifact_id = None, sc_tls = tls_profile_default,
      sc_timeouts = timeout_profile_default, sc_observation_interfaces = [],
      sc_runtime_target_addr = None, sc_runtime_interface = None, sc_runtime_namespace = None,
      sc_runtime_source_ips = []\<rparr>"

section \<open>Accessors of a scenario\<close>

definition cipher_is_compatible :: "tls_profile \<Rightarrow> bool" where
  "cipher_is_compatible t =
     (case tls_cipher_suite t of
        None \<Rightarrow> True
      | Some c \<Rightarrow>
          (case tls_version t of
             Tls13 \<Rightarrow> c \<in> {''TLS13_AES_256_GCM_SHA384'', ''TLS13_AES_128_GCM_SHA256'',
               ''TLS13_CHACHA20_POLY1305_SHA256''}
           | Tls12 \<Rightarrow> c \<in> {''TLS_ECDHE_ECDSA_WITH_AES_256_GCM_SHA384'',
               ''TLS_ECDHE_ECDSA_WITH_AES_128_GCM_SHA256'',
               ''TLS_ECDHE_ECDSA_WITH_CHACHA20_POLY1305_SHA256'',
               ''TLS_ECDHE_RSA_WITH_AES_256_GCM_SHA384'',
               ''TLS_ECDHE_RSA_WITH_AES_128_GCM_SHA256'',
               ''TLS_ECDHE_RSA_WITH_CHACHA20_POLY1305_SHA256''}))"

definition is_explicit_proxy :: "scenario \<Rightarrow> bool" where
  "is_explicit_proxy s = (case sc_path s of ExplicitProxy _ _ _ _ _ _ \<Rightarrow> True | _ \<Rightarrow> False)"

definition client_node_id :: "scenario \<Rightarrow> string option" where
  "client_node_id s =
     (case sc_path s of ManagedDirect _ _ \<Rightarrow> None | ExplicitProxy c _ _ _ _ _ \<Rightarrow> Some c)"

definition server_node_id :: "scenario \<Rightarrow> string option" where
  "server_node_id s =
     (case sc_path s of ManagedDirect _ _ \<Rightarrow> None | ExplicitProxy _ _ n _ _ _ \<Rightarrow> Some n)"

definition proxy_addr :: "scenario \<Rightarrow> string option" where
  "proxy_addr s =
     (case sc_path s of ExplicitProxy _ _ _ _ _ p \<Rightarrow> Some p | _ \<Rightarrow> None)"

definition server_port :: "scenario \<Rightarrow> u16" where
  "server_port s =
     (case sc_path s of ManagedDirect _ p \<Rightarrow> p | ExplicitProxy _ _ _ _ p _ \<Rightarrow> p)"

definition target_addr :: "scenario \<Rightarrow> string" where
  "target_addr s =
     (case sc_runtime_target_addr s of
        Some v \<Rightarrow> v
      | None \<Rightarrow>
          (case sc_path s of
             ExplicitProxy _ _ _ ip port _ \<Rightarrow> show_ip ip @ '':'' @ show_nat (unat port)
           | ManagedDirect _ port \<Rightarrow> ''127.0.0.1:'' @ show_nat (unat port)))"

definition effective_duration_secs :: "scenario \<Rightarrow> u64" where
  "effective_duration_secs s =
     (if sc_load_stages s = [] then sc_duration_secs s
      else sum_list (map ls_duration_secs (sc_load_stages s)))"

definition maximum_virtual_clients :: "scenario \<Rightarrow> u32" where
  "maximum_virtual_clients s =
     (if sc_load_stages s = [] then sc_virtual_clients s
      else fold max (map ls_target_virtual_clients (sc_load_stages s)) 0)"

section \<open>The load schedule\<close>

text \<open>
  The client count a stage asks for after \<open>elapsed\<close> milliseconds, when the stage began at
  \<open>start\<close> and the stage before it ended at \<open>prev\<close> clients. A ramp interpolates in \<open>f64\<close>.
\<close>

definition stage_target :: "load_stage \<Rightarrow> u64 \<Rightarrow> u64 \<Rightarrow> u32 \<Rightarrow> u32" where
  "stage_target stage elapsed start prev =
     (let duration_ms = sat_mul (ls_duration_secs stage) 1000
      in case ls_mode stage of
           Hold \<Rightarrow> ls_target_virtual_clients stage
         | Ramp \<Rightarrow>
             if 0 < duration_ms then
               let progress = f64_div (f64_of_u64 (sat_sub elapsed start)) (f64_of_u64 duration_ms)
               in f64_to_u32 (max (f64_round
                    (f64_add (f64_of_u32 prev)
                       (f64_mul (f64_sub (f64_of_u32 (ls_target_virtual_clients stage))
                                         (f64_of_u32 prev)) progress))) 0)
             else ls_target_virtual_clients stage)"

fun load_walk :: "u64 \<Rightarrow> nat \<Rightarrow> u64 \<Rightarrow> u32 \<Rightarrow> load_stage list \<Rightarrow> nat \<times> u32 \<times> bool" where
  "load_walk elapsed i start prev [] = (i - 1, prev, False)"
| "load_walk elapsed i start prev (stage # rest) =
     (let lastms = sat_add start (sat_mul (ls_duration_secs stage) 1000)
      in if elapsed < lastms \<or> rest = []
         then (i, stage_target stage elapsed start prev, ls_include_in_results stage)
         else load_walk elapsed (Suc i) lastms (ls_target_virtual_clients stage) rest)"

definition load_at :: "scenario \<Rightarrow> u64 \<Rightarrow> nat \<times> u32 \<times> bool" where
  "load_at s elapsed_ms =
     (if sc_load_stages s = [] then (0, sc_virtual_clients s, True)
      else load_walk elapsed_ms 0 0 0 (sc_load_stages s))"

section \<open>Validation of a scenario\<close>

datatype payload_direction = RequestDir | ResponseDir

datatype validation_error =
    UnsupportedVersion u32 | ReplayNeedsCapture
  | PayloadTooLarge payload_direction | FileNeedsArtifact payload_direction
  | ArtifactOnlyForFile payload_direction
  | NameEmpty | ObservationInterfaceEmpty | DurationZero | VirtualClientsZero | TooManyStages
  | StageInvalid | NoStageClients
  | CipherUnsupported "string option" tls_version | TlsServerNameMissing | TlsServerKeyMissing
  | TlsCaMissing | Http2NeedsTls | Http2StreamsOutOfRange | KeepAliveNeeded
  | ProfileRevisionNil | ServerPortZero | ProxyNodesMissing | ProxyNotIpv4 | ProxyPortInvalid
  | ProfileNameEmpty | MtuOutOfRange | DiagnosticPortZero | SubnetMismatch | PoolsOverlap
  | SameInterface | EndpointIncomplete | PoolCountOutOfRange | CidrInvalid | PrefixInvalid
  | PrefixOutOfRange | PoolOverflow | PoolLeavesSubnet

text \<open>A sequence of checks: the error of the first condition that holds.\<close>

fun run_checks :: "(bool \<times> 'e) list \<Rightarrow> 'e + unit" where
  "run_checks [] = Inr ()"
| "run_checks ((bad, e) # rest) = (if bad then Inl e else run_checks rest)"

definition is_none_or_empty :: "string option \<Rightarrow> bool" where
  "is_none_or_empty x = (case x of None \<Rightarrow> True | Some t \<Rightarrow> t = [])"

definition valid_host_port :: "string \<Rightarrow> bool" where
  "valid_host_port v =
     (case rsplit_once CHR '':'' v of
        None \<Rightarrow> False
      | Some (host, port) \<Rightarrow>
          host \<noteq> [] \<and> (case parse_str (2 ^ 16) port of None \<Rightarrow> False | Some p \<Rightarrow> 0 < p))"

definition payload_checks :: "payload_direction \<Rightarrow> payload_profile \<Rightarrow> (bool \<times> validation_error) list" where
  "payload_checks d p =
     [(MAX_PAYLOAD_BYTES < payload_byte_len p, PayloadTooLarge d),
      (pp_kind p = PkFile \<and> pp_artifact_id p = None, FileNeedsArtifact d),
      (pp_kind p \<noteq> PkFile \<and> pp_artifact_id p \<noteq> None, ArtifactOnlyForFile d)]"

definition load_checks :: "scenario \<Rightarrow> (bool \<times> validation_error) list" where
  "load_checks s =
     [(sc_load_stages s = [] \<and> sc_duration_secs s = 0, DurationZero),
      (sc_load_stages s = [] \<and> sc_virtual_clients s = 0, VirtualClientsZero),
      (50 < length (sc_load_stages s), TooManyStages)]
     @ map (\<lambda>st. (str_trim (ls_name st) = [] \<or> ls_duration_secs st = 0, StageInvalid))
         (sc_load_stages s)
     @ [(sc_load_stages s \<noteq> [] \<and> maximum_virtual_clients s = 0, NoStageClients)]"

definition tls_checks :: "tls_profile \<Rightarrow> (bool \<times> validation_error) list" where
  "tls_checks t =
     (if tls_enabled t then
        [(\<not> cipher_is_compatible t, CipherUnsupported (tls_cipher_suite t) (tls_version t)),
         (str_trim (tls_server_name t) = [], TlsServerNameMissing),
         (is_none_or_empty (tls_server_cert_pem t) \<or> is_none_or_empty (tls_server_key_pem t),
           TlsServerKeyMissing),
         (tls_verify_peer t \<and> is_none_or_empty (tls_ca_pem t), TlsCaMissing)]
      else [])"

definition protocol_checks :: "scenario \<Rightarrow> (bool \<times> validation_error) list" where
  "protocol_checks s =
     (if sc_protocol s = Http2 then
        [(\<not> tls_enabled (sc_tls s), Http2NeedsTls),
         (\<not> (1 \<le> h2_max_concurrent_streams (sc_http2 s) \<and>
             h2_max_concurrent_streams (sc_http2 s) \<le> 1000), Http2StreamsOutOfRange)]
      else [])
     @ [(sc_protocol s = Http1 \<and> \<not> rq_keep_alive (sc_request s)
           \<and> rq_transactions_per_connection (sc_request s) \<noteq> 1, KeepAliveNeeded)]"

definition path_checks :: "scenario_path \<Rightarrow> (bool \<times> validation_error) list" where
  "path_checks p =
     (case p of
        ManagedDirect revision port \<Rightarrow> [(revision = 0, ProfileRevisionNil), (port = 0, ServerPortZero)]
      | ExplicitProxy cn cip sn sip port proxy \<Rightarrow>
          [(str_trim cn = [] \<or> str_trim sn = [], ProxyNodesMissing),
           (\<not> is_ipv4 cip \<or> \<not> is_ipv4 sip, ProxyNotIpv4),
           (port = 0 \<or> \<not> valid_host_port proxy, ProxyPortInvalid)])"

definition scenario_validate :: "scenario \<Rightarrow> validation_error + unit" where
  "scenario_validate s =
     run_checks
       ([(sc_version s \<noteq> SCENARIO_VERSION, UnsupportedVersion (sc_version s)),
         (sc_payload_mode s = CaptureReplay \<and> sc_capture_artifact_id s = None, ReplayNeedsCapture)]
        @ payload_checks RequestDir (sc_request_payload s)
        @ payload_checks ResponseDir (sc_response_payload s)
        @ [(str_trim (sc_name s) = [], NameEmpty),
           (\<exists>i\<in>set (sc_observation_interfaces s). str_trim i = [], ObservationInterfaceEmpty)]
        @ load_checks s
        @ tls_checks (sc_tls s)
        @ protocol_checks s
        @ path_checks (sc_path s))"

section \<open>Network profiles\<close>

text \<open>The pool of an endpoint: first and last address, network address and prefix length.\<close>

definition ipv4_range :: "endpoint_profile \<Rightarrow> validation_error + (u32 \<times> u32 \<times> u32 \<times> nat)" where
  "ipv4_range e =
     (if str_trim (ep_node_id e) = [] \<or> str_trim (ep_interface_name e) = [] then Inl EndpointIncomplete
      else if \<not> (1 \<le> ep_count e \<and> ep_count e \<le> 4096) then Inl PoolCountOutOfRange
      else bind_res (ok_or CidrInvalid (split_once CHR ''/'' (ep_start_cidr e))) (\<lambda>(address, prefix).
        bind_res (ok_or CidrInvalid (parse_ipv4 address)) (\<lambda>start.
        bind_res (ok_or PrefixInvalid (parse_str (2 ^ 8) prefix)) (\<lambda>prefix.
          if \<not> (1 \<le> prefix \<and> prefix \<le> 30) then Inl PrefixOutOfRange
          else
            let mask = push_bit (32 - prefix) (- 1) :: u32;
                network = and start mask;
                broadcast = or network (not mask)
            in bind_res (ok_or PoolOverflow (checked_add start (ep_count e - 1))) (\<lambda>last.
                 if start \<le> network \<or> broadcast \<le> last then Inl PoolLeavesSubnet
                 else Inr (start, last, network, prefix))))))"

definition profile_validate :: "network_profile_draft \<Rightarrow> validation_error + unit" where
  "profile_validate d =
     (if str_trim (np_name d) = [] then Inl ProfileNameEmpty
      else if \<not> (576 \<le> np_mtu d \<and> np_mtu d \<le> 9216) then Inl MtuOutOfRange
      else if np_diagnostic_port d = 0 then Inl DiagnosticPortZero
      else bind_res (ipv4_range (np_client_endpoint d)) (\<lambda>(c0, c1, cnet, cpre).
           bind_res (ipv4_range (np_server_endpoint d)) (\<lambda>(s0, s1, snet, spre).
             if cnet \<noteq> snet \<or> cpre \<noteq> spre then Inl SubnetMismatch
             else if c0 \<le> s1 \<and> s0 \<le> c1 then Inl PoolsOverlap
             else if ep_node_id (np_client_endpoint d) = ep_node_id (np_server_endpoint d)
                   \<and> ep_interface_name (np_client_endpoint d) = ep_interface_name (np_server_endpoint d)
             then Inl SameInterface
             else Inr ())))"

section \<open>Sequences of checks\<close>

lemma run_checks_ok [simp]: "run_checks cs = Inr () \<longleftrightarrow> (\<forall>(bad, e)\<in>set cs. \<not> bad)"
  by (induction cs rule: run_checks.induct) auto

lemma run_checks_skip:
  "\<forall>(bad, e)\<in>set pre. \<not> bad \<Longrightarrow> run_checks (pre @ post) = run_checks post"
  by (induction pre rule: run_checks.induct) auto

lemma run_checks_error:
  "run_checks cs = Inl e \<longleftrightarrow>
     (\<exists>pre post. cs = pre @ (True, e) # post \<and> (\<forall>(bad, e')\<in>set pre. \<not> bad))"
proof
  assume "run_checks cs = Inl e"
  then show "\<exists>pre post. cs = pre @ (True, e) # post \<and> (\<forall>(bad, e')\<in>set pre. \<not> bad)"
  proof (induction cs rule: run_checks.induct)
    case (2 bad e' rest)
    show ?case
    proof (cases bad)
      case True
      then show ?thesis using "2.prems" by (intro exI [of _ "[]"] exI [of _ rest]) simp
    next
      case False
      with 2 obtain pre post where "rest = pre @ (True, e) # post" "\<forall>(bad, e')\<in>set pre. \<not> bad" by auto
      with False show ?thesis by (intro exI [of _ "(bad, e') # pre"] exI [of _ post]) simp
    qed
  qed simp
next
  assume "\<exists>pre post. cs = pre @ (True, e) # post \<and> (\<forall>(bad, e')\<in>set pre. \<not> bad)"
  then show "run_checks cs = Inl e" by (auto simp: run_checks_skip)
qed

section \<open>The load schedule stays inside its stages\<close>

definition total_ms :: "load_stage list \<Rightarrow> nat" where
  "total_ms stages = sum_list (map (\<lambda>st. unat (ls_duration_secs st) * 1000) stages)"

lemma total_ms_simps [simp]:
  "total_ms [] = 0" "total_ms (st # sts) = unat (ls_duration_secs st) * 1000 + total_ms sts"
  by (simp_all add: total_ms_def)

lemma f64_ratio_unit:
  assumes "a \<le> d" and "0 < d"
  shows "0 \<le> f64_div (f64_of_u64 a) (f64_of_u64 d) \<and> f64_div (f64_of_u64 a) (f64_of_u64 d) \<le> 1"
proof -
  have "(of_nat (unat a) :: rat) \<le> of_nat (unat d)"
    using assms(1) unfolding word_le_nat_alt by (simp only: of_nat_le_iff)
  then have ad: "f64_of_u64 a \<le> f64_of_u64 d" by (simp only: f64_of_u64_def f64_round_to_mono)
  have "0 < unat d" using assms(2) by (simp add: word_less_nat_alt)
  then have d: "0 < f64_of_u64 d" unfolding f64_of_u64_def by (intro f64_round_to_pos) (simp only: of_nat_0_less_iff)
  have a: "0 \<le> f64_of_u64 a" unfolding f64_of_u64_def by (intro f64_round_to_nonneg) (simp only: of_nat_0_le_iff)
  have "f64_of_u64 a / f64_of_u64 d \<le> 1" using ad d by simp
  then have "f64_round_to (f64_of_u64 a / f64_of_u64 d) \<le> f64_round_to 1" by (rule f64_round_to_mono)
  moreover have "f64_round_to 1 = 1" using f64_round_to_int [of 1] by simp
  moreover have "0 \<le> f64_round_to (f64_of_u64 a / f64_of_u64 d)" using a d by (intro f64_round_to_nonneg) simp
  ultimately show ?thesis by (simp add: f64_div_def)
qed

lemma interpolation_between_int:
  fixes a b :: int
  assumes "0 \<le> p" and "p \<le> 1" and "\<bar>a\<bar> \<le> 2 ^ 32" and "\<bar>b\<bar> \<le> 2 ^ 32" and ab: "a \<le> b"
  defines "up \<equiv> f64_round_to (of_int a + f64_round_to (f64_round_to (of_int b - of_int a) * p))"
    and "down \<equiv> f64_round_to (of_int b + f64_round_to (f64_round_to (of_int a - of_int b) * p))"
  shows "of_int a \<le> up" "up \<le> of_int b" "of_int a \<le> down" "down \<le> of_int b"
proof -
  have exact: "f64_round_to (of_int k) = of_int k" if "\<bar>k\<bar> \<le> 2 ^ 33" for k
    by (rule f64_round_to_int, rule le_less_trans [OF that]) simp
  have ea: "f64_round_to (of_int a) = of_int a" and eb: "f64_round_to (of_int b) = of_int b"
    by (rule exact, use assms(3,4) in simp)+
  define d where "d = (of_int (b - a) :: rat)"
  have d0: "0 \<le> d" using ab by (simp add: d_def)
  have ed: "f64_round_to d = d" unfolding d_def by (rule exact) (use assms(3,4) in simp)
  define m where "m = f64_round_to (d * p)"
  have dp: "0 \<le> d * p" "d * p \<le> d"
    using d0 assms(1,2) by (simp, simp only: mult_left_le)
  have m: "0 \<le> m" "m \<le> d"
    using f64_round_to_nonneg [OF dp(1)] f64_round_to_mono [OF dp(2)] ed by (simp_all add: m_def)
  have pos: "of_int b - of_int a = d" by (simp add: d_def)
  have up: "up = f64_round_to (of_int a + m)"
    by (simp add: up_def m_def pos ed)
  have neg: "of_int a - of_int b = - d" by (simp add: d_def)
  have down: "down = f64_round_to (of_int b - m)"
    by (simp add: down_def m_def neg f64_round_to_minus ed)
  have "of_int a \<le> of_int a + m" "of_int a + m \<le> of_int b"
    "of_int a \<le> of_int b - m" "of_int b - m \<le> of_int b"
    using m by (simp_all add: d_def)
  then show "of_int a \<le> up" "up \<le> of_int b" "of_int a \<le> down" "down \<le> of_int b"
    unfolding up down by (metis f64_round_to_mono ea eb)+
qed

lemma interpolation_between:
  fixes prev tgt :: u32
  assumes "0 \<le> p" and "p \<le> 1"
  defines "x \<equiv> f64_add (f64_of_u32 prev) (f64_mul (f64_sub (f64_of_u32 tgt) (f64_of_u32 prev)) p)"
  shows "of_nat (unat (min prev tgt)) \<le> x \<and> x \<le> of_nat (unat (max prev tgt))"
proof -
  have bound: "\<bar>int (unat w)\<bar> \<le> 2 ^ 32" for w :: u32
    using unsigned_less [of w, where 'a = int] by simp
  have i: "(of_nat (unat w) :: rat) = of_int (int (unat w))" for w :: u32
    by (rule of_int_of_nat_eq [symmetric])
  note facts = interpolation_between_int [OF assms(1,2) bound bound]
  have x: "x = f64_round_to (of_int (int (unat prev)) + f64_round_to (f64_round_to
      (of_int (int (unat tgt)) - of_int (int (unat prev))) * p))"
    unfolding x_def f64_op_defs f64_of_u32_exact i ..
  show ?thesis
  proof (cases "unat prev \<le> unat tgt")
    case True
    then have "min prev tgt = prev" "max prev tgt = tgt" by (simp_all add: word_le_nat_alt)
    then show ?thesis unfolding i x using facts [of prev tgt] True by (simp only: of_nat_le_iff)
  next
    case False
    then have "min prev tgt = tgt" "max prev tgt = prev"
      by (simp_all add: word_le_nat_alt min_def max_def)
    then show ?thesis unfolding i x using facts [of tgt prev] False by (simp only: of_nat_le_iff not_le less_imp_le)
  qed
qed

lemma stage_target_between:
  assumes "unat elapsed - unat start \<le> unat (sat_mul (ls_duration_secs st) 1000)"
  shows "min prev (ls_target_virtual_clients st) \<le> stage_target st elapsed start prev
       \<and> stage_target st elapsed start prev \<le> max prev (ls_target_virtual_clients st)"
proof (cases "ls_mode st = Ramp \<and> 0 < sat_mul (ls_duration_secs st) 1000")
  case False
  then show ?thesis by (cases "ls_mode st") (simp_all add: stage_target_def)
next
  case True
  let ?t = "ls_target_virtual_clients st"
  let ?p = "f64_div (f64_of_u64 (sat_sub elapsed start)) (f64_of_u64 (sat_mul (ls_duration_secs st) 1000))"
  let ?x = "f64_add (f64_of_u32 prev) (f64_mul (f64_sub (f64_of_u32 ?t) (f64_of_u32 prev)) ?p)"
  have "sat_sub elapsed start \<le> sat_mul (ls_duration_secs st) 1000"
    using assms by (simp add: word_le_nat_alt unat_sat_sub)
  then have "0 \<le> ?p \<and> ?p \<le> 1" using True by (intro f64_ratio_unit) simp_all
  then have "of_nat (unat (min prev ?t)) \<le> ?x" "?x \<le> of_nat (unat (max prev ?t))"
    using interpolation_between [of ?p prev ?t] by simp_all
  from f64_round_between_nat [OF this] obtain k
    where k: "unat (min prev ?t) \<le> k" "k \<le> unat (max prev ?t)" "f64_round ?x = of_nat k" by blast
  have "k < 2 ^ 32" using k(2) unsigned_less [of "max prev ?t", where 'a = nat] by simp
  then have "unat (f64_to_u32 (max (f64_round ?x) 0)) = k" by (simp add: k(3) f64_to_u32_of_nat)
  then have "unat (stage_target st elapsed start prev) = k"
    using True by (simp add: stage_target_def Let_def)
  then show ?thesis using k(1,2) by (simp add: word_le_nat_alt)
qed

definition target_before :: "u32 \<Rightarrow> load_stage list \<Rightarrow> nat \<Rightarrow> u32" where
  "target_before prev stages j = (if j = 0 then prev else ls_target_virtual_clients (stages ! (j - 1)))"

lemma load_walk_in_stage:
  assumes "load_walk elapsed i start prev stages = (k, t, inc)"
    and "unat start \<le> unat elapsed" and "unat elapsed < unat start + total_ms stages"
    and "unat start + total_ms stages < 2 ^ 64"
  shows "\<exists>j. k = i + j \<and> j < length stages
    \<and> unat start + total_ms (take j stages) \<le> unat elapsed
    \<and> unat elapsed < unat start + total_ms (take (Suc j) stages)
    \<and> min (target_before prev stages j) (ls_target_virtual_clients (stages ! j)) \<le> t
    \<and> t \<le> max (target_before prev stages j) (ls_target_virtual_clients (stages ! j))
    \<and> inc = ls_include_in_results (stages ! j)"
  using assms
proof (induction elapsed i start prev stages arbitrary: k t inc rule: load_walk.induct)
  case (1 elapsed i start prev)
  then show ?case by simp
next
  case (2 elapsed i start prev stage rest)
  let ?d = "sat_mul (ls_duration_secs stage) 1000 :: u64"
  have bound: "unat start + (unat (ls_duration_secs stage) * 1000 + total_ms rest) < 2 ^ 64"
    using "2.prems"(4) by simp
  then have d: "unat ?d = unat (ls_duration_secs stage) * 1000"
    by (simp add: unat_sat_mul)
  then have e: "unat (sat_add start ?d) = unat start + unat ?d"
    using bound by (simp add: unat_sat_add)
  show ?case
  proof (cases "elapsed < sat_add start ?d \<or> rest = []")
    case True
    then have k: "k = i" "t = stage_target stage elapsed start prev" "inc = ls_include_in_results stage"
      using "2.prems"(1) by (auto simp: Let_def)
    have lt: "unat elapsed < unat start + unat ?d"
      using True "2.prems"(3) d e by (auto simp: word_less_nat_alt)
    then have "unat elapsed - unat start \<le> unat ?d" by simp
    from stage_target_between [OF this, of prev] k lt d "2.prems"(2) show ?thesis
      by (intro exI [of _ 0]) (simp add: target_before_def)
  next
    case False
    then have w: "load_walk elapsed (Suc i) (sat_add start ?d) (ls_target_virtual_clients stage) rest = (k, t, inc)"
      using "2.prems"(1) by (simp add: Let_def)
    have "unat (sat_add start ?d) \<le> unat elapsed" using False by (simp add: word_less_nat_alt)
    from "2.IH" [OF refl False w this] "2.prems"(3) bound d e
    obtain j where j: "k = Suc i + j" "j < length rest"
      "unat start + unat ?d + total_ms (take j rest) \<le> unat elapsed"
      "unat elapsed < unat start + unat ?d + total_ms (take (Suc j) rest)"
      "min (target_before (ls_target_virtual_clients stage) rest j) (ls_target_virtual_clients (rest ! j)) \<le> t"
      "t \<le> max (target_before (ls_target_virtual_clients stage) rest j) (ls_target_virtual_clients (rest ! j))"
      "inc = ls_include_in_results (rest ! j)" by auto
    have "target_before (ls_target_virtual_clients stage) rest j = target_before prev (stage # rest) (Suc j)"
      by (cases j) (simp_all add: target_before_def)
    with j d show ?thesis by (intro exI [of _ "Suc j"]) simp
  qed
qed

lemma fold_max_ge: "x \<in> set xs \<Longrightarrow> x \<le> fold max xs a" for x :: "'a::linorder"
  using Max.set_eq_fold [of a xs] Max_ge [of "set (a # xs)" x] by simp

lemma target_le_maximum:
  "st \<in> set (sc_load_stages s) \<Longrightarrow> ls_target_virtual_clients st \<le> maximum_virtual_clients s"
  by (cases "sc_load_stages s = []") (auto simp: maximum_virtual_clients_def intro!: fold_max_ge)

end
