(* ===== verification/Domain_Facts.thy ===== *)
theory Domain_Facts
  imports Domain
begin

text \<open>
  What the domain's operations guarantee: the load schedule stays inside its stages, an accepted
  scenario meets every precondition the agents rely on, and the two ways in which the schedule's
  arithmetic leaves its range.
\<close>

section \<open>The load schedule\<close>

definition stages_example :: "load_stage list" where
  "stages_example =
     [\<lparr>ls_name = ''up'', ls_mode = Ramp, ls_duration_secs = 10, ls_target_virtual_clients = 100,
        ls_include_in_results = False\<rparr>,
      \<lparr>ls_name = ''hold'', ls_mode = Hold, ls_duration_secs = 20, ls_target_virtual_clients = 100,
        ls_include_in_results = True\<rparr>]"

definition staged_example :: scenario where
  "staged_example = (scenario_default 1 2)\<lparr>sc_load_stages := stages_example\<rparr>"

text \<open>
  C27. While the schedule runs, \<open>load_at\<close> answers with the stage whose interval contains the
  elapsed time, with a client count between the previous stage's target and this one's, never
  more than \<open>maximum_virtual_clients\<close>, and with that stage's inclusion flag.
\<close>

theorem load_at_follows_schedule:
  assumes "load_at s elapsed = (j, t, included)" and "sc_load_stages s \<noteq> []"
    and "unat elapsed < total_ms (sc_load_stages s)" and "total_ms (sc_load_stages s) < 2 ^ 64"
  shows "j < length (sc_load_stages s)
    \<and> total_ms (take j (sc_load_stages s)) \<le> unat elapsed
    \<and> unat elapsed < total_ms (take (Suc j) (sc_load_stages s))
    \<and> min (target_before 0 (sc_load_stages s) j) (ls_target_virtual_clients (sc_load_stages s ! j)) \<le> t
    \<and> t \<le> max (target_before 0 (sc_load_stages s) j) (ls_target_virtual_clients (sc_load_stages s ! j))
    \<and> t \<le> maximum_virtual_clients s
    \<and> included = ls_include_in_results (sc_load_stages s ! j)"
proof -
  let ?st = "sc_load_stages s"
  have w: "load_walk elapsed 0 0 0 ?st = (j, t, included)" using assms(1,2) by (simp add: load_at_def)
  from load_walk_in_stage [OF w] assms(3,4) have j: "j < length ?st"
    "total_ms (take j ?st) \<le> unat elapsed" "unat elapsed < total_ms (take (Suc j) ?st)"
    "min (target_before 0 ?st j) (ls_target_virtual_clients (?st ! j)) \<le> t"
    "t \<le> max (target_before 0 ?st j) (ls_target_virtual_clients (?st ! j))"
    "included = ls_include_in_results (?st ! j)" by auto
  have "target_before 0 ?st j \<le> maximum_virtual_clients s"
    using j(1) by (auto simp: target_before_def intro!: target_le_maximum)
  moreover have "ls_target_virtual_clients (?st ! j) \<le> maximum_virtual_clients s"
    using j(1) by (intro target_le_maximum) simp
  ultimately have "t \<le> maximum_virtual_clients s" using j(5) by (auto simp: max_def split: if_splits)
  with j show ?thesis by simp
qed

theorem load_at_follows_schedule_witness:
  "snd (snd (load_at staged_example 5000)) = False \<and> fst (snd (load_at staged_example 5000)) \<le> 100"
proof -
  obtain j t i where l: "load_at staged_example 5000 = (j, t, i)" by (cases "load_at staged_example 5000")
  have "total_ms (sc_load_stages staged_example) = 30000"
    by (simp add: staged_example_def stages_example_def)
  then have r: "j < length stages_example \<and> total_ms (take j stages_example) \<le> 5000
      \<and> t \<le> maximum_virtual_clients staged_example \<and> i = ls_include_in_results (stages_example ! j)"
    using load_at_follows_schedule [OF l] by (simp add: staged_example_def stages_example_def)
  then have "j = 0" by (cases j) (auto simp: stages_example_def)
  moreover have "maximum_virtual_clients staged_example = 100"
    by (simp add: maximum_virtual_clients_def staged_example_def stages_example_def)
  ultimately show ?thesis using l r by (simp add: stages_example_def)
qed

text \<open>
  Past its end the last stage still answers, and a ramp goes on growing: two seconds after a ramp
  to 100 clients in ten seconds, 120 are asked for.
\<close>

lemma load_at_overshoots:
  "load_at (staged_example\<lparr>sc_load_stages := take 1 stages_example\<rparr>) 12000 = (0, 120, False)
   \<and> maximum_virtual_clients (staged_example\<lparr>sc_load_stages := take 1 stages_example\<rparr>) = 100"
  by code_simp

text \<open>The total duration is summed in 64 bits: two stages of 2 ^ 63 seconds last zero seconds.\<close>

lemma effective_duration_wraps:
  "effective_duration_secs (staged_example\<lparr>sc_load_stages :=
     map (\<lambda>st. st\<lparr>ls_duration_secs := 2 ^ 63\<rparr>) stages_example\<rparr>) = 0"
  by (simp add: effective_duration_secs_def staged_example_def stages_example_def)

section \<open>What validation accepts\<close>

text \<open>The preconditions of a run, as the agents and the control plane rely on them.\<close>

definition payload_usable :: "payload_profile \<Rightarrow> bool" where
  "payload_usable p \<longleftrightarrow> payload_byte_len p \<le> 64 * 1024 * 1024
     \<and> (pp_kind p = PkFile \<longleftrightarrow> pp_artifact_id p \<noteq> None)"

definition load_usable :: "scenario \<Rightarrow> bool" where
  "load_usable s \<longleftrightarrow>
     (if sc_load_stages s = [] then 0 < sc_duration_secs s
      else length (sc_load_stages s) \<le> 50
        \<and> (\<forall>st\<in>set (sc_load_stages s). str_trim (ls_name st) \<noteq> [] \<and> 0 < ls_duration_secs st))
     \<and> 0 < maximum_virtual_clients s"

definition tls_usable :: "tls_profile \<Rightarrow> bool" where
  "tls_usable t \<longleftrightarrow>
     (tls_enabled t \<longrightarrow> cipher_is_compatible t \<and> str_trim (tls_server_name t) \<noteq> []
        \<and> (\<exists>c k. tls_server_cert_pem t = Some c \<and> c \<noteq> [] \<and> tls_server_key_pem t = Some k \<and> k \<noteq> [])
        \<and> (tls_verify_peer t \<longrightarrow> (\<exists>ca. tls_ca_pem t = Some ca \<and> ca \<noteq> [])))"

definition protocol_usable :: "scenario \<Rightarrow> bool" where
  "protocol_usable s \<longleftrightarrow>
     (case sc_protocol s of
        Tcp \<Rightarrow> True
      | Http1 \<Rightarrow> rq_keep_alive (sc_request s) \<or> rq_transactions_per_connection (sc_request s) = 1
      | Http2 \<Rightarrow> tls_enabled (sc_tls s)
          \<and> unat (h2_max_concurrent_streams (sc_http2 s)) \<in> {1..1000})"

fun path_usable :: "scenario_path \<Rightarrow> bool" where
  "path_usable (ManagedDirect revision port) = (revision \<noteq> 0 \<and> port \<noteq> 0)"
| "path_usable (ExplicitProxy cn cip sn sip port proxy) =
     (str_trim cn \<noteq> [] \<and> str_trim sn \<noteq> [] \<and> is_ipv4 cip \<and> is_ipv4 sip \<and> port \<noteq> 0
      \<and> (\<exists>host digits p. rsplit_once CHR '':'' proxy = Some (host, digits) \<and> host \<noteq> []
            \<and> parse_str (2 ^ 16) digits = Some p \<and> 0 < p))"

definition scenario_usable :: "scenario \<Rightarrow> bool" where
  "scenario_usable s \<longleftrightarrow> sc_version s = 4
     \<and> (sc_payload_mode s = CaptureReplay \<longrightarrow> sc_capture_artifact_id s \<noteq> None)
     \<and> payload_usable (sc_request_payload s) \<and> payload_usable (sc_response_payload s)
     \<and> str_trim (sc_name s) \<noteq> [] \<and> (\<forall>i\<in>set (sc_observation_interfaces s). str_trim i \<noteq> [])
     \<and> load_usable s \<and> tls_usable (sc_tls s) \<and> protocol_usable s \<and> path_usable (sc_path s)"

lemma checks_append [simp]:
  "(\<forall>(bad, e)\<in>set (xs @ ys). \<not> bad) \<longleftrightarrow> (\<forall>(bad, e)\<in>set xs. \<not> bad) \<and> (\<forall>(bad, e)\<in>set ys. \<not> bad)"
  by auto

lemma payload_checks_usable: "(\<forall>(bad, e)\<in>set (payload_checks d p). \<not> bad) \<longleftrightarrow> payload_usable p"
  by (auto simp: payload_checks_def payload_usable_def MAX_PAYLOAD_BYTES_def)

lemma load_checks_usable: "(\<forall>(bad, e)\<in>set (load_checks s). \<not> bad) \<longleftrightarrow> load_usable s"
  by (auto simp: load_checks_def load_usable_def maximum_virtual_clients_def word_gt_0 split: if_splits)

lemma tls_checks_usable: "(\<forall>(bad, e)\<in>set (tls_checks t). \<not> bad) \<longleftrightarrow> tls_usable t"
  by (auto simp: tls_checks_def tls_usable_def is_none_or_empty_def split: option.splits)

lemma protocol_checks_usable: "(\<forall>(bad, e)\<in>set (protocol_checks s). \<not> bad) \<longleftrightarrow> protocol_usable s"
  by (auto simp: protocol_checks_def protocol_usable_def word_le_nat_alt split: protocol.splits)

lemma path_checks_usable: "(\<forall>(bad, e)\<in>set (path_checks p). \<not> bad) \<longleftrightarrow> path_usable p"
  by (cases p) (auto simp: path_checks_def valid_host_port_def split: option.splits)

lemmas checks_usable = payload_checks_usable load_checks_usable tls_checks_usable
  protocol_checks_usable path_checks_usable

text \<open>
  Validation accepts exactly the usable scenarios: payloads within 64 MiB with an artifact
  exactly when they are files, a schedule that asks for some client for some time, TLS material
  and HTTP/2 settings an agent can start with, and addresses it can parse.
\<close>

theorem scenario_validate_exact:
  "scenario_validate s = Inr () \<longleftrightarrow> scenario_usable s"
  unfolding scenario_validate_def run_checks_ok checks_append checks_usable scenario_usable_def
  by (auto simp: SCENARIO_VERSION_def)

end
