(* ===== verification/Net_Pool.thy ===== *)
theory Net_Pool
  imports Domain
begin

text \<open>
  Address pools: what \<open>ipv4_range\<close> guarantees of an endpoint's pool, and the list of CIDR
  addresses the agent assigns for it (\<open>expand_pool\<close> and \<open>address_is_ipv4\<close> in
  \<open>crates/agent/src/network.rs\<close>).
\<close>

section \<open>Expanding a pool\<close>

datatype pool_error = StartCidrInvalid

definition expand_pool :: "endpoint_profile \<Rightarrow> pool_error + string list" where
  "expand_pool e =
     bind_res (ok_or StartCidrInvalid (split_once CHR ''/'' (ep_start_cidr e))) (\<lambda>(address, prefix).
       bind_res (ok_or StartCidrInvalid (parse_ipv4 address)) (\<lambda>start.
         Inr (map (\<lambda>n. show_ipv4 (start + of_nat n) @ ''/'' @ prefix) [0..<unat (ep_count e)])))"

text \<open>The part of an address before its prefix length.\<close>

definition host_part :: "string \<Rightarrow> string" where
  "host_part a = (case split_once CHR ''/'' a of None \<Rightarrow> a | Some (v, _) \<Rightarrow> v)"

definition address_is_ipv4 :: "string \<Rightarrow> bool" where
  "address_is_ipv4 a \<longleftrightarrow> parse_ipv4 (host_part a) \<noteq> None"

section \<open>Subnets in arithmetic\<close>

lemma and_high_mask: "and a (push_bit h (- 1)) = push_bit h (drop_bit h a)" for a :: "'a::len word"
  by (rule bit_eqI) (auto simp: bit_simps)

lemma unat_network:
  assumes "h < 32"
  shows "unat (and a (push_bit h (- 1)) :: u32) = unat a div 2 ^ h * 2 ^ h"
proof -
  have "unat a div 2 ^ h * 2 ^ h \<le> unat a" by simp
  moreover have "unat a < 2 ^ 32" using unsigned_less [of a, where 'a = nat] by simp
  ultimately have b: "unat a div 2 ^ h * 2 ^ h < 2 ^ 32" by (rule le_less_trans)
  have "unat (push_bit h (drop_bit h a)) = take_bit 32 (unat a div 2 ^ h * 2 ^ h)"
    unfolding unsigned_push_bit_eq unat_drop_bit_eq unfolding drop_bit_eq_div push_bit_eq_mult by simp
  then show ?thesis unfolding and_high_mask using b by (simp only: take_bit_nat_eq_self)
qed

lemma block_end_bound:
  assumes "x < 2 ^ 32" and "h < 32"
  shows "x div 2 ^ h * 2 ^ h + (2 ^ h - 1) < (2::nat) ^ 32"
proof -
  have split: "(2::nat) ^ 32 = 2 ^ (32 - h) * 2 ^ h" using assms(2) by (simp flip: power_add)
  have "x div 2 ^ h < 2 ^ (32 - h)"
    by (rule less_mult_imp_div_less) (use assms(1) split in linarith)
  then have "(x div 2 ^ h + 1) * 2 ^ h \<le> 2 ^ (32 - h) * 2 ^ h"
    by (intro mult_le_mono1) simp
  moreover have "(0::nat) < 2 ^ h" by simp
  ultimately show ?thesis unfolding split add_mult_distrib by linarith
qed

lemma unat_broadcast:
  fixes a :: u32
  assumes "h < 32"
  defines "net \<equiv> and a (push_bit h (- 1))"
  shows "unat (or net (not (push_bit h (- 1)))) = unat a div 2 ^ h * 2 ^ h + (2 ^ h - 1)"
proof -
  have m: "not (push_bit h (- 1) :: u32) = mask h"
    by (rule bit_eqI) (auto simp: bit_simps)
  have d: "and net (mask h) = 0"
    by (rule bit_eqI) (auto simp: net_def bit_simps)
  have s: "or net (mask h) = net + mask h"
    using disjunctive_add_eq_or [of net "mask h"] d by simp
  have k: "unat (mask h :: u32) = 2 ^ h - 1"
  proof -
    have "unat (mask h :: u32) = take_bit 32 (mask h)"
      unfolding of_nat_mask_eq [where 'a = u32, symmetric] by (simp add: unsigned_of_nat)
    then have "unat (mask h :: u32) = mask h"
      using assms(1) by (simp only: take_bit_of_mask min.absorb2 [OF less_imp_le])
    then show ?thesis unfolding mask_eq_exp_minus_1 .
  qed
  have n: "unat net = unat a div 2 ^ h * 2 ^ h"
    unfolding net_def using assms(1) by (rule unat_network)
  have "unat a < 2 ^ 32" using unsigned_less [of a, where 'a = nat] by simp
  then have "unat net + unat (mask h :: u32) < 2 ^ 32"
    unfolding n k using assms(1) by (rule block_end_bound)
  then have "unat (net + mask h) = unat net + unat (mask h :: u32)"
    by (intro unat_add_no_wrap) simp
  then show ?thesis by (simp add: m s n k)
qed

section \<open>What a validated pool guarantees\<close>

definition subnet_mask :: "nat \<Rightarrow> u32" where
  "subnet_mask plen = push_bit (32 - plen) (- 1)"

lemma between_same_block:
  assumes "a div 2 ^ h * 2 ^ h \<le> x" and "x \<le> a div 2 ^ h * 2 ^ h + (2 ^ h - 1)"
  shows "x div 2 ^ h = a div (2::nat) ^ h"
proof (rule div_nat_eqI)
  show "2 ^ h * (a div 2 ^ h) \<le> x" using assms(1) by (simp add: mult.commute)
  have "(0::nat) < 2 ^ h" by simp
  then show "x < 2 ^ h * Suc (a div 2 ^ h)" using assms(2) unfolding mult_Suc_right mult.commute [of "2 ^ h" "a div 2 ^ h"] by linarith
qed

lemma ipv4_range_Inr:
  assumes "ipv4_range e = Inr (start, z, net, plen)"
  shows "1 \<le> plen" and "plen \<le> 30"
    and "1 \<le> unat (ep_count e)" and "unat (ep_count e) \<le> 4096"
    and "net = and start (subnet_mask plen)"
    and "unat z = unat start + unat (ep_count e) - 1"
    and "net < start" and "z < or net (not (subnet_mask plen))"
    and "\<exists>a p. split_once CHR ''/'' (ep_start_cidr e) = Some (a, p) \<and> parse_ipv4 a = Some start
      \<and> parse_str (2 ^ 8) p = Some plen"
proof -
  show "1 \<le> plen" and "plen \<le> 30" and "net = and start (subnet_mask plen)"
    and "net < start" and "z < or net (not (subnet_mask plen))"
    and "\<exists>a p. split_once CHR ''/'' (ep_start_cidr e) = Some (a, p) \<and> parse_ipv4 a = Some start
      \<and> parse_str (2 ^ 8) p = Some plen"
    using assms
    by (auto simp: ipv4_range_def Let_def subnet_mask_def not_le split: if_splits prod.splits)
  have c: "1 \<le> ep_count e" "ep_count e \<le> 4096" "checked_add start (ep_count e - 1) = Some z"
    using assms by (auto simp: ipv4_range_def Let_def split: if_splits prod.splits)
  show c1: "1 \<le> unat (ep_count e)" and "unat (ep_count e) \<le> 4096"
    using c(1,2) by (simp_all add: word_le_nat_alt)
  have "unat (ep_count e - 1) = unat (ep_count e) - 1" using c(1) by (simp add: unat_sub)
  then show "unat z = unat start + unat (ep_count e) - 1"
    using c(3) c1 by (auto simp: checked_add_Some unat_add_no_wrap)
qed

text \<open>Every address of a validated pool lies in the subnet, and is neither its network address nor its broadcast address.\<close>

lemma pool_member_in_subnet:
  assumes "ipv4_range e = Inr (start, z, net, plen)" and "n < unat (ep_count e)"
  shows "unat (start + of_nat n) = unat start + n"
    and "and (start + of_nat n) (subnet_mask plen) = net"
    and "net < start + of_nat n" and "start + of_nat n < or net (not (subnet_mask plen))"
    and "start \<le> start + of_nat n" and "start + of_nat n \<le> z"
proof -
  note r = ipv4_range_Inr [OF assms(1)]
  let ?h = "32 - plen"
  have h: "?h < 32" using r(1) by simp
  have zb: "unat z < 2 ^ 32" using unsigned_less [of z, where 'a = nat] by simp
  have n: "unat (of_nat n :: u32) = n"
    using assms(2) r(4) by (simp add: unat_of_nat)
  show u: "unat (start + of_nat n) = unat start + n"
    using zb r(3,6) assms(2) n by (subst unat_add_no_wrap) simp_all
  show lo: "start \<le> start + of_nat n" using u by (simp add: word_le_nat_alt)
  show hi: "start + of_nat n \<le> z" using u r(3,6) assms(2) by (simp add: word_le_nat_alt)
  from lo r(7) show "net < start + of_nat n" by (rule less_le_trans [rotated])
  from hi r(8) show up: "start + of_nat n < or net (not (subnet_mask plen))" by (rule le_less_trans)
  have net: "unat net = unat start div 2 ^ ?h * 2 ^ ?h"
    unfolding r(5) subnet_mask_def using h by (rule unat_network)
  have bro: "unat (or net (not (subnet_mask plen))) = unat start div 2 ^ ?h * 2 ^ ?h + (2 ^ ?h - 1)"
    unfolding r(5) subnet_mask_def using h by (rule unat_broadcast)
  have "unat (start + of_nat n) div 2 ^ ?h = unat start div 2 ^ ?h"
    by (rule between_same_block)
      (use lo r(7) net up bro in \<open>simp_all add: word_le_nat_alt word_less_nat_alt\<close>)
  then have "unat (and (start + of_nat n) (subnet_mask plen)) = unat net"
    unfolding net subnet_mask_def by (simp only: unat_network [OF h])
  then show "and (start + of_nat n) (subnet_mask plen) = net" by (simp only: unsigned_word_eqI)
qed

lemma expand_pool_validated:
  assumes "ipv4_range e = Inr (start, z, net, plen)"
  obtains p where "split_once CHR ''/'' (ep_start_cidr e) = Some (show_ipv4 start, p) \<or>
      (\<exists>a. split_once CHR ''/'' (ep_start_cidr e) = Some (a, p) \<and> parse_ipv4 a = Some start)"
    and "parse_str (2 ^ 8) p = Some plen"
    and "expand_pool e = Inr (map (\<lambda>n. show_ipv4 (start + of_nat n) @ ''/'' @ p) [0..<unat (ep_count e)])"
proof -
  from ipv4_range_Inr(9) [OF assms] obtain a p
    where "split_once CHR ''/'' (ep_start_cidr e) = Some (a, p)" "parse_ipv4 a = Some start"
      "parse_str (2 ^ 8) p = Some plen" by blast
  then show thesis by (intro that [of p]) (auto simp: expand_pool_def)
qed

lemma host_part_cidr: "host_part (show_ipv4 a @ ''/'' @ p) = show_ipv4 a"
  using split_once_append [OF show_ipv4_no_slash, of a p] by (simp add: host_part_def)

lemma profile_validate_ranges:
  assumes "profile_validate d = Inr ()"
  obtains c0 c1 s0 s1 net plen
  where "ipv4_range (np_client_endpoint d) = Inr (c0, c1, net, plen)"
    and "ipv4_range (np_server_endpoint d) = Inr (s0, s1, net, plen)"
    and "c1 < s0 \<or> s1 < c0"
  using assms by (auto simp: profile_validate_def not_le split: if_splits prod.splits)

section \<open>Pools of a validated profile\<close>

text \<open>A host address of the subnet: in it, and neither its network address nor its broadcast.\<close>

definition subnet_host :: "u32 \<Rightarrow> nat \<Rightarrow> string \<Rightarrow> bool" where
  "subnet_host net plen a \<longleftrightarrow>
     (\<exists>x. parse_ipv4 (host_part a) = Some x \<and> and x (subnet_mask plen) = net
        \<and> net < x \<and> x < or net (not (subnet_mask plen)))"

lemma expand_pool_hosts:
  assumes "ipv4_range e = Inr (start, z, net, plen)"
  obtains as where "expand_pool e = Inr as" and "length as = unat (ep_count e)"
    and "map host_part as = map (\<lambda>n. show_ipv4 (start + of_nat n)) [0..<unat (ep_count e)]"
    and "\<forall>a\<in>set as. subnet_host net plen a"
proof -
  from expand_pool_validated [OF assms] obtain p where
    e: "expand_pool e = Inr (map (\<lambda>n. show_ipv4 (start + of_nat n) @ ''/'' @ p) [0..<unat (ep_count e)])" .
  show thesis
    by (rule that [OF e])
      (use pool_member_in_subnet(2-4) [OF assms] in
        \<open>auto simp: comp_def host_part_cidr [simplified] subnet_host_def\<close>)
qed

lemma distinct_pool_hosts:
  assumes "ipv4_range e = Inr (start, z, net, plen)"
  shows "distinct (map (\<lambda>n. show_ipv4 (start + of_nat n)) [0..<unat (ep_count e)])"
proof -
  have "inj_on (\<lambda>n. show_ipv4 (start + of_nat n)) (set [0..<unat (ep_count e)])"
  proof (rule inj_onI)
    fix m n assume m: "m \<in> set [0..<unat (ep_count e)]" and n: "n \<in> set [0..<unat (ep_count e)]"
      and same: "show_ipv4 (start + of_nat m) = show_ipv4 (start + of_nat n)"
    have "unat (start + of_nat m) = unat (start + of_nat n)" using show_ipv4_inj [OF same] by (rule arg_cong)
    moreover have "unat (start + of_nat m) = unat start + m"
      by (rule pool_member_in_subnet(1) [OF assms]) (use m in simp)
    moreover have "unat (start + of_nat n) = unat start + n"
      by (rule pool_member_in_subnet(1) [OF assms]) (use n in simp)
    ultimately show "m = n" by linarith
  qed
  then show ?thesis by (simp only: distinct_map distinct_upt simp_thms)
qed

lemma validated_pools_expand:
  assumes "profile_validate d = Inr ()"
  obtains as bs where "expand_pool (np_client_endpoint d) = Inr as" and "expand_pool (np_server_endpoint d) = Inr bs"
  using profile_validate_ranges [OF assms] expand_pool_hosts by metis

definition profile_example :: network_profile_draft where
  "profile_example = network_profile_default 1"

lemma profile_example_valid: "profile_validate profile_example = Inr ()"
  by code_simp

text \<open>
  C26. A profile that passes validation has two usable pools: both endpoints expand to exactly as
  many addresses as asked for, all of them distinct hosts of one subnet, so no client address is a
  server address.
\<close>

theorem validated_profile_pools:
  assumes "profile_validate d = Inr ()"
  shows "\<exists>as bs net plen. expand_pool (np_client_endpoint d) = Inr as \<and> expand_pool (np_server_endpoint d) = Inr bs
    \<and> length as = unat (ep_count (np_client_endpoint d)) \<and> length bs = unat (ep_count (np_server_endpoint d))
    \<and> distinct (map host_part (as @ bs)) \<and> (\<forall>a\<in>set (as @ bs). subnet_host net plen a \<and> address_is_ipv4 a)"
proof -
  from profile_validate_ranges [OF assms] obtain c0 c1 s0 s1 net plen
    where c: "ipv4_range (np_client_endpoint d) = Inr (c0, c1, net, plen)"
      and s: "ipv4_range (np_server_endpoint d) = Inr (s0, s1, net, plen)" and apart: "c1 < s0 \<or> s1 < c0" .
  from expand_pool_hosts [OF c] obtain as where as: "expand_pool (np_client_endpoint d) = Inr as"
    "length as = unat (ep_count (np_client_endpoint d))"
    "map host_part as = map (\<lambda>n. show_ipv4 (c0 + of_nat n)) [0..<unat (ep_count (np_client_endpoint d))]"
    "\<forall>a\<in>set as. subnet_host net plen a" .
  from expand_pool_hosts [OF s] obtain bs where bs: "expand_pool (np_server_endpoint d) = Inr bs"
    "length bs = unat (ep_count (np_server_endpoint d))"
    "map host_part bs = map (\<lambda>n. show_ipv4 (s0 + of_nat n)) [0..<unat (ep_count (np_server_endpoint d))]"
    "\<forall>a\<in>set bs. subnet_host net plen a" .
  have "c0 + of_nat m \<noteq> s0 + of_nat n"
    if "m < unat (ep_count (np_client_endpoint d))" "n < unat (ep_count (np_server_endpoint d))" for m n
    using pool_member_in_subnet(5,6) [OF c that(1)] pool_member_in_subnet(5,6) [OF s that(2)] apart by auto
  then have "set (map host_part as) \<inter> set (map host_part bs) = {}"
    unfolding as(3) bs(3) by (auto dest: show_ipv4_inj)
  then have "distinct (map host_part (as @ bs))"
    unfolding map_append distinct_append using distinct_pool_hosts [OF c] distinct_pool_hosts [OF s]
    by (simp only: as(3) bs(3) simp_thms)
  moreover have "\<forall>a\<in>set (as @ bs). subnet_host net plen a \<and> address_is_ipv4 a"
    using as(4) bs(4) by (auto simp: address_is_ipv4_def subnet_host_def)
  ultimately show ?thesis using as(1,2) bs(1,2) by blast
qed

theorem validated_profile_pools_witness:
  "\<exists>as bs. expand_pool (np_client_endpoint profile_example) = Inr as
     \<and> expand_pool (np_server_endpoint profile_example) = Inr bs \<and> distinct (map host_part (as @ bs))"
  using validated_profile_pools [OF profile_example_valid] by blast

end
