(* ===== verification/Telemetry.thy ===== *)
theory Telemetry
  imports Domain
begin

text \<open>
  Counters of a run and what is reported of them (\<open>crates/agent/src/telemetry.rs\<close>,
  \<open>report_metrics\<close> and \<open>percentile_ms\<close> in \<open>crates/agent/src/main.rs\<close>): the window of active
  connections, the classification of failures, the kernel's interface and TCP statistics, and the
  metrics of one reporting interval. Instants are nanoseconds on the monotonic clock. The
  connection-nanoseconds of a window are a \<open>nat\<close> here and a \<open>u128\<close> in the code, which they fit:
  they are at most the maximum of connections times the length of the window.
\<close>

section \<open>Text\<close>

definition str_lines :: "string \<Rightarrow> string list" where
  "str_lines s =
     (let ps = split_by ((=) (CHR 0x0A)) s
      in map (\<lambda>l. case strip_suffix l [CHR 0x0D] of Some m \<Rightarrow> m | None \<Rightarrow> l) (butlast ps)
         @ (if last ps = [] then [] else [last ps]))"

fun ws_tokens :: "nat \<Rightarrow> nat list \<Rightarrow> nat list \<Rightarrow> nat list list" where
  "ws_tokens 0 cur s = []"
| "ws_tokens (Suc k) cur [] = (if cur = [] then [] else [cur])"
| "ws_tokens (Suc k) cur (c # cs) =
     (case find (starts_with (c # cs)) white_space of
        Some w \<Rightarrow> (if cur = [] then [] else [cur]) @ ws_tokens k [] (drop (length w) (c # cs))
      | None \<Rightarrow> ws_tokens k (cur @ [c]) cs)"

lemma ws_tokens_code [code]:
  "ws_tokens n cur s =
     (if n = 0 then []
      else case s of
        [] \<Rightarrow> if cur = [] then [] else [cur]
      | c # cs \<Rightarrow>
          (case find (starts_with s) white_space of
             Some w \<Rightarrow> (if cur = [] then [] else [cur]) @ ws_tokens (n - 1) [] (drop (length w) s)
           | None \<Rightarrow> ws_tokens (n - 1) (cur @ [c]) cs))"
  by (cases n; cases s) (simp_all split: option.split)

text \<open>\<open>split_whitespace\<close>; each step consumes a byte, so the fuel is never exhausted.\<close>

definition split_whitespace :: "string \<Rightarrow> string list" where
  "split_whitespace s =
     map (map char_of) (ws_tokens (Suc (length s)) [] (map of_char s))"

section \<open>Counters\<close>

record active_window =
  aw_current :: u64
  aw_min :: u64
  aw_max :: u64
  aw_weighted :: nat
  aw_started :: nat
  aw_changed :: nat

record counters =
  ct_load_stage_index :: u32
  ct_desired_virtual_clients :: u32
  ct_included_in_results :: bool
  ct_attempted :: u64
  ct_established :: u64
  ct_failed :: u64
  ct_active :: active_window
  ct_transactions :: u64
  ct_transaction_errors :: u64
  ct_timeout_errors :: u64
  ct_reset_errors :: u64
  ct_tls_handshake_errors :: u64
  ct_proxy_connect_errors :: u64
  ct_http_error_responses :: u64
  ct_tx :: u64
  ct_rx :: u64
  ct_packets_tx :: u64
  ct_packets_rx :: u64
  ct_wire_tx_bytes :: u64
  ct_wire_rx_bytes :: u64
  ct_tcp_retransmissions :: u64
  ct_tcp_connect_latencies_us :: "u64 list"
  ct_http_latencies_us :: "u64 list"

definition active_window_default :: "nat \<Rightarrow> active_window" where
  "active_window_default now = \<lparr>aw_current = 0, aw_min = 0, aw_max = 0, aw_weighted = 0,
     aw_started = now, aw_changed = now\<rparr>"

definition counters_default :: "nat \<Rightarrow> counters" where
  "counters_default now =
     \<lparr>ct_load_stage_index = 0, ct_desired_virtual_clients = 0, ct_included_in_results = False,
      ct_attempted = 0, ct_established = 0, ct_failed = 0, ct_active = active_window_default now,
      ct_transactions = 0, ct_transaction_errors = 0, ct_timeout_errors = 0, ct_reset_errors = 0,
      ct_tls_handshake_errors = 0, ct_proxy_connect_errors = 0, ct_http_error_responses = 0,
      ct_tx = 0, ct_rx = 0, ct_packets_tx = 0, ct_packets_rx = 0, ct_wire_tx_bytes = 0,
      ct_wire_rx_bytes = 0, ct_tcp_retransmissions = 0, ct_tcp_connect_latencies_us = [],
      ct_http_latencies_us = []\<rparr>"

definition account_until :: "nat \<Rightarrow> active_window \<Rightarrow> active_window" where
  "account_until now w =
     w\<lparr>aw_weighted := aw_weighted w + (now - aw_changed w) * unat (aw_current w), aw_changed := now\<rparr>"

definition connection_opened :: "nat \<Rightarrow> active_window \<Rightarrow> active_window" where
  "connection_opened now w =
     (let w = account_until now w; c = aw_current w + 1
      in w\<lparr>aw_current := c, aw_min := min (aw_min w) c, aw_max := max (aw_max w) c\<rparr>)"

definition connection_dropped :: "nat \<Rightarrow> active_window \<Rightarrow> active_window" where
  "connection_dropped now w =
     (let w = account_until now w; c = sat_sub (aw_current w) 1
      in w\<lparr>aw_current := c, aw_min := min (aw_min w) c\<rparr>)"

definition active_snapshot :: "nat \<Rightarrow> active_window \<Rightarrow> (u64 \<times> f64 \<times> u64 \<times> u64) \<times> active_window" where
  "active_snapshot now w =
     (let w = account_until now w; elapsed = max (now - aw_started w) 1
      in ((aw_current w, f64_div (f64_round_to (of_nat (aw_weighted w))) (f64_round_to (of_nat elapsed)),
           aw_min w, aw_max w),
          w\<lparr>aw_weighted := 0, aw_started := now, aw_min := aw_current w, aw_max := aw_current w\<rparr>))"

definition contains :: "string \<Rightarrow> bytes \<Rightarrow> bool" where
  "contains pat message \<longleftrightarrow> find_sub (bytes_of pat) message \<noteq> None"

definition record_failure :: "bytes \<Rightarrow> counters \<Rightarrow> counters" where
  "record_failure error c =
     (let message = map to_ascii_lowercase error;
          c = (if contains ''deadline has elapsed'' message \<or> contains ''timed out'' message
               then c\<lparr>ct_timeout_errors := ct_timeout_errors c + 1\<rparr> else c);
          c = (if contains ''connection reset'' message \<or> contains ''forcibly closed'' message
               then c\<lparr>ct_reset_errors := ct_reset_errors c + 1\<rparr> else c);
          c = (if contains ''tls handshake failed'' message
               then c\<lparr>ct_tls_handshake_errors := ct_tls_handshake_errors c + 1\<rparr> else c);
          c = (if contains ''http connect failed'' message
               then c\<lparr>ct_proxy_connect_errors := ct_proxy_connect_errors c + 1\<rparr> else c)
      in if contains ''http error response'' message
         then c\<lparr>ct_http_error_responses := ct_http_error_responses c + 1\<rparr> else c)"

section \<open>Statistics of the kernel\<close>

definition tcp_retransmissions_from :: "string \<Rightarrow> u64 option" where
  "tcp_retransmissions_from snmp =
     (case filter (\<lambda>l. starts_with l ''Tcp:'') (str_lines snmp) of
        header # values # _ \<Rightarrow>
          find_map (\<lambda>(name, v). if name = ''RetransSegs'' then map_option of_nat (parse_str (2 ^ 64) v) else None)
            (zip (drop 1 (split_whitespace header)) (drop 1 (split_whitespace values)))
      | _ \<Rightarrow> None)"

definition interface_stat_from_proc_net_dev :: "string \<Rightarrow> string \<Rightarrow> string \<Rightarrow> u64 option" where
  "interface_stat_from_proc_net_dev contents ifc stat =
     (case find_map (\<lambda>line. case split_once CHR '':'' line of
              None \<Rightarrow> None
            | Some (name, values) \<Rightarrow> if str_trim name = ifc then Some values else None) (str_lines contents) of
        None \<Rightarrow> None
      | Some values \<Rightarrow>
          (let fields = split_whitespace values;
               index = (if stat = ''rx_bytes'' then Some 0 else if stat = ''rx_packets'' then Some 1
                        else if stat = ''tx_bytes'' then Some 8 else if stat = ''tx_packets'' then Some 9
                        else None)
           in case index of
                None \<Rightarrow> None
              | Some i \<Rightarrow> if i < length fields then map_option of_nat (parse_str (2 ^ 64) (fields ! i)) else None))"

text \<open>The two files as they read at one moment, or nothing when they cannot be read.\<close>

record kernel_stats =
  ks_snmp :: "string option"
  ks_net_dev :: "string option"

definition read_tcp_retransmissions :: "kernel_stats \<Rightarrow> u64" where
  "read_tcp_retransmissions k =
     (case Option.bind (ks_snmp k) tcp_retransmissions_from of None \<Rightarrow> 0 | Some v \<Rightarrow> v)"

definition read_interface_stat :: "kernel_stats \<Rightarrow> string \<Rightarrow> string \<Rightarrow> u64" where
  "read_interface_stat k ifc stat =
     (case Option.bind (ks_net_dev k) (\<lambda>c. interface_stat_from_proc_net_dev c ifc stat) of
        None \<Rightarrow> 0 | Some v \<Rightarrow> v)"

definition sum_interface_stats :: "kernel_stats \<Rightarrow> string list \<Rightarrow> string \<Rightarrow> u64" where
  "sum_interface_stats k ifcs stat = sum_list (map (\<lambda>i. read_interface_stat k i stat) ifcs)"

text \<open>One round of \<open>monitor_interfaces\<close>, against the statistics \<open>base\<close> read at its start.\<close>

definition monitor_tick :: "string list \<Rightarrow> kernel_stats \<Rightarrow> kernel_stats \<Rightarrow> counters \<Rightarrow> counters" where
  "monitor_tick ifcs base now c =
     c\<lparr>ct_packets_tx := sat_sub (sum_interface_stats now ifcs ''tx_packets'') (sum_interface_stats base ifcs ''tx_packets''),
       ct_packets_rx := sat_sub (sum_interface_stats now ifcs ''rx_packets'') (sum_interface_stats base ifcs ''rx_packets''),
       ct_wire_tx_bytes := sat_sub (sum_interface_stats now ifcs ''tx_bytes'') (sum_interface_stats base ifcs ''tx_bytes''),
       ct_wire_rx_bytes := sat_sub (sum_interface_stats now ifcs ''rx_bytes'') (sum_interface_stats base ifcs ''rx_bytes''),
       ct_tcp_retransmissions := sat_sub (read_tcp_retransmissions now) (read_tcp_retransmissions base)\<rparr>"

section \<open>Percentiles\<close>

definition f64_to_usize :: "f64 \<Rightarrow> nat" where
  "f64_to_usize x = (if x < 0 then 0 else if 2 ^ 64 \<le> x then 2 ^ 64 - 1 else nat \<lfloor>x\<rfloor>)"

definition percentile_index :: "nat \<Rightarrow> f64 \<Rightarrow> nat" where
  "percentile_index n percentile = f64_to_usize (f64_mul (f64_round_to (of_nat (n - 1))) percentile)"

definition percentile_ms :: "u64 list \<Rightarrow> f64 \<Rightarrow> f64" where
  "percentile_ms samples percentile =
     (if samples = [] then 0
      else f64_div (f64_of_u64 (sort samples ! percentile_index (length samples) percentile)) 1000)"

section \<open>Metrics\<close>

record metrics_snapshot =
  ms_run_id :: uuid
  ms_unix_ms :: i64
  ms_elapsed_ms :: u64
  ms_load_stage_index :: u32
  ms_desired_virtual_clients :: u32
  ms_included_in_results :: bool
  ms_connections_attempted :: u64
  ms_connections_established :: u64
  ms_connections_failed :: u64
  ms_active_connections :: u64
  ms_active_connections_avg :: f64
  ms_active_connections_min :: u64
  ms_active_connections_max :: u64
  ms_transactions :: u64
  ms_transaction_errors :: u64
  ms_timeout_errors :: u64
  ms_reset_errors :: u64
  ms_tls_handshake_errors :: u64
  ms_proxy_connect_errors :: u64
  ms_http_error_responses :: u64
  ms_request_random_sha256 :: "string option"
  ms_response_random_sha256 :: "string option"
  ms_bytes_tx :: u64
  ms_bytes_rx :: u64
  ms_packets_tx :: u64
  ms_packets_rx :: u64
  ms_cps :: f64
  ms_tps :: f64
  ms_tx_bps :: f64
  ms_rx_bps :: f64
  ms_tx_pps :: f64
  ms_rx_pps :: f64
  ms_latency_p50_ms :: f64
  ms_latency_p95_ms :: f64
  ms_latency_p99_ms :: f64
  ms_tcp_connect_latency_p50_ms :: f64
  ms_tcp_connect_latency_p95_ms :: f64
  ms_tcp_connect_latency_p99_ms :: f64
  ms_http_latency_p50_ms :: f64
  ms_http_latency_p95_ms :: f64
  ms_http_latency_p99_ms :: f64
  ms_wire_tx_bytes :: u64
  ms_wire_rx_bytes :: u64
  ms_wire_tx_bps :: f64
  ms_wire_rx_bps :: f64
  ms_wire_tx_pps :: f64
  ms_wire_rx_pps :: f64
  ms_tcp_retransmissions :: u64
  ms_tcp_retransmissions_per_sec :: f64

text \<open>The cumulative counters at the previous report.\<close>

record previous_report =
  pv_est :: u64
  pv_tx :: u64
  pv_rx :: u64
  pv_tr :: u64
  pv_packets_tx :: u64
  pv_packets_rx :: u64
  pv_wire_tx :: u64
  pv_wire_rx :: u64
  pv_retransmissions :: u64

definition previous_report_zero :: previous_report where
  "previous_report_zero = \<lparr>pv_est = 0, pv_tx = 0, pv_rx = 0, pv_tr = 0, pv_packets_tx = 0,
     pv_packets_rx = 0, pv_wire_tx = 0, pv_wire_rx = 0, pv_retransmissions = 0\<rparr>"

definition remember_report :: "counters \<Rightarrow> previous_report" where
  "remember_report c = \<lparr>pv_est = ct_established c, pv_tx = ct_tx c, pv_rx = ct_rx c,
     pv_tr = ct_transactions c, pv_packets_tx = ct_packets_tx c, pv_packets_rx = ct_packets_rx c,
     pv_wire_tx = ct_wire_tx_bytes c, pv_wire_rx = ct_wire_rx_bytes c,
     pv_retransmissions = ct_tcp_retransmissions c\<rparr>"

definition rate :: "u64 \<Rightarrow> f64 \<Rightarrow> f64" where
  "rate delta interval = f64_div (f64_of_u64 delta) interval"

definition bit_rate :: "u64 \<Rightarrow> f64 \<Rightarrow> f64" where
  "bit_rate delta interval = f64_div (f64_mul (f64_of_u64 delta) 8) interval"

definition first_positive :: "f64 \<Rightarrow> f64 \<Rightarrow> f64" where
  "first_positive a b = (if 0 < a then a else b)"

definition metrics_of :: "uuid \<Rightarrow> i64 \<Rightarrow> u64 \<Rightarrow> f64 \<Rightarrow> string option \<times> string option \<Rightarrow> previous_report
    \<Rightarrow> u64 \<times> f64 \<times> u64 \<times> u64 \<Rightarrow> counters \<Rightarrow> metrics_snapshot" where
  "metrics_of run_id unix_ms elapsed_ms interval hashes pv act c =
     (let tcp = percentile_ms (ct_tcp_connect_latencies_us c);
          http = percentile_ms (ct_http_latencies_us c);
          p50 = f64_round_to (1 / 2); p95 = f64_round_to (95 / 100); p99 = f64_round_to (99 / 100)
      in \<lparr>ms_run_id = run_id, ms_unix_ms = unix_ms, ms_elapsed_ms = elapsed_ms,
          ms_load_stage_index = ct_load_stage_index c,
          ms_desired_virtual_clients = ct_desired_virtual_clients c,
          ms_included_in_results = ct_included_in_results c,
          ms_connections_attempted = ct_attempted c, ms_connections_established = ct_established c,
          ms_connections_failed = ct_failed c,
          ms_active_connections = fst act, ms_active_connections_avg = fst (snd act),
          ms_active_connections_min = fst (snd (snd act)), ms_active_connections_max = snd (snd (snd act)),
          ms_transactions = ct_transactions c, ms_transaction_errors = ct_transaction_errors c,
          ms_timeout_errors = ct_timeout_errors c, ms_reset_errors = ct_reset_errors c,
          ms_tls_handshake_errors = ct_tls_handshake_errors c,
          ms_proxy_connect_errors = ct_proxy_connect_errors c,
          ms_http_error_responses = ct_http_error_responses c,
          ms_request_random_sha256 = fst hashes, ms_response_random_sha256 = snd hashes,
          ms_bytes_tx = ct_tx c, ms_bytes_rx = ct_rx c,
          ms_packets_tx = ct_packets_tx c, ms_packets_rx = ct_packets_rx c,
          ms_cps = rate (ct_established c - pv_est pv) interval,
          ms_tps = rate (ct_transactions c - pv_tr pv) interval,
          ms_tx_bps = bit_rate (ct_tx c - pv_tx pv) interval,
          ms_rx_bps = bit_rate (ct_rx c - pv_rx pv) interval,
          ms_tx_pps = rate (ct_packets_tx c - pv_packets_tx pv) interval,
          ms_rx_pps = rate (ct_packets_rx c - pv_packets_rx pv) interval,
          ms_latency_p50_ms = first_positive (http p50) (tcp p50),
          ms_latency_p95_ms = first_positive (http p95) (tcp p95),
          ms_latency_p99_ms = first_positive (http p99) (tcp p99),
          ms_tcp_connect_latency_p50_ms = tcp p50, ms_tcp_connect_latency_p95_ms = tcp p95,
          ms_tcp_connect_latency_p99_ms = tcp p99, ms_http_latency_p50_ms = http p50,
          ms_http_latency_p95_ms = http p95, ms_http_latency_p99_ms = http p99,
          ms_wire_tx_bytes = ct_wire_tx_bytes c, ms_wire_rx_bytes = ct_wire_rx_bytes c,
          ms_wire_tx_bps = bit_rate (sat_sub (ct_wire_tx_bytes c) (pv_wire_tx pv)) interval,
          ms_wire_rx_bps = bit_rate (sat_sub (ct_wire_rx_bytes c) (pv_wire_rx pv)) interval,
          ms_wire_tx_pps = rate (ct_packets_tx c - pv_packets_tx pv) interval,
          ms_wire_rx_pps = rate (ct_packets_rx c - pv_packets_rx pv) interval,
          ms_tcp_retransmissions = ct_tcp_retransmissions c,
          ms_tcp_retransmissions_per_sec =
            rate (ct_tcp_retransmissions c - pv_retransmissions pv) interval\<rparr>)"

text \<open>
  One report: the latency samples are drained, the active window starts anew, and the counters
  are remembered for the next report. \<open>since\<close> is the time since the last report in seconds.
\<close>

definition report_tick :: "uuid \<Rightarrow> i64 \<Rightarrow> u64 \<Rightarrow> f64 \<Rightarrow> nat \<Rightarrow> string option \<times> string option
    \<Rightarrow> previous_report \<times> counters \<Rightarrow> metrics_snapshot \<times> previous_report \<times> counters" where
  "report_tick run_id unix_ms elapsed_ms since now hashes x =
     (let (pv, c) = x;
          (act, w) = active_snapshot now (ct_active c);
          m = metrics_of run_id unix_ms elapsed_ms (max since (f64_round_to (1 / 1000))) hashes pv act c
      in (m, remember_report c,
          c\<lparr>ct_active := w, ct_tcp_connect_latencies_us := [], ct_http_latencies_us := []\<rparr>))"

end
