(* ===== verification/Agent_Net.thy ===== *)
theory Agent_Net
  imports Net_Pool Telemetry
begin

text \<open>
  Planning on an agent (\<open>crates/agent/src/network.rs\<close>): the inventory of a node, the checks a
  profile's endpoint must pass on it, and the commands that prepare an endpoint and restore it.
  The maps \<open>offloads\<close> and \<open>capabilities\<close> are only looked up.
\<close>

section \<open>Data\<close>

record interface_inventory =
  ii_name :: string
  ii_kind :: "string option"
  ii_mac :: "string option"
  ii_mtu :: "u32 option"
  ii_state :: "string option"
  ii_master :: "string option"
  ii_addresses :: "string list"
  ii_link_up :: bool
  ii_offloads :: "string \<Rightarrow> bool option"

record node_inventory =
  ni_interfaces :: "interface_inventory list"
  ni_capabilities :: "string \<Rightarrow> bool option"
  ni_protected_interfaces :: "string list"
  ni_fingerprint :: string

record command_spec =
  cs_program :: string
  cs_args :: "string list"

record endpoint_plan =
  el_role :: string
  el_namespace :: string
  el_interface :: string
  el_addresses :: "string list"

record network_plan =
  nl_profile_revision_id :: string
  nl_node_id :: string
  nl_inventory_fingerprint :: string
  nl_endpoints :: "endpoint_plan list"
  nl_semantic_changes :: "string list"
  nl_commands :: "command_spec list"
  nl_rollback_commands :: "command_spec list"
  nl_warnings :: "string list"

record network_journal =
  nj_operation_id :: string
  nj_profile_revision_id :: string
  nj_phase :: string
  nj_lease_expires_unix_ms :: i64
  nj_rollback_commands :: "command_spec list"
  nj_completed_commands :: nat

definition command_new :: "string \<Rightarrow> string list \<Rightarrow> command_spec" where
  "command_new program args = \<lparr>cs_program = program, cs_args = args\<rparr>"

section \<open>Reading the inventory\<close>

text \<open>\<open>trim_start\<close> and the lookup of an offload feature in the output of \<open>ethtool -k\<close>.\<close>

definition str_trim_start :: "string \<Rightarrow> string" where
  "str_trim_start s =
     (let cs = map of_char s :: nat list in map char_of (strip_ws white_space (length cs) cs))"

definition offload_label :: "string \<Rightarrow> string option" where
  "offload_label feature =
     map_of [(''rx'', ''rx-checksumming:''), (''tx'', ''tx-checksumming:''),
        (''tso'', ''tcp-segmentation-offload:''), (''gso'', ''generic-segmentation-offload:''),
        (''gro'', ''generic-receive-offload:''), (''lro'', ''large-receive-offload:'')] feature"

definition parse_offloads :: "string \<Rightarrow> string \<Rightarrow> bool option" where
  "parse_offloads raw feature =
     (case offload_label feature of
        None \<Rightarrow> None
      | Some label \<Rightarrow>
          (case find (\<lambda>line. starts_with (str_trim_start line) label) (str_lines raw) of
             None \<Rightarrow> None
           | Some line \<Rightarrow>
               (case split_whitespace line of
                  _ # v # _ \<Rightarrow> Some (v = ''on'')
                | _ \<Rightarrow> None)))"

text \<open>What the fingerprint of an inventory covers: the interfaces with their IPv4 addresses only.\<close>

definition fingerprint_interfaces :: "interface_inventory list \<Rightarrow> interface_inventory list" where
  "fingerprint_interfaces ifs = map (\<lambda>i. i\<lparr>ii_addresses := filter address_is_ipv4 (ii_addresses i)\<rparr>) ifs"

definition is_ascii_alphanumeric :: "char \<Rightarrow> bool" where
  "is_ascii_alphanumeric c \<longleftrightarrow>
     (let v = of_char c :: nat in 48 \<le> v \<and> v \<le> 57 \<or> 65 \<le> v \<and> v \<le> 90 \<or> 97 \<le> v \<and> v \<le> 122)"

definition validate_identifier :: "string \<Rightarrow> bool" where
  "validate_identifier v \<longleftrightarrow>
     \<not> (v = [] \<or> 64 < length v
        \<or> \<not> (\<forall>c\<in>set v. is_ascii_alphanumeric c \<or> c \<in> {CHR ''-'', CHR ''_'', CHR ''.''}))"

definition short :: "string \<Rightarrow> string" where
  "short v = take (min (length v) 8) v"

definition has_capability :: "node_inventory \<Rightarrow> string \<Rightarrow> bool" where
  "has_capability nv c = (case ni_capabilities nv c of None \<Rightarrow> False | Some b \<Rightarrow> b)"

section \<open>Checks\<close>

datatype plan_error =
    UnsafeIdentifier string | InterfaceNotFound string | CarriesManagementRoute string
  | InvalidPool | MissingAddresses string "string list" | HasIpv4Addresses string
  | AttachedToMaster string string | VirtualInterface string string

definition address_host :: "string \<Rightarrow> string" where
  "address_host a = hd (split_by ((=) CHR ''/'') a)"

text \<open>What every endpoint of this node must pass: the interface it names and its addresses.\<close>

definition endpoint_interface :: "node_inventory \<Rightarrow> endpoint_profile \<Rightarrow> plan_error + (interface_inventory \<times> string list)" where
  "endpoint_interface nv e =
     (let name = ep_interface_name e
      in if \<not> validate_identifier name then Inl (UnsafeIdentifier name)
         else case find (\<lambda>i. ii_name i = name) (ni_interfaces nv) of
           None \<Rightarrow> Inl (InterfaceNotFound name)
         | Some current \<Rightarrow>
             if name \<in> set (ni_protected_interfaces nv) then Inl (CarriesManagementRoute name)
             else case expand_pool e of
               Inl _ \<Rightarrow> Inl InvalidPool
             | Inr addresses \<Rightarrow> Inr (current, addresses))"

definition operator_missing :: "interface_inventory \<Rightarrow> string list \<Rightarrow> string list" where
  "operator_missing current addresses =
     filter (\<lambda>a. \<not> (\<exists>c\<in>set (ii_addresses current). address_host c = address_host a)) addresses"

definition managed_check :: "network_profile_draft \<Rightarrow> endpoint_profile \<Rightarrow> interface_inventory \<Rightarrow> plan_error option" where
  "managed_check d e current =
     (let name = ep_interface_name e
      in if \<exists>a\<in>set (ii_addresses current). address_is_ipv4 a then Some (HasIpv4Addresses name)
         else case ii_master current of
           Some master \<Rightarrow> Some (AttachedToMaster name master)
         | None \<Rightarrow>
             (case ii_kind current of
                Some kind \<Rightarrow>
                  if \<not> np_allow_virtual_interfaces d
                     \<and> kind \<in> {''veth'', ''vxlan'', ''bridge'', ''macvlan'', ''macvtap''}
                  then Some (VirtualInterface name kind) else None
              | None \<Rightarrow> None))"

section \<open>Commands\<close>

definition arping_commands :: "string \<Rightarrow> string list \<Rightarrow> command_spec list" where
  "arping_commands ifc addresses =
     map (\<lambda>a. command_new ''arping'' [''-D'', ''-c'', ''2'', ''-w'', ''2'', ''-I'', ifc, address_host a]) addresses"

definition setup_commands :: "string \<Rightarrow> string \<Rightarrow> u32 \<Rightarrow> string list \<Rightarrow> command_spec list" where
  "setup_commands ns ifc mtu addresses =
     [command_new ''ip'' [''netns'', ''add'', ns],
      command_new ''ip'' [''link'', ''set'', ifc, ''netns'', ns],
      command_new ''ip'' [''-n'', ns, ''link'', ''set'', ''lo'', ''up''],
      command_new ''ip'' [''-n'', ns, ''link'', ''set'', ifc, ''mtu'', show_nat (unat mtu), ''up'']]
     @ map (\<lambda>a. command_new ''ip'' [''-n'', ns, ''address'', ''add'', a, ''dev'', ifc]) addresses"

definition offload_commands :: "string \<Rightarrow> string \<Rightarrow> command_spec list" where
  "offload_commands ns ifc =
     map (\<lambda>f. command_new ''ip'' [''netns'', ''exec'', ns, ''ethtool'', ''-K'', ifc, f, ''off''])
       [''gro'', ''gso'', ''tso'', ''lro'', ''rx'', ''tx'']"

definition restore_commands :: "string \<Rightarrow> interface_inventory \<Rightarrow> string \<Rightarrow> string list \<Rightarrow> command_spec list" where
  "restore_commands ns current ifc addresses =
     map (\<lambda>a. command_new ''ip'' [''-n'', ns, ''address'', ''del'', a, ''dev'', ifc]) (rev addresses)
     @ [command_new ''ip'' [''-n'', ns, ''link'', ''set'', ifc, ''netns'', ''1'']]
     @ List.map_filter (\<lambda>f. map_option (\<lambda>on.
            command_new ''ethtool'' [''-K'', ifc, f, if on then ''on'' else ''off'']) (ii_offloads current f))
         [''tx'', ''rx'', ''tso'', ''gso'', ''gro'', ''lro'']
     @ (case ii_mtu current of None \<Rightarrow> []
        | Some mtu \<Rightarrow> [command_new ''ip'' [''link'', ''set'', ifc, ''mtu'', show_nat (unat mtu)]])
     @ [command_new ''ip'' [''link'', ''set'', ifc, if ii_link_up current then ''up'' else ''down''],
        command_new ''ip'' [''netns'', ''del'', ns]]"

section \<open>The plan\<close>

text \<open>What one endpoint contributes; the lists are appended to the plan's.\<close>

record plan_part =
  pt_endpoint :: endpoint_plan
  pt_semantic :: string
  pt_commands :: "command_spec list"
  pt_rollback :: "command_spec list"
  pt_warnings :: "string list"

definition operator_part :: "string \<Rightarrow> endpoint_profile \<Rightarrow> interface_inventory \<Rightarrow> string list \<Rightarrow> plan_error + plan_part" where
  "operator_part role e current addresses =
     (let missing = operator_missing current addresses; ifc = ep_interface_name e
      in if missing \<noteq> [] then Inl (MissingAddresses ifc missing)
         else Inr \<lparr>pt_endpoint = \<lparr>el_role = role, el_namespace = [], el_interface = ifc, el_addresses = addresses\<rparr>,
                   pt_semantic = ''use operator-managed interface '' @ ifc @ '' without changing topology'',
                   pt_commands = [], pt_rollback = [], pt_warnings = []\<rparr>)"

definition managed_part :: "string \<Rightarrow> string \<Rightarrow> string \<Rightarrow> network_profile_draft \<Rightarrow> node_inventory \<Rightarrow> endpoint_profile
    \<Rightarrow> interface_inventory \<Rightarrow> string list \<Rightarrow> plan_error + plan_part" where
  "managed_part node_id revision_id role d nv e current addresses =
     (case managed_check d e current of
        Some err \<Rightarrow> Inl err
      | None \<Rightarrow>
          (let ifc = ep_interface_name e;
               ns = ''pt-'' @ short revision_id @ ''-'' @ role
           in if \<not> validate_identifier ns then Inl (UnsafeIdentifier ns)
              else Inr
                \<lparr>pt_endpoint = \<lparr>el_role = role, el_namespace = ns, el_interface = ifc, el_addresses = addresses\<rparr>,
                 pt_semantic = ''move '' @ ifc @ '' into '' @ ns @ '' and assign '' @ show_nat (length addresses)
                   @ '' IPv4 addresses'',
                 pt_commands = (if has_capability nv ''arping'' then arping_commands ifc addresses else [])
                   @ setup_commands ns ifc (np_mtu d) addresses
                   @ (if has_capability nv ''ethtool'' then offload_commands ns ifc else []),
                 pt_rollback = restore_commands ns current ifc addresses,
                 pt_warnings = (if \<exists>a\<in>set (ii_addresses current). \<not> address_is_ipv4 a
                     then [''interface '' @ ifc @ '' has IPv6 addresses; they will be preserved''] else [])
                   @ (if has_capability nv ''arping'' then []
                      else [''arping is unavailable on '' @ node_id @ ''; address conflict probing is skipped''])\<rparr>))"

definition plan_endpoint :: "string \<Rightarrow> string \<Rightarrow> network_profile_draft \<Rightarrow> node_inventory \<Rightarrow> string \<times> endpoint_profile
    \<Rightarrow> plan_error + plan_part option" where
  "plan_endpoint node_id revision_id d nv x =
     (let (role, e) = x
      in if ep_node_id e \<noteq> node_id then Inr None
         else bind_res (endpoint_interface nv e) (\<lambda>(current, addresses).
           bind_res (if np_provisioning d = OperatorManaged then operator_part role e current addresses
                     else managed_part node_id revision_id role d nv e current addresses)
             (\<lambda>p. Inr (Some p))))"

fun plan_endpoints :: "string \<Rightarrow> string \<Rightarrow> network_profile_draft \<Rightarrow> node_inventory \<Rightarrow> (string \<times> endpoint_profile) list
    \<Rightarrow> plan_error + plan_part list" where
  "plan_endpoints node_id revision_id d nv [] = Inr []"
| "plan_endpoints node_id revision_id d nv (x # xs) =
     bind_res (plan_endpoint node_id revision_id d nv x) (\<lambda>p.
     bind_res (plan_endpoints node_id revision_id d nv xs) (\<lambda>ps.
       Inr (case p of None \<Rightarrow> ps | Some p \<Rightarrow> p # ps)))"

definition network_plan_for :: "string \<Rightarrow> string \<Rightarrow> network_profile_draft \<Rightarrow> node_inventory \<Rightarrow> plan_error + network_plan" where
  "network_plan_for node_id revision_id d nv =
     bind_res (plan_endpoints node_id revision_id d nv
         [(''client'', np_client_endpoint d), (''server'', np_server_endpoint d)]) (\<lambda>parts.
       Inr \<lparr>nl_profile_revision_id = revision_id, nl_node_id = node_id,
            nl_inventory_fingerprint = ni_fingerprint nv,
            nl_endpoints = map pt_endpoint parts,
            nl_semantic_changes = map pt_semantic parts,
            nl_commands = concat (map pt_commands parts),
            nl_rollback_commands = concat (map pt_rollback parts),
            nl_warnings = concat (map pt_warnings parts)
              @ (if has_capability nv ''ethtool'' then []
                 else [''ethtool is unavailable; offload state cannot be changed''])\<rparr>)"

section \<open>What a plan guarantees\<close>

definition is_namespace_delete :: "command_spec \<Rightarrow> bool" where
  "is_namespace_delete c \<longleftrightarrow>
     cs_program c = ''ip'' \<and> 3 \<le> length (cs_args c) \<and> cs_args c ! 0 = ''netns'' \<and> cs_args c ! 1 = ''del''"

text \<open>What each part of a plan was checked against.\<close>

definition managed_commands :: "string \<Rightarrow> string \<Rightarrow> u32 \<Rightarrow> string list \<Rightarrow> command_spec set" where
  "managed_commands ns ifc mtu addresses =
     set (arping_commands ifc addresses @ setup_commands ns ifc mtu addresses @ offload_commands ns ifc)"

definition part_ok :: "string \<Rightarrow> network_profile_draft \<Rightarrow> node_inventory \<Rightarrow> plan_part \<Rightarrow> bool" where
  "part_ok revision_id d nv p \<longleftrightarrow>
     (\<exists>e current. e \<in> {np_client_endpoint d, np_server_endpoint d}
        \<and> el_interface (pt_endpoint p) = ep_interface_name e
        \<and> expand_pool e = Inr (el_addresses (pt_endpoint p))
        \<and> validate_identifier (ep_interface_name e)
        \<and> find (\<lambda>i. ii_name i = ep_interface_name e) (ni_interfaces nv) = Some current
        \<and> ep_interface_name e \<notin> set (ni_protected_interfaces nv)
        \<and> (if np_provisioning d = OperatorManaged
           then pt_commands p = [] \<and> pt_rollback p = []
             \<and> operator_missing current (el_addresses (pt_endpoint p)) = []
           else managed_check d e current = None
             \<and> validate_identifier (el_namespace (pt_endpoint p))
             \<and> pt_rollback p = restore_commands (el_namespace (pt_endpoint p)) current (ep_interface_name e)
                 (el_addresses (pt_endpoint p))
             \<and> set (pt_commands p) \<subseteq> managed_commands (el_namespace (pt_endpoint p))
                 (ep_interface_name e) (np_mtu d) (el_addresses (pt_endpoint p))))"

lemma endpoint_interface_Inr:
  "endpoint_interface nv e = Inr (current, addresses) \<Longrightarrow>
     validate_identifier (ep_interface_name e) \<and> expand_pool e = Inr addresses
   \<and> find (\<lambda>i. ii_name i = ep_interface_name e) (ni_interfaces nv) = Some current
   \<and> ep_interface_name e \<notin> set (ni_protected_interfaces nv)"
  by (simp add: endpoint_interface_def Let_def split: if_splits option.splits sum.splits)

lemma operator_part_Inr:
  "operator_part role e current addresses = Inr p \<Longrightarrow>
     operator_missing current addresses = [] \<and> pt_commands p = [] \<and> pt_rollback p = []
   \<and> el_interface (pt_endpoint p) = ep_interface_name e \<and> el_addresses (pt_endpoint p) = addresses"
  by (auto simp: operator_part_def Let_def split: if_splits)

lemma managed_part_Inr:
  "managed_part node_id revision_id role d nv e current addresses = Inr p \<Longrightarrow>
     managed_check d e current = None \<and> validate_identifier (el_namespace (pt_endpoint p))
   \<and> pt_rollback p = restore_commands (el_namespace (pt_endpoint p)) current (ep_interface_name e) addresses
   \<and> el_interface (pt_endpoint p) = ep_interface_name e \<and> el_addresses (pt_endpoint p) = addresses
   \<and> set (pt_commands p) \<subseteq> managed_commands (el_namespace (pt_endpoint p)) (ep_interface_name e) (np_mtu d) addresses"
  by (auto simp: managed_part_def managed_commands_def Let_def split: if_splits option.splits)

lemma managed_part_accepts:
  "managed_check d e current = None \<Longrightarrow> validate_identifier (''pt-'' @ short revision_id @ ''-'' @ role) \<Longrightarrow>
     managed_part node_id revision_id role d nv e current addresses \<noteq> Inl err"
  by (simp add: managed_part_def Let_def)

lemma plan_endpoint_ok:
  assumes "plan_endpoint node_id revision_id d nv (role, e) = Inr (Some p)"
    and "e \<in> {np_client_endpoint d, np_server_endpoint d}"
  shows "part_ok revision_id d nv p"
proof -
  from assms(1) obtain current addresses where ei: "endpoint_interface nv e = Inr (current, addresses)"
    and part: "(if np_provisioning d = OperatorManaged then operator_part role e current addresses
      else managed_part node_id revision_id role d nv e current addresses) = Inr p"
    by (auto simp: plan_endpoint_def split: if_splits prod.splits)
  note i = endpoint_interface_Inr [OF ei]
  show ?thesis
  proof (cases "np_provisioning d = OperatorManaged")
    case True
    then have "operator_part role e current addresses = Inr p" using part by simp
    from operator_part_Inr [OF this] i True assms(2) show ?thesis
      unfolding part_ok_def by (intro exI [of _ e] exI [of _ current]) simp
  next
    case False
    then have "managed_part node_id revision_id role d nv e current addresses = Inr p" using part by simp
    from managed_part_Inr [OF this] i False assms(2) show ?thesis
      unfolding part_ok_def by (intro exI [of _ e] exI [of _ current]) simp
  qed
qed

lemma plan_endpoints_ok:
  "plan_endpoints node_id revision_id d nv xs = Inr ps \<Longrightarrow>
     snd ` set xs \<subseteq> {np_client_endpoint d, np_server_endpoint d} \<Longrightarrow> \<forall>p\<in>set ps. part_ok revision_id d nv p"
proof (induction xs arbitrary: ps)
  case (Cons x xs)
  obtain role e where x: "x = (role, e)" by (cases x)
  from Cons.prems(1) obtain q qs where q: "plan_endpoint node_id revision_id d nv x = Inr q"
    "plan_endpoints node_id revision_id d nv xs = Inr qs" "ps = (case q of None \<Rightarrow> qs | Some p \<Rightarrow> p # qs)" by auto
  have "\<forall>p\<in>set qs. part_ok revision_id d nv p" using Cons.IH [OF q(2)] Cons.prems(2) by simp
  moreover have "part_ok revision_id d nv p" if "q = Some p" for p
    using plan_endpoint_ok [of node_id revision_id d nv role e p] q(1) that x Cons.prems(2) by auto
  ultimately show ?case using q(3) by (auto split: option.splits)
qed simp

lemma network_plan_for_parts:
  assumes "network_plan_for node_id revision_id d nv = Inr plan"
  obtains parts where "nl_endpoints plan = map pt_endpoint parts"
    and "nl_commands plan = concat (map pt_commands parts)"
    and "nl_rollback_commands plan = concat (map pt_rollback parts)"
    and "\<forall>p\<in>set parts. part_ok revision_id d nv p"
    and "nl_inventory_fingerprint plan = ni_fingerprint nv"
proof -
  from assms obtain parts where p: "plan_endpoints node_id revision_id d nv
      [(''client'', np_client_endpoint d), (''server'', np_server_endpoint d)] = Inr parts"
    and "nl_endpoints plan = map pt_endpoint parts" "nl_commands plan = concat (map pt_commands parts)"
    "nl_rollback_commands plan = concat (map pt_rollback parts)" "nl_inventory_fingerprint plan = ni_fingerprint nv"
    unfolding network_plan_for_def by auto
  with plan_endpoints_ok [OF p] that show thesis by simp
qed

section \<open>A plan is undone by its rollback\<close>

text \<open>The command that takes back what a command of a plan did to the host.\<close>

definition undoes :: "command_spec \<Rightarrow> command_spec \<Rightarrow> bool" where
  "undoes u c \<longleftrightarrow>
     (\<exists>ns. c = command_new ''ip'' [''netns'', ''add'', ns] \<and> u = command_new ''ip'' [''netns'', ''del'', ns])
   \<or> (\<exists>ns ifc. c = command_new ''ip'' [''link'', ''set'', ifc, ''netns'', ns]
        \<and> u = command_new ''ip'' [''-n'', ns, ''link'', ''set'', ifc, ''netns'', ''1''])
   \<or> (\<exists>ns ifc a. c = command_new ''ip'' [''-n'', ns, ''address'', ''add'', a, ''dev'', ifc]
        \<and> u = command_new ''ip'' [''-n'', ns, ''address'', ''del'', a, ''dev'', ifc])"

text \<open>Commands that leave nothing behind on the interface once it is back and its namespace gone.\<close>

definition leaves_nothing :: "command_spec \<Rightarrow> bool" where
  "leaves_nothing c \<longleftrightarrow> cs_program c = ''arping''
     \<or> (\<exists>ns. c = command_new ''ip'' [''-n'', ns, ''link'', ''set'', ''lo'', ''up''])"

text \<open>Settings of the interface itself: its MTU and state, and its offloads.\<close>

definition sets_interface :: "string \<Rightarrow> command_spec \<Rightarrow> bool" where
  "sets_interface ifc c \<longleftrightarrow>
     (\<exists>ns m. c = command_new ''ip'' [''-n'', ns, ''link'', ''set'', ifc, ''mtu'', m, ''up''])
   \<or> (\<exists>ns f. c = command_new ''ip'' [''netns'', ''exec'', ns, ''ethtool'', ''-K'', ifc, f, ''off''])"

lemma restore_undoes:
  assumes "c \<in> managed_commands ns ifc mtu addresses"
  shows "leaves_nothing c \<or> sets_interface ifc c
    \<or> (\<exists>u\<in>set (restore_commands ns current ifc addresses). undoes u c)"
proof -
  consider (arp) a where "c = command_new ''arping'' [''-D'', ''-c'', ''2'', ''-w'', ''2'', ''-I'', ifc, address_host a]"
    | (add) "c = command_new ''ip'' [''netns'', ''add'', ns]"
    | (mv) "c = command_new ''ip'' [''link'', ''set'', ifc, ''netns'', ns]"
    | (lo) "c = command_new ''ip'' [''-n'', ns, ''link'', ''set'', ''lo'', ''up'']"
    | (up) "c = command_new ''ip'' [''-n'', ns, ''link'', ''set'', ifc, ''mtu'', show_nat (unat mtu), ''up'']"
    | (addr) a where "a \<in> set addresses" "c = command_new ''ip'' [''-n'', ns, ''address'', ''add'', a, ''dev'', ifc]"
    | (off) f where "c = command_new ''ip'' [''netns'', ''exec'', ns, ''ethtool'', ''-K'', ifc, f, ''off'']"
    using assms unfolding managed_commands_def arping_commands_def setup_commands_def offload_commands_def set_append set_map list.set
    by blast
  then show ?thesis
  proof cases
    case arp
    then show ?thesis by (simp add: leaves_nothing_def command_new_def)
  next
    case add
    then have "undoes (command_new ''ip'' [''netns'', ''del'', ns]) c" unfolding undoes_def by blast
    then show ?thesis unfolding restore_commands_def by fastforce
  next
    case mv
    then have "undoes (command_new ''ip'' [''-n'', ns, ''link'', ''set'', ifc, ''netns'', ''1'']) c" unfolding undoes_def by blast
    then show ?thesis unfolding restore_commands_def by fastforce
  next
    case lo
    then show ?thesis unfolding leaves_nothing_def by blast
  next
    case up
    then show ?thesis unfolding sets_interface_def by blast
  next
    case addr
    then have "undoes (command_new ''ip'' [''-n'', ns, ''address'', ''del'', a, ''dev'', ifc]) c" unfolding undoes_def by blast
    then show ?thesis using addr(1) unfolding restore_commands_def by fastforce
  next
    case off
    then show ?thesis unfolding sets_interface_def by blast
  qed
qed

lemma part_okE:
  assumes "part_ok revision_id d nv p"
  obtains e current where "e \<in> {np_client_endpoint d, np_server_endpoint d}"
    and "el_interface (pt_endpoint p) = ep_interface_name e"
    and "validate_identifier (ep_interface_name e)"
    and "find (\<lambda>i. ii_name i = ep_interface_name e) (ni_interfaces nv) = Some current"
    and "ep_interface_name e \<notin> set (ni_protected_interfaces nv)"
    and "np_provisioning d \<noteq> OperatorManaged \<Longrightarrow>
      set (pt_commands p) \<subseteq> managed_commands (el_namespace (pt_endpoint p)) (ep_interface_name e)
        (np_mtu d) (el_addresses (pt_endpoint p))"
    and "np_provisioning d \<noteq> OperatorManaged \<Longrightarrow>
      pt_rollback p = restore_commands (el_namespace (pt_endpoint p)) current (ep_interface_name e)
        (el_addresses (pt_endpoint p))"
  using assms unfolding part_ok_def
  apply (elim exE conjE)
  apply (rule that)
        apply assumption
       apply assumption
      apply assumption
     apply assumption
    apply assumption
   apply (simp only: if_False simp_thms)
  apply (simp only: if_False simp_thms)
  done

lemma part_undone:
  assumes "part_ok revision_id d nv p" and "c \<in> set (pt_commands p)"
  shows "leaves_nothing c \<or> sets_interface (el_interface (pt_endpoint p)) c
    \<or> (\<exists>u\<in>set (pt_rollback p). undoes u c)"
proof (cases "np_provisioning d = OperatorManaged")
  case True
  then show ?thesis using assms by (auto simp: part_ok_def)
next
  case False
  from assms(1) show ?thesis
  proof (rule part_okE)
    fix e current
    assume i: "el_interface (pt_endpoint p) = ep_interface_name e"
      and c: "np_provisioning d \<noteq> OperatorManaged \<Longrightarrow>
        set (pt_commands p) \<subseteq> managed_commands (el_namespace (pt_endpoint p)) (ep_interface_name e)
          (np_mtu d) (el_addresses (pt_endpoint p))"
      and r: "np_provisioning d \<noteq> OperatorManaged \<Longrightarrow>
        pt_rollback p = restore_commands (el_namespace (pt_endpoint p)) current (ep_interface_name e)
          (el_addresses (pt_endpoint p))"
    from restore_undoes [OF subsetD [OF c [OF False] assms(2)]] show ?thesis
      by (simp only: i r [OF False])
  qed
qed

lemma find_mem: "find P xs = Some x \<Longrightarrow> x \<in> set xs \<and> P x"
  by (induction xs) (auto split: if_splits)

lemma part_endpoint_safe:
  assumes "part_ok revision_id d nv p"
  shows "el_interface (pt_endpoint p) \<in> ii_name ` set (ni_interfaces nv)
    \<and> el_interface (pt_endpoint p) \<notin> set (ni_protected_interfaces nv)
    \<and> validate_identifier (el_interface (pt_endpoint p))"
  using assms
proof (rule part_okE)
  fix e current
  assume i: "el_interface (pt_endpoint p) = ep_interface_name e"
    and f: "find (\<lambda>i. ii_name i = ep_interface_name e) (ni_interfaces nv) = Some current"
    and safe: "ep_interface_name e \<notin> set (ni_protected_interfaces nv)" "validate_identifier (ep_interface_name e)"
  from find_mem [OF f] have "ep_interface_name e \<in> ii_name ` set (ni_interfaces nv)"
    by (intro image_eqI [of _ _ current]) simp_all
  with safe show ?thesis by (simp only: i simp_thms)
qed

definition inventory_example :: node_inventory where
  "inventory_example =
     \<lparr>ni_interfaces =
        [\<lparr>ii_name = ''eth1'', ii_kind = None, ii_mac = None, ii_mtu = Some 1500, ii_state = None,
           ii_master = None, ii_addresses = [''fe80::1/64''], ii_link_up = True,
           ii_offloads = [''tso'' \<mapsto> True, ''tx'' \<mapsto> True]\<rparr>,
         \<lparr>ii_name = ''eth2'', ii_kind = None, ii_mac = None, ii_mtu = None, ii_state = None,
           ii_master = None, ii_addresses = [], ii_link_up = False, ii_offloads = Map.empty\<rparr>],
      ni_capabilities = [''ethtool'' \<mapsto> True, ''arping'' \<mapsto> True],
      ni_protected_interfaces = [''eth0''], ni_fingerprint = ''f''\<rparr>"

lemma example_plan:
  "network_plan_for ''node-1'' ''0123456789'' profile_example inventory_example
     = Inr (projr (network_plan_for ''node-1'' ''0123456789'' profile_example inventory_example))"
proof -
  obtain as bs where
    pools: "expand_pool (np_client_endpoint profile_example) = Inr as"
      "expand_pool (np_server_endpoint profile_example) = Inr bs"
    by (rule validated_pools_expand [OF profile_example_valid])
  have names: "validate_identifier ''eth1'' \<and> validate_identifier ''eth2''
      \<and> validate_identifier ''pt-01234567-client'' \<and> validate_identifier ''pt-01234567-server''
      \<and> \<not> address_is_ipv4 ''fe80::1/64''" by code_simp
  let ?c = "np_client_endpoint profile_example" and ?s = "np_server_endpoint profile_example"
  let ?ci = "hd (ni_interfaces inventory_example)" and ?si = "ni_interfaces inventory_example ! 1"
  have e: "endpoint_interface inventory_example ?c = Inr (?ci, as)" "endpoint_interface inventory_example ?s = Inr (?si, bs)"
    using pools names
    by (simp_all add: endpoint_interface_def profile_example_def network_profile_default_def inventory_example_def)
  have m: "managed_check profile_example ?c ?ci = None" "managed_check profile_example ?s ?si = None"
    using names
    by (simp_all add: managed_check_def profile_example_def network_profile_default_def inventory_example_def)
  have "managed_part ''node-1'' ''0123456789'' ''client'' profile_example nv ?c ?ci xs \<noteq> Inl err"
    "managed_part ''node-1'' ''0123456789'' ''server'' profile_example nv ?s ?si xs \<noteq> Inl err" for nv xs err
    by (rule managed_part_accepts [OF m(1)], use names in \<open>simp add: short_def\<close>)
      (rule managed_part_accepts [OF m(2)], use names in \<open>simp add: short_def\<close>)
  then obtain p q where
    "managed_part ''node-1'' ''0123456789'' ''client'' profile_example inventory_example ?c ?ci as = Inr p"
    "managed_part ''node-1'' ''0123456789'' ''server'' profile_example inventory_example ?s ?si bs = Inr q"
    by (metis sum.exhaust)
  then have "plan_endpoint ''node-1'' ''0123456789'' profile_example inventory_example (''client'', ?c) = Inr (Some p)"
    "plan_endpoint ''node-1'' ''0123456789'' profile_example inventory_example (''server'', ?s) = Inr (Some q)"
    by (simp_all add: plan_endpoint_def e) (simp_all add: profile_example_def network_profile_default_def)
  then have "\<not> isl (network_plan_for ''node-1'' ''0123456789'' profile_example inventory_example)"
    by (simp add: network_plan_for_def)
  then show "network_plan_for ''node-1'' ''0123456789'' profile_example inventory_example
      = Inr (projr (network_plan_for ''node-1'' ''0123456789'' profile_example inventory_example))"
    by (cases "network_plan_for ''node-1'' ''0123456789'' profile_example inventory_example") simp_all
qed



end
