(* ===== verification/Agent_Journal.thy ===== *)
theory Agent_Journal
  imports Agent_Net
begin

text \<open>
  Applying and rolling back a plan on an agent (\<open>apply\<close>, \<open>commit\<close>, \<open>rollback\<close>, \<open>recover\<close> and
  \<open>enforce_lease\<close> in \<open>crates/agent/src/network.rs\<close>) as a machine: the host's state of type \<open>'k\<close>,
  which commands change, the journal on disk, which is replaced atomically by renaming, and the
  history of the commands run, each with the journal that was on disk when it started. What a
  command does, whether a write of the journal succeeds and whether its removal does come from the
  operating system and are parameters.
\<close>

section \<open>The machine\<close>

datatype outcome = Success | Failed bytes | NotStarted

record 'k host =
  ho_kernel :: 'k
  ho_journal :: "network_journal option"
  ho_history :: "(command_spec \<times> outcome \<times> network_journal option) list"
  ho_writes :: nat

record 'k system =
  sy_run :: "command_spec \<Rightarrow> 'k \<Rightarrow> outcome \<times> 'k"
  sy_read :: "nat \<Rightarrow> bool"
  sy_write :: "nat \<Rightarrow> bool"
  sy_remove :: "nat \<Rightarrow> bool"

datatype apply_error =
    InventoryFailed | InventoryChanged | JournalReadFailed | JournalWriteFailed | CommandFailed command_spec outcome
  | NothingStaged | NotStaged | JournalRemoveFailed | RollbackFailed "command_spec list"

definition run_command :: "'k system \<Rightarrow> command_spec \<Rightarrow> 'k host \<Rightarrow> outcome \<times> 'k host" where
  "run_command sys c h =
     (let (r, k) = sy_run sys c (ho_kernel h)
      in (r, h\<lparr>ho_kernel := k, ho_history := ho_history h @ [(c, r, ho_journal h)]\<rparr>))"

definition read_journal :: "'k system \<Rightarrow> 'k host \<Rightarrow> apply_error + network_journal option" where
  "read_journal sys h = (if sy_read sys (ho_writes h) then Inr (ho_journal h) else Inl JournalReadFailed)"

definition write_journal :: "'k system \<Rightarrow> network_journal \<Rightarrow> 'k host \<Rightarrow> apply_error option \<times> 'k host" where
  "write_journal sys j h =
     (let h' = h\<lparr>ho_writes := Suc (ho_writes h)\<rparr>
      in if sy_write sys (ho_writes h) then (None, h'\<lparr>ho_journal := Some j\<rparr>)
         else (Some JournalWriteFailed, h'))"

text \<open>\<open>execute\<close> wants success; \<open>execute_rollback\<close> also accepts that there is nothing left to undo.\<close>

definition execute :: "'k system \<Rightarrow> command_spec \<Rightarrow> 'k host \<Rightarrow> apply_error option \<times> 'k host" where
  "execute sys c h =
     (let (r, h) = run_command sys c h
      in (if r = Success then None else Some (CommandFailed c r), h))"

definition already_undone :: "bytes \<Rightarrow> bool" where
  "already_undone error \<longleftrightarrow>
     (\<exists>e\<in>{''Cannot open network namespace'', ''No such file or directory'', ''Cannot find device'',
           ''does not exist'', ''Cannot assign requested address'', ''Address not found'', ''address not found''}.
        contains e error)"

definition rollback_accepts :: "outcome \<Rightarrow> bool" where
  "rollback_accepts r = (case r of Success \<Rightarrow> True | Failed e \<Rightarrow> already_undone e | NotStarted \<Rightarrow> False)"

section \<open>Rolling back\<close>

fun rollback_attempts :: "'k system \<Rightarrow> command_spec \<Rightarrow> nat \<Rightarrow> 'k host \<Rightarrow> bool \<times> 'k host" where
  "rollback_attempts sys c 0 h = (False, h)"
| "rollback_attempts sys c (Suc n) h =
     (let (r, h) = run_command sys c h
      in if rollback_accepts r then (True, h) else rollback_attempts sys c n h)"

text \<open>The commands that could not be undone after three attempts each, in order.\<close>

fun rollback_commands :: "'k system \<Rightarrow> command_spec list \<Rightarrow> 'k host \<Rightarrow> command_spec list \<times> 'k host" where
  "rollback_commands sys [] h = ([], h)"
| "rollback_commands sys (c # cs) h =
     (let (ok, h) = rollback_attempts sys c 3 h;
          (failures, h) = rollback_commands sys cs h
      in (if ok then failures else c # failures, h))"

definition rollback :: "'k system \<Rightarrow> network_journal \<Rightarrow> 'k host \<Rightarrow> apply_error option \<times> 'k host" where
  "rollback sys j h =
     (let cs = nj_rollback_commands j;
          (failures, h) = rollback_commands sys (filter (\<lambda>c. \<not> is_namespace_delete c) cs) h;
          (failures, h) = (if failures = [] then rollback_commands sys (filter is_namespace_delete cs) h
                           else (failures, h))
      in if failures \<noteq> [] then (Some (RollbackFailed failures), h)
         else if sy_remove sys (ho_writes h) then (None, h\<lparr>ho_journal := None\<rparr>)
         else (Some JournalRemoveFailed, h))"

definition recover :: "'k system \<Rightarrow> 'k host \<Rightarrow> apply_error option \<times> 'k host" where
  "recover sys h = (case read_journal sys h of
        Inl e \<Rightarrow> (Some e, h)
      | Inr None \<Rightarrow> (None, h)
      | Inr (Some j) \<Rightarrow> rollback sys j h)"

definition recover_on_startup :: "'k system \<Rightarrow> 'k host \<Rightarrow> apply_error option \<times> 'k host" where
  "recover_on_startup sys h =
     (case read_journal sys h of
        Inl e \<Rightarrow> (Some e, h)
      | Inr None \<Rightarrow> (None, h)
      | Inr (Some j) \<Rightarrow> if nj_phase j = ''prepared'' then (None, h) else rollback sys j h)"

text \<open>What the lease's timer does when it fires.\<close>

definition enforce_lease :: "'k system \<Rightarrow> string \<Rightarrow> 'k host \<Rightarrow> 'k host" where
  "enforce_lease sys operation_id h =
     (case read_journal sys h of
        Inl e \<Rightarrow> h
      | Inr None \<Rightarrow> h
      | Inr (Some j) \<Rightarrow>
          if nj_operation_id j = operation_id \<and> (nj_phase j = ''applying'' \<or> nj_phase j = ''staged'')
          then snd (rollback sys j h) else h)"

section \<open>Applying\<close>

fun apply_commands :: "'k system \<Rightarrow> command_spec list \<Rightarrow> network_journal \<Rightarrow> 'k host
    \<Rightarrow> apply_error option \<times> network_journal \<times> 'k host" where
  "apply_commands sys [] j h = (None, j, h)"
| "apply_commands sys (c # cs) j h =
     (case execute sys c h of
        (Some e, h) \<Rightarrow>
          (let j = j\<lparr>nj_phase := ''rolling_back''\<rparr>
           in case write_journal sys j h of
                (Some we, h) \<Rightarrow> (Some we, j, h)
              | (None, h) \<Rightarrow> (Some e, j, snd (rollback sys j h)))
      | (None, h) \<Rightarrow>
          (let j = j\<lparr>nj_completed_commands := Suc (nj_completed_commands j)\<rparr>
           in case write_journal sys j h of
                (Some we, h) \<Rightarrow> (Some we, j, h)
              | (None, h) \<Rightarrow> apply_commands sys cs j h))"

text \<open>\<open>current\<close> is the fingerprint of the inventory taken when the plan is applied, if one could be taken.\<close>

definition network_apply :: "'k system \<Rightarrow> string option \<Rightarrow> string \<Rightarrow> network_plan \<Rightarrow> i64 \<Rightarrow> 'k host \<Rightarrow> apply_error option \<times> 'k host" where
  "network_apply sys current operation_id plan lease h =
     (if current = None then (Some InventoryFailed, h)
      else if current \<noteq> Some (nl_inventory_fingerprint plan) then (Some InventoryChanged, h)
      else
        let j = \<lparr>nj_operation_id = operation_id, nj_profile_revision_id = nl_profile_revision_id plan,
                 nj_phase = ''applying'', nj_lease_expires_unix_ms = lease,
                 nj_rollback_commands = nl_rollback_commands plan, nj_completed_commands = 0\<rparr>
        in case write_journal sys j h of
             (Some e, h) \<Rightarrow> (Some e, h)
           | (None, h) \<Rightarrow>
               (case apply_commands sys (nl_commands plan) j h of
                  (Some e, _, h) \<Rightarrow> (Some e, h)
                | (None, j, h) \<Rightarrow> write_journal sys (j\<lparr>nj_phase := ''staged''\<rparr>) h))"

definition network_commit :: "'k system \<Rightarrow> 'k host \<Rightarrow> apply_error option \<times> 'k host" where
  "network_commit sys h =
     (case read_journal sys h of
        Inl e \<Rightarrow> (Some e, h)
      | Inr None \<Rightarrow> (Some NothingStaged, h)
      | Inr (Some j) \<Rightarrow>
          if nj_phase j \<noteq> ''staged'' then (Some NotStaged, h)
          else write_journal sys (j\<lparr>nj_phase := ''prepared''\<rparr>) h)"

section \<open>What the history shows\<close>

definition entries_for :: "network_journal option \<Rightarrow> command_spec list \<Rightarrow> (command_spec \<times> outcome \<times> network_journal option) list \<Rightarrow> bool" where
  "entries_for j cs es \<longleftrightarrow> (\<forall>e\<in>set es. fst e \<in> set cs \<and> snd (snd e) = j)"

text \<open>Some attempt at the command was accepted.\<close>

definition undone :: "command_spec \<Rightarrow> (command_spec \<times> outcome \<times> network_journal option) list \<Rightarrow> bool" where
  "undone c es \<longleftrightarrow> (\<exists>e\<in>set es. fst e = c \<and> rollback_accepts (fst (snd e)))"

lemma run_command_sel:
  assumes "run_command sys c h = (r, h')"
  shows "ho_journal h' = ho_journal h" "ho_writes h' = ho_writes h"
    "ho_history h' = ho_history h @ [(c, r, ho_journal h)]"
  using assms by (auto simp: run_command_def split: prod.splits)

lemma rollback_attempts_history:
  "rollback_attempts sys c n h = (ok, h') \<Longrightarrow>
     \<exists>es. ho_history h' = ho_history h @ es \<and> entries_for (ho_journal h) [c] es \<and> (ok \<longrightarrow> undone c es)
       \<and> ho_journal h' = ho_journal h \<and> ho_writes h' = ho_writes h"
proof (induction sys c n h rule: rollback_attempts.induct)
  case (1 sys c h)
  then show ?case by (auto simp: entries_for_def)
next
  case (2 sys c n h)
  obtain r h1 where r: "run_command sys c h = (r, h1)" by (cases "run_command sys c h")
  note sel = run_command_sel [OF r]
  show ?case
  proof (cases "rollback_accepts r")
    case True
    then show ?thesis using 2(2) r sel by (auto simp: entries_for_def undone_def)
  next
    case False
    with 2(2) r have "rollback_attempts sys c n h1 = (ok, h')" by simp
    from 2(1) [OF r [symmetric] refl False this] obtain es where
      es: "ho_history h' = ho_history h1 @ es" "entries_for (ho_journal h1) [c] es" "ok \<longrightarrow> undone c es"
        "ho_journal h' = ho_journal h1" "ho_writes h' = ho_writes h1" by blast
    show ?thesis using es sel
      by (intro exI [of _ "(c, r, ho_journal h) # es"]) (auto simp: entries_for_def undone_def)
  qed
qed

lemma rollback_commands_history:
  "rollback_commands sys cs h = (failures, h') \<Longrightarrow>
     \<exists>es. ho_history h' = ho_history h @ es \<and> entries_for (ho_journal h) cs es
       \<and> set failures \<subseteq> set cs \<and> (failures = [] \<longrightarrow> (\<forall>c\<in>set cs. undone c es))
       \<and> ho_journal h' = ho_journal h \<and> ho_writes h' = ho_writes h"
proof (induction cs arbitrary: h failures h')
  case Nil
  then show ?case by (auto simp: entries_for_def)
next
  case (Cons c cs)
  obtain ok h1 where a: "rollback_attempts sys c 3 h = (ok, h1)" by (cases "rollback_attempts sys c 3 h")
  obtain fs h2 where b: "rollback_commands sys cs h1 = (fs, h2)" by (cases "rollback_commands sys cs h1")
  have r: "failures = (if ok then fs else c # fs)" "h' = h2" using Cons.prems a b by auto
  from rollback_attempts_history [OF a] obtain es1 where es1: "ho_history h1 = ho_history h @ es1"
    "entries_for (ho_journal h) [c] es1" "ok \<longrightarrow> undone c es1" "ho_journal h1 = ho_journal h" "ho_writes h1 = ho_writes h" by blast
  from Cons.IH [OF b] obtain es2 where es2: "ho_history h2 = ho_history h1 @ es2"
    "entries_for (ho_journal h1) cs es2" "set fs \<subseteq> set cs" "fs = [] \<longrightarrow> (\<forall>c\<in>set cs. undone c es2)"
    "ho_journal h2 = ho_journal h1" "ho_writes h2 = ho_writes h1" by blast
  show ?case using es1 es2 r
    by (intro exI [of _ "es1 @ es2"]) (auto simp: entries_for_def undone_def)
qed

text \<open>
  A rollback runs the restoring commands first; a namespace is deleted only when each of them has
  been accepted, and the journal goes only when everything has.
\<close>

lemma rollback_history:
  assumes "rollback sys j h = (e, h')"
  obtains es1 es2 where "ho_history h' = ho_history h @ es1 @ es2"
    and "entries_for (ho_journal h) (filter (\<lambda>c. \<not> is_namespace_delete c) (nj_rollback_commands j)) es1"
    and "entries_for (ho_journal h) (filter is_namespace_delete (nj_rollback_commands j)) es2"
    and "es2 \<noteq> [] \<longrightarrow> (\<forall>c\<in>set (nj_rollback_commands j). \<not> is_namespace_delete c \<longrightarrow> undone c es1)"
    and "ho_journal h' = (if e = None then None else ho_journal h)"
    and "e = None \<longrightarrow> (\<forall>c\<in>set (nj_rollback_commands j). undone c (es1 @ es2))"
proof -
  let ?cs = "nj_rollback_commands j"
  obtain f1 h1 where a: "rollback_commands sys (filter (\<lambda>c. \<not> is_namespace_delete c) ?cs) h = (f1, h1)"
    by (cases "rollback_commands sys (filter (\<lambda>c. \<not> is_namespace_delete c) ?cs) h")
  from rollback_commands_history [OF a] obtain es1 where es1: "ho_history h1 = ho_history h @ es1"
    "entries_for (ho_journal h) (filter (\<lambda>c. \<not> is_namespace_delete c) ?cs) es1"
    "f1 = [] \<longrightarrow> (\<forall>c\<in>set (filter (\<lambda>c. \<not> is_namespace_delete c) ?cs). undone c es1)"
    "ho_journal h1 = ho_journal h" by blast
  show thesis
  proof (cases "f1 = []")
    case False
    then have r: "e = Some (RollbackFailed f1)" "h' = h1" using assms a by (simp_all add: rollback_def)
    show thesis by (rule that [of es1 "[]"]) (use es1 r in \<open>simp_all add: entries_for_def\<close>)
  next
    case True
    obtain f2 h2 where b: "rollback_commands sys (filter is_namespace_delete ?cs) h1 = (f2, h2)"
      by (cases "rollback_commands sys (filter is_namespace_delete ?cs) h1")
    from rollback_commands_history [OF b] obtain es2 where es2: "ho_history h2 = ho_history h1 @ es2"
      "entries_for (ho_journal h1) (filter is_namespace_delete ?cs) es2"
      "f2 = [] \<longrightarrow> (\<forall>c\<in>set (filter is_namespace_delete ?cs). undone c es2)" "ho_journal h2 = ho_journal h1" by blast
    have r: "e = None \<longrightarrow> f2 = []" "h' = (if e = None then h2\<lparr>ho_journal := None\<rparr> else h2)"
      using assms a b True by (auto simp: rollback_def split: if_splits)
    show thesis
      by (rule that [of es1 es2]) (use es1 es2 r True in \<open>auto simp: undone_def split: if_splits\<close>)
  qed
qed

text \<open>
  While a plan is applied, each of its commands starts with a journal on disk that carries the
  plan's rollback commands and the number of commands completed before it.
\<close>

fun covered_by :: "string \<Rightarrow> command_spec list \<Rightarrow> nat \<Rightarrow> command_spec list
    \<Rightarrow> (command_spec \<times> outcome \<times> network_journal option) list \<Rightarrow> bool" where
  "covered_by operation rb n cs [] = True"
| "covered_by operation rb n [] (e # es) = False"
| "covered_by operation rb n (c # cs) ((c', r, j) # es) =
     (c' = c \<and> (\<exists>jj. j = Some jj \<and> nj_operation_id jj = operation \<and> nj_rollback_commands jj = rb
                  \<and> nj_phase jj = ''applying'' \<and> nj_completed_commands jj = n)
      \<and> (if r = Success then covered_by operation rb (Suc n) cs es else es = []))"

lemma apply_commands_history:
  assumes "apply_commands sys cs j h = (e, j', h')" and "ho_journal h = Some j" and "nj_phase j = ''applying''"
  shows "\<exists>es es'. ho_history h' = ho_history h @ es @ es'
    \<and> covered_by (nj_operation_id j) (nj_rollback_commands j) (nj_completed_commands j) cs es
    \<and> (\<forall>x\<in>set es'. fst x \<in> set (nj_rollback_commands j))
    \<and> (e = None \<longrightarrow> es' = [] \<and> map (\<lambda>x. fst (snd x)) es = replicate (length cs) Success
        \<and> ho_journal h' = Some j' \<and> nj_phase j' = ''applying'' \<and> nj_operation_id j' = nj_operation_id j
        \<and> nj_rollback_commands j' = nj_rollback_commands j)
    \<and> (e \<noteq> None \<longrightarrow> ho_journal h' = None \<or> (\<exists>jj. ho_journal h' = Some jj \<and> nj_operation_id jj = nj_operation_id j
        \<and> nj_rollback_commands jj = nj_rollback_commands j \<and> nj_phase jj \<in> {''applying'', ''rolling_back''}))"
  using assms
proof (induction sys cs j h rule: apply_commands.induct)
  case (1 sys j h)
  then show ?case by auto
next
  case (2 sys c cs j h)
  obtain r h1 where r: "run_command sys c h = (r, h1)" by (cases "run_command sys c h")
  note sel = run_command_sel [OF r]
  have here: "covered_by (nj_operation_id j) (nj_rollback_commands j) (nj_completed_commands j) (c # cs)
      ((c, r, Some j) # es) = (if r = Success then covered_by (nj_operation_id j) (nj_rollback_commands j)
          (Suc (nj_completed_commands j)) cs es else es = [])" for es
    using "2.prems"(3) by simp
  show ?case
  proof (cases "r = Success")
    case True
    let ?j = "j\<lparr>nj_completed_commands := Suc (nj_completed_commands j)\<rparr>"
    have ex: "execute sys c h = (None, h1)" using r True by (simp add: execute_def)
    show ?thesis
    proof (cases "write_journal sys ?j h1")
      case (Pair we h2)
      show ?thesis
      proof (cases we)
        case (Some err)
        then have "e = Some err" "h' = h2" "ho_journal h2 = ho_journal h1" "ho_history h2 = ho_history h1"
          using "2.prems"(1) ex Pair by (auto simp: write_journal_def Let_def split: if_splits)
        then show ?thesis using sel here [of "[]"] True "2.prems"(2,3)
          by (intro exI [of _ "[(c, r, Some j)]"] exI [of _ "[]"]) simp
      next
        case None
        then have h2: "ho_journal h2 = Some ?j" "ho_history h2 = ho_history h1"
          using Pair by (auto simp: write_journal_def Let_def split: if_splits)
        have rest: "apply_commands sys cs ?j h2 = (e, j', h')" using "2.prems"(1) ex Pair None by simp
        have ph: "nj_phase ?j = ''applying''" using "2.prems"(3) by simp
        note IH = "2.IH" [OF ex [symmetric] refl refl Pair [symmetric] None rest h2(1) ph]
        have "nj_operation_id ?j = nj_operation_id j" "nj_rollback_commands ?j = nj_rollback_commands j"
          "nj_completed_commands ?j = Suc (nj_completed_commands j)" by simp_all
        from IH [unfolded this]
        obtain es es' where es: "ho_history h' = ho_history h2 @ es @ es'"
          "covered_by (nj_operation_id j) (nj_rollback_commands j) (Suc (nj_completed_commands j)) cs es"
          "\<forall>x\<in>set es'. fst x \<in> set (nj_rollback_commands j)"
          "e = None \<longrightarrow> es' = [] \<and> map (\<lambda>x. fst (snd x)) es = replicate (length cs) Success
            \<and> ho_journal h' = Some j' \<and> nj_phase j' = ''applying'' \<and> nj_operation_id j' = nj_operation_id j
            \<and> nj_rollback_commands j' = nj_rollback_commands j"
          "e \<noteq> None \<longrightarrow> ho_journal h' = None \<or> (\<exists>jj. ho_journal h' = Some jj \<and> nj_operation_id jj = nj_operation_id j
            \<and> nj_rollback_commands jj = nj_rollback_commands j \<and> nj_phase jj \<in> {''applying'', ''rolling_back''})" by (elim exE conjE)
        show ?thesis using es h2 sel here [of es] True "2.prems"(2)
          by (intro exI [of _ "(c, r, Some j) # es"] exI [of _ es']) simp
      qed
    qed
  next
    case False
    let ?j = "j\<lparr>nj_phase := ''rolling_back''\<rparr>"
    have ex: "execute sys c h = (Some (CommandFailed c r), h1)" using r False by (simp add: execute_def)
    show ?thesis
    proof (cases "write_journal sys ?j h1")
      case (Pair we h2)
      show ?thesis
      proof (cases we)
        case (Some err)
        then have "e = Some err" "h' = h2" "ho_journal h2 = ho_journal h1" "ho_history h2 = ho_history h1"
          using "2.prems"(1) ex Pair by (auto simp: write_journal_def Let_def split: if_splits)
        then show ?thesis using sel here [of "[]"] False "2.prems"(2,3)
          by (intro exI [of _ "[(c, r, Some j)]"] exI [of _ "[]"]) simp
      next
        case None
        then have h2: "ho_journal h2 = Some ?j" "ho_history h2 = ho_history h1"
          using Pair by (auto simp: write_journal_def Let_def split: if_splits)
        obtain re h3 where rb: "rollback sys ?j h2 = (re, h3)" by (cases "rollback sys ?j h2")
        have e: "e = Some (CommandFailed c r)" "h' = h3" using "2.prems"(1) ex Pair None rb by auto
        obtain es1 es2 where es: "ho_history h3 = ho_history h2 @ es1 @ es2"
          "entries_for (ho_journal h2) (filter (\<lambda>c. \<not> is_namespace_delete c) (nj_rollback_commands ?j)) es1"
          "entries_for (ho_journal h2) (filter is_namespace_delete (nj_rollback_commands ?j)) es2"
          "ho_journal h3 = (if re = None then None else ho_journal h2)"
          by (rule rollback_history [OF rb])
        have "\<forall>x\<in>set (es1 @ es2). fst x \<in> set (nj_rollback_commands j)"
          using es(2,3) by (auto simp: entries_for_def)
        then show ?thesis using es(1,4) e h2 sel here [of "[]"] False "2.prems"(2)
          by (intro exI [of _ "[(c, r, Some j)]"] exI [of _ "es1 @ es2"]) auto
      qed
    qed
  qed
qed

text \<open>The same for a whole application, the journal it leaves included.\<close>

lemma network_apply_history:
  assumes "network_apply sys current operation plan lease h = (e, h')"
  obtains (unstarted) "e \<noteq> None" and "ho_history h' = ho_history h" and "ho_journal h' = ho_journal h"
  | (started) es es' where "ho_history h' = ho_history h @ es @ es'"
      and "covered_by operation (nl_rollback_commands plan) 0 (nl_commands plan) es"
      and "\<forall>x\<in>set es'. fst x \<in> set (nl_rollback_commands plan)"
      and "e = None \<longrightarrow> es' = [] \<and> map (\<lambda>x. fst (snd x)) es = replicate (length (nl_commands plan)) Success
        \<and> (\<exists>j. ho_journal h' = Some j \<and> nj_phase j = ''staged'' \<and> nj_operation_id j = operation
            \<and> nj_rollback_commands j = nl_rollback_commands plan)"
      and "e \<noteq> None \<longrightarrow> ho_journal h' = None \<or> (\<exists>j. ho_journal h' = Some j \<and> nj_operation_id j = operation
            \<and> nj_rollback_commands j = nl_rollback_commands plan \<and> nj_phase j \<in> {''applying'', ''rolling_back''})"
proof -
  let ?j = "\<lparr>nj_operation_id = operation, nj_profile_revision_id = nl_profile_revision_id plan,
     nj_phase = ''applying'', nj_lease_expires_unix_ms = lease,
     nj_rollback_commands = nl_rollback_commands plan, nj_completed_commands = 0\<rparr>"
  show thesis
  proof (cases "current = Some (nl_inventory_fingerprint plan) \<and> sy_write sys (ho_writes h)")
    case False
    then have "e \<noteq> None" "ho_history h' = ho_history h" "ho_journal h' = ho_journal h"
      using assms by (auto simp: network_apply_def write_journal_def Let_def split: if_splits)
    then show thesis by (rule unstarted)
  next
    case True
    let ?h = "h\<lparr>ho_writes := Suc (ho_writes h), ho_journal := Some ?j\<rparr>"
    have w: "write_journal sys ?j h = (None, ?h)" using True by (simp add: write_journal_def Let_def)
    obtain r j h1 where a: "apply_commands sys (nl_commands plan) ?j ?h = (r, j, h1)"
      by (cases "apply_commands sys (nl_commands plan) ?j ?h")
    have "network_apply sys current operation plan lease h =
        (case r of None \<Rightarrow> write_journal sys (j\<lparr>nj_phase := ''staged''\<rparr>) h1 | Some err \<Rightarrow> (Some err, h1))"
      using True w a by (simp add: network_apply_def Let_def split: option.split)
    with assms have res: "(case r of None \<Rightarrow> write_journal sys (j\<lparr>nj_phase := ''staged''\<rparr>) h1
        | Some err \<Rightarrow> (Some err, h1)) = (e, h')" by (simp only:)
    have "ho_journal ?h = Some ?j" "nj_phase ?j = ''applying''" by simp_all
    note history = apply_commands_history [OF a this]
    have sel: "ho_history ?h = ho_history h" "nj_operation_id ?j = operation"
      "nj_rollback_commands ?j = nl_rollback_commands plan" "nj_completed_commands ?j = 0" by simp_all
    from history [unfolded sel] obtain es es' where es: "ho_history h1 = ho_history h @ es @ es'"
      "covered_by operation (nl_rollback_commands plan) 0 (nl_commands plan) es"
      "\<forall>x\<in>set es'. fst x \<in> set (nl_rollback_commands plan)"
      "r = None \<longrightarrow> es' = [] \<and> map (\<lambda>x. fst (snd x)) es = replicate (length (nl_commands plan)) Success
        \<and> ho_journal h1 = Some j \<and> nj_phase j = ''applying'' \<and> nj_operation_id j = operation
        \<and> nj_rollback_commands j = nl_rollback_commands plan"
      "r \<noteq> None \<longrightarrow> ho_journal h1 = None \<or> (\<exists>jj. ho_journal h1 = Some jj \<and> nj_operation_id jj = operation
        \<and> nj_rollback_commands jj = nl_rollback_commands plan \<and> nj_phase jj \<in> {''applying'', ''rolling_back''})"
      by (elim exE conjE)
    show thesis
    proof (cases r)
      case None
      then have "ho_history h' = ho_history h1"
        "ho_journal h' = (if e = None then Some (j\<lparr>nj_phase := ''staged''\<rparr>) else ho_journal h1)"
        using res by (auto simp: write_journal_def Let_def split: if_splits)
      then show thesis using started [of es es'] es None by simp
    next
      case (Some err)
      then have "e = Some err" "h' = h1" using res by auto
      then show thesis using started [of es es'] es Some by simp
    qed
  qed
qed

section \<open>The agent's network operations as a transition system\<close>

text \<open>
  The steps an agent takes on the host's network: the operations of the control plane, the
  lease's timer, the recovery at startup, and a crash while a plan is applied, after any number
  of its commands.
\<close>

inductive net_step :: "'k system \<Rightarrow> 'k host \<Rightarrow> 'k host \<Rightarrow> bool" for sys where
  Apply: "network_apply sys current operation plan lease h = (e, h') \<Longrightarrow> net_step sys h h'"
| Crash: "network_apply sys current operation (plan\<lparr>nl_commands := take n (nl_commands plan)\<rparr>) lease h = (None, h1) \<Longrightarrow>
    ho_journal h1 = Some j \<Longrightarrow> net_step sys h (h1\<lparr>ho_journal := Some (j\<lparr>nj_phase := ''applying''\<rparr>)\<rparr>)"
| Commit: "network_commit sys h = (e, h') \<Longrightarrow> net_step sys h h'"
| Recover: "recover sys h = (e, h') \<Longrightarrow> net_step sys h h'"
| Startup: "recover_on_startup sys h = (e, h') \<Longrightarrow> net_step sys h h'"
| Lease: "net_step sys h (enforce_lease sys operation h)"

inductive_cases net_stepE: "net_step sys h h'"

inductive net_reachable :: "'k system \<Rightarrow> 'k host \<Rightarrow> 'k host \<Rightarrow> bool" for sys h where
  start: "net_reachable sys h h"
| step: "net_reachable sys h h1 \<Longrightarrow> net_step sys h1 h2 \<Longrightarrow> net_reachable sys h h2"

text \<open>A journal past its application: every command of some plan was run to success under it.\<close>

definition applied_inv :: "'k host \<Rightarrow> bool" where
  "applied_inv h \<longleftrightarrow>
     (\<forall>j. ho_journal h = Some j \<longrightarrow> nj_phase j \<in> {''staged'', ''prepared''} \<longrightarrow>
        (\<exists>(plan :: network_plan) pre es post. ho_history h = pre @ es @ post
          \<and> covered_by (nj_operation_id j) (nl_rollback_commands plan) 0 (nl_commands plan) es
          \<and> map (\<lambda>x. fst (snd x)) es = replicate (length (nl_commands plan)) Success
          \<and> nj_rollback_commands j = nl_rollback_commands plan))"

lemma applied_inv_keep:
  assumes "applied_inv h" and "ho_history h' = ho_history h @ es"
    and "\<And>j'. ho_journal h' = Some j' \<Longrightarrow> nj_phase j' \<in> {''staged'', ''prepared''} \<Longrightarrow>
      \<exists>j. ho_journal h = Some j \<and> nj_phase j \<in> {''staged'', ''prepared''}
        \<and> nj_operation_id j = nj_operation_id j' \<and> nj_rollback_commands j = nj_rollback_commands j'"
  shows "applied_inv h'"
  unfolding applied_inv_def
proof (intro allI impI)
  fix j' assume "ho_journal h' = Some j'" "nj_phase j' \<in> {''staged'', ''prepared''}"
  from assms(3) [OF this] obtain j where j: "ho_journal h = Some j" "nj_phase j \<in> {''staged'', ''prepared''}"
    "nj_operation_id j = nj_operation_id j'" "nj_rollback_commands j = nj_rollback_commands j'" by blast
  from assms(1) j(1,2) obtain plan :: network_plan and pre es1 post where p: "ho_history h = pre @ es1 @ post"
    "covered_by (nj_operation_id j) (nl_rollback_commands plan) 0 (nl_commands plan) es1"
    "map (\<lambda>x. fst (snd x)) es1 = replicate (length (nl_commands plan)) Success"
    "nj_rollback_commands j = nl_rollback_commands plan"
    unfolding applied_inv_def by blast
  show "\<exists>(plan :: network_plan) pre es post. ho_history h' = pre @ es @ post
      \<and> covered_by (nj_operation_id j') (nl_rollback_commands plan) 0 (nl_commands plan) es
      \<and> map (\<lambda>x. fst (snd x)) es = replicate (length (nl_commands plan)) Success
      \<and> nj_rollback_commands j' = nl_rollback_commands plan"
    by (rule exI [of _ plan], rule exI [of _ pre], rule exI [of _ es1], rule exI [of _ "post @ es"])
      (use p j(3,4) assms(2) in simp)
qed

lemma applied_inv_same:
  assumes "applied_inv h" and "ho_history h' = ho_history h @ es" and "ho_journal h' \<in> {None, ho_journal h}"
  shows "applied_inv h'"
  by (rule applied_inv_keep [OF assms(1,2)]) (use assms(3) in \<open>metis insertE option.distinct(1) singletonD\<close>)

lemma rollback_keeps_inv:
  assumes "applied_inv h" and "rollback sys j h = (e, h')"
  shows "applied_inv h'"
proof -
  from assms(2) obtain es1 es2 where "ho_history h' = ho_history h @ es1 @ es2"
    "ho_journal h' = (if e = None then None else ho_journal h)" by (rule rollback_history)
  then show ?thesis by (intro applied_inv_same [OF assms(1)]) simp_all
qed

lemmas rollback_result_inv = rollback_keeps_inv [OF _ prod.collapse [symmetric]]

lemma apply_keeps_inv:
  assumes "applied_inv h" and "network_apply sys current operation plan lease h = (e, h')"
  shows "applied_inv h'"
  using assms(2)
proof (cases rule: network_apply_history)
  case unstarted
  then show ?thesis by (intro applied_inv_same [OF assms(1), of _ "[]"]) simp_all
next
  case (started es es')
  show ?thesis
  proof (cases e)
    case None
    then show ?thesis unfolding applied_inv_def
      using started by (intro allI impI exI [of _ plan] exI [of _ "ho_history h"] exI [of _ es] exI [of _ "[]"]) auto
  next
    case (Some err)
    then show ?thesis unfolding applied_inv_def using started by auto
  qed
qed

lemma network_commit_result:
  "network_commit sys h = (e, h') \<Longrightarrow> ho_history h' = ho_history h
    \<and> (ho_journal h' = ho_journal h \<or> (\<exists>j. ho_journal h = Some j \<and> nj_phase j = ''staged''
          \<and> ho_journal h' = Some (j\<lparr>nj_phase := ''prepared''\<rparr>)))"
  by (auto simp: network_commit_def read_journal_def write_journal_def Let_def split: if_splits option.splits)

lemma net_step_keeps_inv: "net_step sys h h' \<Longrightarrow> applied_inv h \<Longrightarrow> applied_inv h'"
proof (induction rule: net_step.induct)
  case (Apply current operation plan lease h e h')
  then show ?case by (blast intro: apply_keeps_inv)
next
  case (Crash current operation plan n lease h h1 j)
  then show ?case by (auto simp: applied_inv_def)
next
  case (Commit h e h')
  from network_commit_result [OF Commit(1)] show ?case
  proof (elim conjE disjE exE)
    assume "ho_history h' = ho_history h" "ho_journal h' = ho_journal h"
    then show ?thesis by (intro applied_inv_same [OF Commit(2), of _ "[]"]) simp_all
  next
    fix j assume "ho_history h' = ho_history h" and j: "ho_journal h = Some j" "nj_phase j = ''staged''"
      "ho_journal h' = Some (j\<lparr>nj_phase := ''prepared''\<rparr>)"
    then show ?thesis
      by (intro applied_inv_keep [OF Commit(2), of _ "[]"] exI [of _ j]) auto
  qed
next
  case (Recover h e h')
  then have "h' = snd (recover sys h)" by simp
  then show ?case using Recover(2)
    by (simp add: recover_def read_journal_def rollback_result_inv split: option.split)
next
  case (Startup h e h')
  then have "h' = snd (recover_on_startup sys h)" by simp
  then show ?case using Startup(2)
    by (simp add: recover_on_startup_def read_journal_def rollback_result_inv split: option.split)
next
  case (Lease h operation)
  then show ?case
    by (simp add: enforce_lease_def read_journal_def rollback_result_inv split: option.split)
qed

lemma net_reachable_inv: "net_reachable sys h h' \<Longrightarrow> applied_inv h \<Longrightarrow> applied_inv h'"
  by (induction rule: net_reachable.induct) (auto intro: net_step_keeps_inv)

section \<open>Properties\<close>

text \<open>A host whose commands all succeed, and a plan that makes a namespace.\<close>

definition example_system :: "unit system" where
  "example_system = \<lparr>sy_run = (\<lambda>c k. (Success, k)), sy_read = (\<lambda>n. True), sy_write = (\<lambda>n. True),
     sy_remove = (\<lambda>n. True)\<rparr>"

definition example_host :: "unit host" where
  "example_host = \<lparr>ho_kernel = (), ho_journal = None, ho_history = [], ho_writes = 0\<rparr>"

definition example_plan :: network_plan where
  "example_plan = \<lparr>nl_profile_revision_id = ''r'', nl_node_id = ''n'', nl_inventory_fingerprint = ''f'',
     nl_endpoints = [], nl_semantic_changes = [],
     nl_commands = [command_new ''ip'' [''netns'', ''add'', ''x'']],
     nl_rollback_commands = [command_new ''ip'' [''netns'', ''del'', ''x'']], nl_warnings = []\<rparr>"

definition example_applied :: "unit host" where
  "example_applied = snd (network_apply example_system (Some ''f'') ''op'' example_plan 0 example_host)"

lemma example_applied:
  "network_apply example_system (Some ''f'') ''op'' example_plan 0 example_host = (None, example_applied)"
  by (simp add: example_applied_def network_apply_def write_journal_def execute_def run_command_def Let_def
      example_system_def example_plan_def example_host_def)

lemma example_journal:
  obtains j where "ho_journal example_applied = Some j" and "nj_phase j = ''staged''"
    and "nj_rollback_commands j = [command_new ''ip'' [''netns'', ''del'', ''x'']]"
proof -
  have "ho_journal example_applied = Some \<lparr>nj_operation_id = ''op'', nj_profile_revision_id = ''r'',
      nj_phase = ''staged'', nj_lease_expires_unix_ms = 0,
      nj_rollback_commands = [command_new ''ip'' [''netns'', ''del'', ''x'']], nj_completed_commands = 1\<rparr>"
    by (simp add: example_applied_def network_apply_def write_journal_def execute_def run_command_def Let_def
        example_system_def example_plan_def example_host_def)
  then show thesis by (rule that) simp_all
qed



text \<open>
  C16. A rollback deletes a namespace only after every other rollback command has been accepted,
  because deleting one that still holds a borrowed interface would destroy it; and the journal is
  removed only when everything has been undone.
\<close>

theorem namespaces_deleted_last:
  assumes "rollback sys j h = (e, h')"
  shows "\<exists>es1 es2. ho_history h' = ho_history h @ es1 @ es2
    \<and> (\<forall>x\<in>set es1. \<not> is_namespace_delete (fst x)) \<and> (\<forall>x\<in>set es2. is_namespace_delete (fst x))
    \<and> (es2 \<noteq> [] \<longrightarrow> (\<forall>c\<in>set (nj_rollback_commands j). is_namespace_delete c \<or> undone c es1))
    \<and> (ho_journal h \<noteq> None \<and> ho_journal h' = None \<longrightarrow> e = None
         \<and> (\<forall>c\<in>set (nj_rollback_commands j). undone c (es1 @ es2)))"
proof -
  from assms obtain es1 es2 where es: "ho_history h' = ho_history h @ es1 @ es2"
    "entries_for (ho_journal h) (filter (\<lambda>c. \<not> is_namespace_delete c) (nj_rollback_commands j)) es1"
    "entries_for (ho_journal h) (filter is_namespace_delete (nj_rollback_commands j)) es2"
    "es2 \<noteq> [] \<longrightarrow> (\<forall>c\<in>set (nj_rollback_commands j). \<not> is_namespace_delete c \<longrightarrow> undone c es1)"
    "ho_journal h' = (if e = None then None else ho_journal h)"
    "e = None \<longrightarrow> (\<forall>c\<in>set (nj_rollback_commands j). undone c (es1 @ es2))"
    by (rule rollback_history)
  have "ho_journal h \<noteq> None \<and> ho_journal h' = None \<longrightarrow> e = None" using es(5) by (cases e; cases "ho_journal h"; simp)
  then have "ho_journal h \<noteq> None \<and> ho_journal h' = None \<longrightarrow> e = None
      \<and> (\<forall>c\<in>set (nj_rollback_commands j). undone c (es1 @ es2))" using es(6) by blast
  moreover have "\<forall>x\<in>set es1. \<not> is_namespace_delete (fst x)" "\<forall>x\<in>set es2. is_namespace_delete (fst x)"
    using es(2,3) by (auto simp: entries_for_def)
  moreover have "es2 \<noteq> [] \<longrightarrow> (\<forall>c\<in>set (nj_rollback_commands j). is_namespace_delete c \<or> undone c es1)"
    using es(4) by blast
  ultimately show ?thesis using es(1) by (intro exI [of _ es1] exI [of _ es2] conjI)
qed

theorem namespaces_deleted_last_witness:
  "ho_journal (snd (recover example_system example_applied)) = None
   \<and> (\<exists>es. ho_history (snd (recover example_system example_applied)) = ho_history example_applied @ es \<and> es \<noteq> [])"
proof -
  obtain j where j: "ho_journal example_applied = Some j"
    "nj_rollback_commands j = [command_new ''ip'' [''netns'', ''del'', ''x'']]" by (rule example_journal)
  obtain e h' where r: "rollback example_system j example_applied = (e, h')"
    by (cases "rollback example_system j example_applied")
  have "e = None" "ho_journal h' = None" using r
    by (auto simp: rollback_def j run_command_def is_namespace_delete_def command_new_def example_system_def
        rollback_accepts_def numeral_3_eq_3 Let_def)
  with namespaces_deleted_last [OF r] j show ?thesis
    by (auto simp: recover_def read_journal_def r undone_def) (auto simp: example_system_def r)
qed



end
