(* ===== verification/Artifact.thy ===== *)
theory Artifact
  imports Domain
begin

text \<open>
  Transfer of artifacts from the control plane to an agent: the chunks \<open>send_artifacts\<close> cuts a
  file into (\<open>crates/control/src/orchestration.rs\<close>), what the agent does with each chunk
  (\<open>crates/agent/src/artifact.rs\<close>), and the payloads it prepares from them
  (\<open>crates/agent/src/payload.rs\<close>). The text form of identifiers and the SHA-256 digest come
  from the packages \<open>uuid\<close> and \<open>sha2\<close> and are parameters; the state of a digest is the data it
  has been given. Temporary files live in the map \<open>as_files\<close>, which outlasts a connection; other
  failures of the file system are not modelled.
\<close>

section \<open>State\<close>

record artifact_chunk =
  ck_artifact_id :: string
  ck_offset :: u64
  ck_data :: bytes
  ck_total_size :: u64
  ck_sha256 :: string
  ck_eof :: bool
  ck_kind :: string

record incoming_artifact =
  ia_received :: u64
  ia_digest :: bytes
  ia_total_size :: u64
  ia_sha256 :: string
  ia_kind :: string

datatype completed_artifact = PayloadArtifact bytes | CaptureArtifact uuid

record artifact_store =
  as_incoming :: "uuid \<Rightarrow> incoming_artifact option"
  as_completed :: "uuid \<Rightarrow> completed_artifact option"
  as_files :: "uuid \<Rightarrow> bytes option"

datatype artifact_error =
    InvalidArtifactId | ExceedsAgentLimit | FirstChunkOffset | CreateFailed | MetadataChanged
  | OffsetMismatch | ExceedsDeclaredSize | EndedEarly | Sha256Mismatch

definition agent_limit :: "string \<Rightarrow> nat" where
  "agent_limit kind = (if kind = ''pcap'' then 512 * 1024 * 1024 else MAX_PAYLOAD_BYTES)"

section \<open>The agent's side\<close>

definition finish_artifact ::
    "(bytes \<Rightarrow> string) \<Rightarrow> uuid \<Rightarrow> incoming_artifact \<Rightarrow> artifact_store \<Rightarrow> artifact_error option \<times> artifact_store" where
  "finish_artifact sha256 i st s =
     (if ia_received st \<noteq> ia_total_size st then (Some EndedEarly, s)
      else
        let s = s\<lparr>as_incoming := (as_incoming s)(i := None)\<rparr>
        in if sha256 (ia_digest st) \<noteq> ia_sha256 st then
             (Some Sha256Mismatch, s\<lparr>as_files := (as_files s)(i := None)\<rparr>)
           else if ia_kind st = ''pcap'' then
             (None, s\<lparr>as_completed := (as_completed s)(i \<mapsto> CaptureArtifact i)\<rparr>)
           else
             (None, s\<lparr>as_completed := (as_completed s)(i \<mapsto> PayloadArtifact (the (as_files s i))),
                      as_files := (as_files s)(i := None)\<rparr>))"

text \<open>Opening the temporary file of a new transfer fails when the file already exists.\<close>

definition open_artifact :: "uuid \<Rightarrow> artifact_chunk \<Rightarrow> artifact_store \<Rightarrow> artifact_store option" where
  "open_artifact i c s =
     (if as_incoming s i \<noteq> None then Some s
      else if as_files s i \<noteq> None then None
      else Some (s\<lparr>as_incoming := (as_incoming s)(i \<mapsto>
               \<lparr>ia_received = 0, ia_digest = [], ia_total_size = ck_total_size c,
                ia_sha256 = ck_sha256 c, ia_kind = ck_kind c\<rparr>),
             as_files := (as_files s)(i \<mapsto> [])\<rparr>))"

definition write_chunk ::
    "(bytes \<Rightarrow> string) \<Rightarrow> uuid \<Rightarrow> artifact_chunk \<Rightarrow> artifact_store \<Rightarrow> artifact_error option \<times> artifact_store" where
  "write_chunk sha256 i c s =
     (let st = the (as_incoming s i)
      in if ia_total_size st \<noteq> ck_total_size c \<or> ia_sha256 st \<noteq> ck_sha256 c \<or> ia_kind st \<noteq> ck_kind c
         then (Some MetadataChanged, s)
         else if ck_offset c \<noteq> ia_received st then (Some OffsetMismatch, s)
         else if ia_total_size st < sat_add (ia_received st) (of_nat (length (ck_data c)))
         then (Some ExceedsDeclaredSize, s)
         else
           let st = st\<lparr>ia_digest := ia_digest st @ ck_data c,
                       ia_received := ia_received st + of_nat (length (ck_data c))\<rparr>;
               s = s\<lparr>as_files := (as_files s)(i \<mapsto> the (as_files s i) @ ck_data c),
                     as_incoming := (as_incoming s)(i \<mapsto> st)\<rparr>
           in if ck_eof c then finish_artifact sha256 i st s else (None, s))"

definition accept_chunk ::
    "(string \<Rightarrow> uuid option) \<Rightarrow> (bytes \<Rightarrow> string) \<Rightarrow> artifact_chunk \<Rightarrow> artifact_store
       \<Rightarrow> artifact_error option \<times> artifact_store" where
  "accept_chunk parse_uuid sha256 c s =
     (case parse_uuid (ck_artifact_id c) of
        None \<Rightarrow> (Some InvalidArtifactId, s)
      | Some i \<Rightarrow>
          if agent_limit (ck_kind c) < unat (ck_total_size c) then (Some ExceedsAgentLimit, s)
          else if as_completed s i \<noteq> None then (None, s)
          else if as_incoming s i = None \<and> ck_offset c \<noteq> 0 then (Some FirstChunkOffset, s)
          else case open_artifact i c s of
                 None \<Rightarrow> (Some CreateFailed, s)
               | Some s \<Rightarrow> write_chunk sha256 i c s)"

text \<open>A connection handles chunks until one fails, which ends the connection.\<close>

fun accept_chunks ::
    "(string \<Rightarrow> uuid option) \<Rightarrow> (bytes \<Rightarrow> string) \<Rightarrow> artifact_chunk list \<Rightarrow> artifact_store
       \<Rightarrow> artifact_error option \<times> artifact_store" where
  "accept_chunks parse_uuid sha256 [] s = (None, s)"
| "accept_chunks parse_uuid sha256 (c # cs) s =
     (case accept_chunk parse_uuid sha256 c s of
        (Some e, s) \<Rightarrow> (Some e, s)
      | (None, s) \<Rightarrow> accept_chunks parse_uuid sha256 cs s)"

text \<open>A new connection starts without transfers; the files are still there.\<close>

definition reconnect :: "artifact_store \<Rightarrow> artifact_store" where
  "reconnect s = s\<lparr>as_incoming := Map.empty, as_completed := Map.empty\<rparr>"

section \<open>The control plane's side\<close>

definition ARTIFACT_CHUNK_BYTES :: nat where "ARTIFACT_CHUNK_BYTES = 256 * 1024"

record stored_artifact =
  sa_id :: uuid
  sa_kind :: string
  sa_size :: u64
  sa_sha256 :: string

datatype send_error = UnsupportedKind | SizeLimit | ShorterThanMetadata

text \<open>
  The chunks sent until the end of the file or an error; \<open>got offset\<close> is how many bytes the
  operating system makes available to the read at \<open>offset\<close>.
\<close>

function send_loop :: "(uuid \<Rightarrow> string) \<Rightarrow> (nat \<Rightarrow> nat) \<Rightarrow> stored_artifact \<Rightarrow> bytes \<Rightarrow> nat
    \<Rightarrow> artifact_chunk list \<times> send_error option" where
  "send_loop show_uuid got a content offset =
     (let d = take (min ARTIFACT_CHUNK_BYTES (got offset)) (drop offset content);
          eof = (offset + length d = unat (sa_size a));
          chunk = \<lparr>ck_artifact_id = show_uuid (sa_id a), ck_offset = of_nat offset, ck_data = d,
                   ck_total_size = sa_size a, ck_sha256 = sa_sha256 a, ck_eof = eof, ck_kind = sa_kind a\<rparr>
      in if eof then ([chunk], None)
         else if d = [] then ([chunk], Some ShorterThanMetadata)
         else let (cs, r) = send_loop show_uuid got a content (offset + length d) in (chunk # cs, r))"
  by pat_completeness auto
termination
  by (relation "measure (\<lambda>(show_uuid, got, a, content, offset). length content - offset)")
    (auto simp: ARTIFACT_CHUNK_BYTES_def)

declare send_loop.simps [simp del]

definition send_artifact :: "(uuid \<Rightarrow> string) \<Rightarrow> (nat \<Rightarrow> nat) \<Rightarrow> stored_artifact \<Rightarrow> bytes
    \<Rightarrow> artifact_chunk list \<times> send_error option" where
  "send_artifact show_uuid got a content =
     (if sa_kind a \<noteq> ''payload'' \<and> sa_kind a \<noteq> ''pcap'' then ([], Some UnsupportedKind)
      else if (if sa_kind a = ''pcap'' then 512 * 1024 * 1024 else 64 * 1024 * 1024) < unat (sa_size a)
      then ([], Some SizeLimit)
      else send_loop show_uuid got a content 0)"

section \<open>Payloads\<close>

datatype payload_error = FileArtifactMissing | ArtifactNotTransferred

text \<open>\<open>random n\<close> is what the random generator fills a buffer of \<open>n\<close> bytes with.\<close>

definition materialize :: "(nat \<Rightarrow> bytes) \<Rightarrow> payload_profile \<Rightarrow> (uuid \<Rightarrow> completed_artifact option)
    \<Rightarrow> payload_error + bytes" where
  "materialize random p artifacts =
     (case pp_kind p of
        PkEmpty \<Rightarrow> Inr []
      | PkFixed \<Rightarrow> Inr (replicate (unat (pp_size_bytes p)) 0)
      | PkText \<Rightarrow> Inr (bytes_of (pp_text p))
      | PkRandom \<Rightarrow>
          Inr (if pp_random_format p = PrintableAscii
               then map (\<lambda>b. 0x20 + b mod 95) (random (unat (pp_size_bytes p)))
               else random (unat (pp_size_bytes p)))
      | PkFile \<Rightarrow>
          (case pp_artifact_id p of
             None \<Rightarrow> Inl FileArtifactMissing
           | Some i \<Rightarrow>
               (case artifacts i of
                  Some (PayloadArtifact bs) \<Rightarrow> Inr bs
                | _ \<Rightarrow> Inl ArtifactNotTransferred)))"

record prepared_payloads =
  pr_request :: bytes
  pr_response :: bytes

definition prepared_payloads_new :: "(nat \<Rightarrow> bytes) \<Rightarrow> (nat \<Rightarrow> bytes) \<Rightarrow> scenario \<Rightarrow> (uuid \<Rightarrow> completed_artifact option)
    \<Rightarrow> payload_error + prepared_payloads" where
  "prepared_payloads_new random1 random2 s artifacts =
     bind_res (materialize random1 (sc_request_payload s) artifacts) (\<lambda>request.
     bind_res (materialize random2 (sc_response_payload s) artifacts) (\<lambda>response.
       Inr \<lparr>pr_request = request, pr_response = response\<rparr>))"

section \<open>The invariant of the store\<close>

text \<open>
  Of every transfer in progress, the file and the digest hold the same bytes, their number is
  what was received, within the declared size and the agent's limit, and it is not yet complete;
  a completed capture keeps its file.
\<close>

definition incoming_ok :: "artifact_store \<Rightarrow> uuid \<Rightarrow> incoming_artifact \<Rightarrow> bool" where
  "incoming_ok s i st \<longleftrightarrow>
     as_files s i = Some (ia_digest st) \<and> unat (ia_received st) = length (ia_digest st)
   \<and> ia_received st \<le> ia_total_size st \<and> unat (ia_total_size st) \<le> agent_limit (ia_kind st)
   \<and> as_completed s i = None"

definition store_inv :: "artifact_store \<Rightarrow> bool" where
  "store_inv s \<longleftrightarrow>
     (\<forall>i st. as_incoming s i = Some st \<longrightarrow> incoming_ok s i st)
   \<and> (\<forall>i j. as_completed s i = Some (CaptureArtifact j) \<longrightarrow> j = i \<and> as_files s i \<noteq> None)"

lemma store_invD: "store_inv s \<Longrightarrow> as_incoming s i = Some st \<Longrightarrow> incoming_ok s i st"
  by (simp add: store_inv_def)

lemma store_inv_update:
  assumes inv: "store_inv s"
    and same: "\<And>j. j \<noteq> i \<Longrightarrow> as_incoming s' j = as_incoming s j \<and> as_completed s' j = as_completed s j \<and> as_files s' j = as_files s j"
    and here: "\<And>st. as_incoming s' i = Some st \<Longrightarrow> incoming_ok s' i st"
    and cap: "\<And>j. as_completed s' i = Some (CaptureArtifact j) \<Longrightarrow> j = i \<and> as_files s' i \<noteq> None"
  shows "store_inv s'"
  unfolding store_inv_def
proof (intro conjI allI impI)
  fix j st assume "as_incoming s' j = Some st"
  then show "incoming_ok s' j st"
    using inv same [of j] here by (cases "j = i") (auto simp: store_inv_def incoming_ok_def)
next
  fix j k assume "as_completed s' j = Some (CaptureArtifact k)"
  then show "k = j" using inv same [of j] cap by (cases "j = i") (auto simp: store_inv_def)
next
  fix j k assume "as_completed s' j = Some (CaptureArtifact k)"
  then show "as_files s' j \<noteq> None"
    using inv same [of j] cap by (cases "j = i") (auto simp: store_inv_def)
qed

lemma finish_artifact_inv:
  assumes "store_inv s" and "as_incoming s i = Some st"
  shows "store_inv (snd (finish_artifact sha256 i st s))"
proof -
  from store_invD [OF assms] have ok: "incoming_ok s i st" .
  show ?thesis
  proof (cases "ia_received st = ia_total_size st")
    case False
    then show ?thesis using assms(1) by (simp add: finish_artifact_def)
  next
    case True
    then show ?thesis
      using ok by (intro store_inv_update [OF assms(1), of i])
        (auto simp: finish_artifact_def Let_def incoming_ok_def split: if_splits)
  qed
qed

lemma open_artifact_inv:
  assumes "store_inv s" and "open_artifact i c s = Some s'" and "as_completed s i = None"
    and "unat (ck_total_size c) \<le> agent_limit (ck_kind c)"
  shows "store_inv s'" and "as_incoming s' i \<noteq> None"
proof -
  show "store_inv s'"
  proof (cases "as_incoming s i")
    case None
    then show ?thesis
      using assms by (intro store_inv_update [OF assms(1), of i])
        (auto simp: open_artifact_def incoming_ok_def split: if_splits)
  qed (use assms in \<open>simp add: open_artifact_def\<close>)
  show "as_incoming s' i \<noteq> None" using assms(2) by (auto simp: open_artifact_def split: if_splits)
qed

lemma write_chunk_inv:
  assumes "store_inv s" and "as_incoming s i \<noteq> None" and "length (ck_data c) < 2 ^ 63"
  shows "store_inv (snd (write_chunk sha256 i c s))"
proof -
  from assms(2) obtain st where st: "as_incoming s i = Some st" by blast
  from store_invD [OF assms(1) st] have ok: "incoming_ok s i st" .
  let ?n = "of_nat (length (ck_data c)) :: u64"
  let ?st = "st\<lparr>ia_digest := ia_digest st @ ck_data c, ia_received := ia_received st + ?n\<rparr>"
  let ?s = "s\<lparr>as_files := (as_files s)(i \<mapsto> the (as_files s i) @ ck_data c),
      as_incoming := (as_incoming s)(i \<mapsto> ?st)\<rparr>"
  have n: "unat ?n = length (ck_data c)" using assms(3) by (simp add: unat_of_nat)
  have lim: "unat (ia_total_size st) \<le> 512 * 1024 * 1024"
    using ok by (auto simp: incoming_ok_def agent_limit_def MAX_PAYLOAD_BYTES_def split: if_splits)
  show ?thesis
  proof (cases "ia_total_size st < sat_add (ia_received st) ?n")
    case True
    then have "snd (write_chunk sha256 i c s) = s"
      unfolding write_chunk_def Let_def st option.sel by (simp only: if_True if_cancel snd_conv if_distrib [of snd])
    then show ?thesis using assms(1) by (simp only:)
  next
    case False
    then have le: "unat (ia_received st) + length (ck_data c) \<le> unat (ia_total_size st)"
      using lim by (simp add: word_less_nat_alt unat_sat_add n min_def split: if_splits)
    then have r: "unat (ia_received st + ?n) = unat (ia_received st) + length (ck_data c)"
      using lim n by (subst unat_add_no_wrap) simp_all
    have "store_inv ?s"
      using ok le r by (intro store_inv_update [OF assms(1), of i])
        (auto simp: incoming_ok_def word_le_nat_alt)
    moreover from this have "store_inv (snd (finish_artifact sha256 i ?st ?s))"
      by (rule finish_artifact_inv) simp
    moreover have "snd (write_chunk sha256 i c s) \<in> {s, snd (finish_artifact sha256 i ?st ?s), ?s}"
      unfolding write_chunk_def Let_def st option.sel by simp
    ultimately show ?thesis using assms(1) by (elim insertE emptyE) (simp_all only:)
  qed
qed

lemma accept_chunk_inv:
  assumes "store_inv s" and "length (ck_data c) < 2 ^ 63"
  shows "store_inv (snd (accept_chunk parse_uuid sha256 c s))"
proof (cases "parse_uuid (ck_artifact_id c)")
  case None
  then show ?thesis using assms by (simp add: accept_chunk_def)
next
  case (Some i)
  then show ?thesis
    using assms open_artifact_inv [OF assms(1), of i c] write_chunk_inv [OF _ _ assms(2)]
    by (auto simp: accept_chunk_def not_less split: option.split)
qed

section \<open>A transfer from end to end\<close>

definition transfer_record :: "stored_artifact \<Rightarrow> bytes \<Rightarrow> nat \<Rightarrow> incoming_artifact" where
  "transfer_record a content n =
     \<lparr>ia_received = of_nat n, ia_digest = take n content, ia_total_size = sa_size a,
      ia_sha256 = sa_sha256 a, ia_kind = sa_kind a\<rparr>"

definition transfer_state :: "stored_artifact \<Rightarrow> bytes \<Rightarrow> nat \<Rightarrow> artifact_store \<Rightarrow> bool" where
  "transfer_state a content n s \<longleftrightarrow>
     as_completed s (sa_id a) = None
   \<and> (as_incoming s (sa_id a) = Some (transfer_record a content n) \<and> as_files s (sa_id a) = Some (take n content)
      \<or> n = 0 \<and> as_incoming s (sa_id a) = None \<and> as_files s (sa_id a) = None)"

definition transfer_done :: "stored_artifact \<Rightarrow> bytes \<Rightarrow> artifact_store \<Rightarrow> bool" where
  "transfer_done a content s \<longleftrightarrow>
     as_incoming s (sa_id a) = None
   \<and> as_completed s (sa_id a) = Some (if sa_kind a = ''pcap'' then CaptureArtifact (sa_id a) else PayloadArtifact content)
   \<and> as_files s (sa_id a) = (if sa_kind a = ''pcap'' then Some content else None)"

definition same_elsewhere :: "uuid \<Rightarrow> artifact_store \<Rightarrow> artifact_store \<Rightarrow> bool" where
  "same_elsewhere i s s' \<longleftrightarrow>
     (\<forall>j. j \<noteq> i \<longrightarrow> as_incoming s' j = as_incoming s j \<and> as_completed s' j = as_completed s j \<and> as_files s' j = as_files s j)"

definition transfer_ok :: "(string \<Rightarrow> uuid option) \<Rightarrow> (uuid \<Rightarrow> string) \<Rightarrow> (bytes \<Rightarrow> string) \<Rightarrow> stored_artifact \<Rightarrow> bytes \<Rightarrow> bool" where
  "transfer_ok parse_uuid show_uuid sha256 a content \<longleftrightarrow>
     parse_uuid (show_uuid (sa_id a)) = Some (sa_id a) \<and> sha256 content = sa_sha256 a
   \<and> length content = unat (sa_size a) \<and> (sa_kind a = ''payload'' \<or> sa_kind a = ''pcap'')
   \<and> unat (sa_size a) \<le> agent_limit (sa_kind a)"

lemma transfer_open:
  assumes "transfer_state a content n s" and "ck_total_size c = sa_size a" and "ck_sha256 c = sa_sha256 a"
    and "ck_kind c = sa_kind a"
  obtains s0 where "open_artifact (sa_id a) c s = Some s0"
    and "as_incoming s0 (sa_id a) = Some (transfer_record a content n)"
    and "as_files s0 (sa_id a) = Some (take n content)" and "as_completed s0 (sa_id a) = None"
    and "same_elsewhere (sa_id a) s s0"
proof (cases "as_incoming s (sa_id a) = None")
  case True
  let ?s0 = "s\<lparr>as_incoming := (as_incoming s)(sa_id a \<mapsto> transfer_record a content n),
      as_files := (as_files s)(sa_id a \<mapsto> take n content)\<rparr>"
  from assms(1) True have n: "n = 0" "as_files s (sa_id a) = None" "as_completed s (sa_id a) = None"
    by (auto simp: transfer_state_def)
  have "open_artifact (sa_id a) c s = Some ?s0"
    using True n assms(2-4) by (simp add: open_artifact_def transfer_record_def)
  then show thesis by (rule that) (use n in \<open>simp_all add: same_elsewhere_def\<close>)
next
  case False
  then have o: "open_artifact (sa_id a) c s = Some s" by (simp add: open_artifact_def)
  from assms(1) False have "as_incoming s (sa_id a) = Some (transfer_record a content n)"
    "as_files s (sa_id a) = Some (take n content)" "as_completed s (sa_id a) = None"
    unfolding transfer_state_def by blast+
  moreover have "same_elsewhere (sa_id a) s s" by (simp add: same_elsewhere_def)
  ultimately show thesis by (rule that [OF o])
qed

lemma transfer_step:
  assumes ok: "transfer_ok parse_uuid show_uuid sha256 a content" and st: "transfer_state a content n s"
    and d: "slice n (n + length d) content = d" "n + length d \<le> length content"
  defines "c \<equiv> \<lparr>ck_artifact_id = show_uuid (sa_id a), ck_offset = of_nat n, ck_data = d,
      ck_total_size = sa_size a, ck_sha256 = sa_sha256 a, ck_eof = (n + length d = length content), ck_kind = sa_kind a\<rparr>"
  shows "\<exists>s'. accept_chunk parse_uuid sha256 c s = (None, s') \<and> same_elsewhere (sa_id a) s s'
    \<and> (if n + length d = length content then transfer_done a content s' else transfer_state a content (n + length d) s')"
proof -
  obtain s0 where s0: "open_artifact (sa_id a) c s = Some s0"
    "as_incoming s0 (sa_id a) = Some (transfer_record a content n)"
    "as_files s0 (sa_id a) = Some (take n content)" "as_completed s0 (sa_id a) = None" "same_elsewhere (sa_id a) s s0"
    by (rule transfer_open [OF st, of c]) (simp_all add: c_def)
  have lim: "length content < 2 ^ 32"
    using ok by (auto simp: transfer_ok_def agent_limit_def MAX_PAYLOAD_BYTES_def split: if_splits)
  have u: "unat (of_nat k :: u64) = k" if "k \<le> length content" for k
    using that lim by (simp add: unat_of_nat)
  have un: "unat (of_nat n :: u64) = n" "unat (of_nat (length d) :: u64) = length d"
    by (rule u, use d(2) in linarith)+
  have fits: "\<not> sa_size a < sat_add (of_nat n) (of_nat (length d))"
    using ok d(2) unfolding word_less_nat_alt unat_sat_add un by (simp add: transfer_ok_def min_def)
  have app: "take n content @ d = take (n + length d) content"
    using d by (simp add: slice_def take_add)
  have first: "as_completed s (sa_id a) = None" "as_incoming s (sa_id a) = None \<Longrightarrow> n = 0"
    using st by (auto simp: transfer_state_def)
  define s1 where "s1 = s0\<lparr>as_files := (as_files s0)(sa_id a \<mapsto> take (n + length d) content),
      as_incoming := (as_incoming s0)(sa_id a \<mapsto> transfer_record a content (n + length d))\<rparr>"
  have "\<not> agent_limit (sa_kind a) < unat (sa_size a)" using ok by (simp add: transfer_ok_def)
  then have acc: "accept_chunk parse_uuid sha256 c s = write_chunk sha256 (sa_id a) c s0"
    using ok first s0(1) by (auto simp: accept_chunk_def transfer_ok_def c_def)
  have wr: "write_chunk sha256 (sa_id a) c s0 = (if ck_eof c
      then finish_artifact sha256 (sa_id a) (transfer_record a content (n + length d)) s1 else (None, s1))"
    using fits app s0
    by (simp add: write_chunk_def Let_def c_def transfer_record_def s1_def del: of_nat_add flip: of_nat_add)
  have same: "same_elsewhere (sa_id a) s s1" using s0(5) by (simp add: s1_def same_elsewhere_def)
  show ?thesis
  proof (cases "n + length d = length content")
    case False
    then have "accept_chunk parse_uuid sha256 c s = (None, s1)" unfolding acc wr by (simp add: c_def)
    moreover have "transfer_state a content (n + length d) s1" using s0(4) by (simp add: transfer_state_def s1_def)
    ultimately show ?thesis using same False by auto
  next
    case True
    have "of_nat (length content) = sa_size a" using ok by (auto simp: transfer_ok_def)
    then have "\<exists>s'. finish_artifact sha256 (sa_id a) (transfer_record a content (n + length d)) s1 = (None, s')
        \<and> same_elsewhere (sa_id a) s s' \<and> transfer_done a content s'"
      using ok same s0(4) True
      by (auto simp: finish_artifact_def transfer_record_def transfer_ok_def s1_def same_elsewhere_def transfer_done_def Let_def)
    moreover have "ck_eof c" using True by (simp add: c_def)
    ultimately show ?thesis using True unfolding acc wr by simp
  qed
qed

lemma same_elsewhere_trans: "same_elsewhere i s t \<Longrightarrow> same_elsewhere i t u \<Longrightarrow> same_elsewhere i s u"
  by (simp add: same_elsewhere_def)

lemma transfer_loop:
  assumes ok: "transfer_ok parse_uuid show_uuid sha256 a content" and got: "\<forall>n. 0 < got n"
  shows "transfer_state a content n s \<Longrightarrow> n \<le> length content \<Longrightarrow>
    snd (send_loop show_uuid got a content n) = None
    \<and> (\<exists>s'. accept_chunks parse_uuid sha256 (fst (send_loop show_uuid got a content n)) s = (None, s')
        \<and> transfer_done a content s' \<and> same_elsewhere (sa_id a) s s')"
proof (induction "length content - n" arbitrary: n s rule: less_induct)
  case less
  define d where "d = take (min ARTIFACT_CHUNK_BYTES (got n)) (drop n content)"
  define c where "c = \<lparr>ck_artifact_id = show_uuid (sa_id a), ck_offset = of_nat n, ck_data = d,
      ck_total_size = sa_size a, ck_sha256 = sa_sha256 a, ck_eof = (n + length d = length content), ck_kind = sa_kind a\<rparr>"
  have size: "unat (sa_size a) = length content" using ok by (simp add: transfer_ok_def)
  have d: "slice n (n + length d) content = d" "n + length d \<le> length content"
    using less.prems(2) by (auto simp: d_def slice_def min_def)
  have loop: "send_loop show_uuid got a content n =
      (if n + length d = length content then ([c], None)
       else if d = [] then ([c], Some ShorterThanMetadata)
       else let (cs, r) = send_loop show_uuid got a content (n + length d) in (c # cs, r))"
    by (subst send_loop.simps) (simp add: Let_def size c_def flip: d_def)
  obtain s' where s': "accept_chunk parse_uuid sha256 c s = (None, s')" "same_elsewhere (sa_id a) s s'"
    "if n + length d = length content then transfer_done a content s' else transfer_state a content (n + length d) s'"
    using transfer_step [OF ok less.prems(1) d] unfolding c_def by blast
  show ?case
  proof (cases "n + length d = length content")
    case True
    then show ?thesis using s' by (simp add: loop)
  next
    case False
    have "n < length content" using False d(2) by linarith
    then have ne: "d \<noteq> []" using got by (simp add: d_def ARTIFACT_CHUNK_BYTES_def)
    then have "length content - (n + length d) < length content - n" using \<open>n < length content\<close> by (cases d) simp_all
    from less.hyps [OF this _ d(2)] s'(3) False obtain s''
      where "snd (send_loop show_uuid got a content (n + length d)) = None"
        "accept_chunks parse_uuid sha256 (fst (send_loop show_uuid got a content (n + length d))) s' = (None, s'')"
        "transfer_done a content s''" "same_elsewhere (sa_id a) s' s''" by auto
    then show ?thesis using False ne s'(1) same_elsewhere_trans [OF s'(2)]
      by (auto simp: loop split: prod.splits)
  qed
qed

section \<open>Properties\<close>

text \<open>
  C5. Artifact transfer is faithful end to end. For an artifact within its limit whose stored
  size and digest are those of its content, the control plane's chunks, however the reads split
  the file, are accepted one after the other by an agent that has nothing of this artifact yet,
  and leave exactly the content: as a payload in memory, or as a capture in its file. Transfers
  of other artifacts are not disturbed.
\<close>

theorem artifact_transfer_faithful:
  assumes "transfer_ok parse_uuid show_uuid sha256 a content" and "\<forall>n. 0 < got n"
    and "as_incoming s (sa_id a) = None" and "as_completed s (sa_id a) = None" and "as_files s (sa_id a) = None"
  shows "snd (send_artifact show_uuid got a content) = None
    \<and> (\<exists>s'. accept_chunks parse_uuid sha256 (fst (send_artifact show_uuid got a content)) s = (None, s')
        \<and> transfer_done a content s' \<and> same_elsewhere (sa_id a) s s')"
proof -
  have "send_artifact show_uuid got a content = send_loop show_uuid got a content 0"
    using assms(1) by (auto simp: send_artifact_def transfer_ok_def agent_limit_def MAX_PAYLOAD_BYTES_def)
  moreover have "transfer_state a content 0 s" using assms(3-5) by (simp add: transfer_state_def)
  ultimately show ?thesis using transfer_loop [OF assms(1,2), of 0 s] by simp
qed

definition example_artifact :: stored_artifact where
  "example_artifact = \<lparr>sa_id = 7, sa_kind = ''pcap'', sa_size = 3, sa_sha256 = ''ok''\<rparr>"

definition empty_store :: artifact_store where
  "empty_store = \<lparr>as_incoming = Map.empty, as_completed = Map.empty, as_files = Map.empty\<rparr>"

theorem artifact_transfer_faithful_witness:
  "\<exists>s'. accept_chunks (\<lambda>t. Some 7) (\<lambda>b. ''ok'')
      (fst (send_artifact (\<lambda>i. ''id'') (\<lambda>n. 2) example_artifact [1, 2, 3])) empty_store = (None, s')
    \<and> as_files s' 7 = Some [1, 2, 3]"
proof -
  have "transfer_ok (\<lambda>t. Some 7) (\<lambda>i. ''id'') (\<lambda>b. ''ok'') example_artifact [1, 2, 3]"
    by (simp add: transfer_ok_def example_artifact_def agent_limit_def)
  from artifact_transfer_faithful [OF this, of "\<lambda>n. 2" empty_store] show ?thesis
    by (auto simp: empty_store_def transfer_done_def example_artifact_def)
qed

text \<open>
  C32. The agent's bookkeeping of transfers survives every chunk, accepted or refused: what a
  transfer has received is what its file and its digest hold, never more than the declared size
  or the agent's limit, and an artifact is never both in transfer and complete.
\<close>

theorem artifact_store_invariant:
  assumes "store_inv s" and "length (ck_data c) < 2 ^ 63"
  shows "store_inv (snd (accept_chunk parse_uuid sha256 c s))"
  by (rule accept_chunk_inv [OF assms])

theorem artifact_store_invariant_witness:
  "store_inv (snd (accept_chunk (\<lambda>t. Some 7) (\<lambda>b. ''ok'')
     \<lparr>ck_artifact_id = ''id'', ck_offset = 0, ck_data = [1], ck_total_size = 3, ck_sha256 = ''ok'', ck_eof = False,
      ck_kind = ''payload''\<rparr> empty_store))"
  by (rule artifact_store_invariant) (simp_all add: store_inv_def empty_store_def)

text \<open>
  A capture that an agent has received cannot be sent to it again after a reconnection: its
  temporary file is still there, so the first chunk fails to create it, which ends the new
  connection as well, and this repeats on every reconnection.
\<close>

theorem capture_retransfer_fails_after_reconnect:
  assumes "transfer_done a content s" and "sa_kind a = ''pcap''"
    and "parse_uuid (ck_artifact_id c) = Some (sa_id a)" and "ck_offset c = 0"
    and "unat (ck_total_size c) \<le> agent_limit (ck_kind c)"
  shows "accept_chunk parse_uuid sha256 c (reconnect s) = (Some CreateFailed, reconnect s)"
  using assms by (simp add: accept_chunk_def reconnect_def transfer_done_def open_artifact_def)

theorem capture_retransfer_fails_after_reconnect_witness:
  "fst (accept_chunk (\<lambda>t. Some 7) (\<lambda>b. ''ok'')
     \<lparr>ck_artifact_id = ''id'', ck_offset = 0, ck_data = [1, 2], ck_total_size = 3, ck_sha256 = ''ok'', ck_eof = False,
      ck_kind = ''pcap''\<rparr>
     (reconnect (empty_store\<lparr>as_completed := [7 \<mapsto> CaptureArtifact 7], as_files := [7 \<mapsto> [1, 2, 3]]\<rparr>)))
   = Some CreateFailed"
  by (subst capture_retransfer_fails_after_reconnect [of example_artifact "[1, 2, 3]"])
    (simp_all add: transfer_done_def example_artifact_def empty_store_def agent_limit_def)

end
