(* ===== verification/Byte_Order.thy ===== *)
theory Byte_Order
  imports Rust_Prelude
begin

text \<open>
  Reading and writing fixed-width integers in both byte orders
  (\<open>from_be_bytes\<close>, \<open>from_le_bytes\<close>, \<open>to_be_bytes\<close>, \<open>to_le_bytes\<close>), and the contract a reader
  has with its writer, from which the capture parsers' theorems are proved once for both orders.
\<close>

fun be_value :: "bytes \<Rightarrow> nat" where
  "be_value [] = 0"
| "be_value (b # bs) = unat b * 256 ^ length bs + be_value bs"

definition from_be :: "bytes \<Rightarrow> 'a::len word" where
  "from_be bs = of_nat (be_value bs)"

definition from_le :: "bytes \<Rightarrow> 'a::len word" where
  "from_le bs = from_be (rev bs)"

fun be_digits :: "nat \<Rightarrow> nat \<Rightarrow> bytes" where
  "be_digits 0 n = []"
| "be_digits (Suc k) n = be_digits k (n div 256) @ [of_nat (n mod 256)]"

definition to_be :: "'a::len word \<Rightarrow> bytes" where
  "to_be w = be_digits (LENGTH('a) div 8) (unat w)"

definition to_le :: "'a::len word \<Rightarrow> bytes" where
  "to_le w = rev (to_be w)"

lemma length_be_digits [simp]: "length (be_digits k n) = k"
  by (induction k n rule: be_digits.induct) simp_all

lemma be_value_snoc: "be_value (bs @ [b]) = be_value bs * 256 + unat b"
  by (induction bs) (simp_all add: algebra_simps)

lemma be_value_be_digits: "be_value (be_digits k n) = n mod 256 ^ k"
proof (induction k n rule: be_digits.induct)
  case (2 k n)
  have "unat (of_nat (n mod 256) :: u8) = n mod 256"
    by (simp add: unat_of_nat)
  moreover have "n mod 256 ^ Suc k = 256 * (n div 256 mod 256 ^ k) + n mod 256"
    using mod_mult2_eq [of n 256 "256 ^ k"] by simp
  ultimately show ?case using 2 by (simp add: be_value_snoc)
qed simp

lemma from_be_to_be:
  assumes "LENGTH('a::len) = k * 8"
  shows "from_be (to_be (w :: 'a word)) = w"
proof -
  have e: "(256::nat) ^ k = 2 ^ LENGTH('a)"
    unfolding assms mult.commute [of k] power_mult by simp
  have "unat w < 2 ^ LENGTH('a)" by (rule unsigned_less)
  moreover have "LENGTH('a) div 8 = k" using assms by simp
  ultimately have "unat w mod 256 ^ (LENGTH('a) div 8) = unat w"
    using e by (simp only: mod_less)
  then show ?thesis
    unfolding from_be_def to_be_def be_value_be_digits by simp
qed

section \<open>The contract of a byte order\<close>

locale byte_order =
  fixes rd16 :: "bytes \<Rightarrow> u16" and wr16 :: "u16 \<Rightarrow> bytes"
    and rd32 :: "bytes \<Rightarrow> u32" and wr32 :: "u32 \<Rightarrow> bytes"
  assumes rd16_wr16 [simp]: "rd16 (wr16 h) = h" and len16 [simp]: "length (wr16 h) = 2"
    and rd32_wr32 [simp]: "rd32 (wr32 w) = w" and len32 [simp]: "length (wr32 w) = 4"
begin

lemma read16_at: "n = length pre \<Longrightarrow> rd16 (slice n (n + 2) (pre @ wr16 h @ post)) = h"
  by (simp add: slice_def)

lemma read32_at: "n = length pre \<Longrightarrow> rd32 (slice n (n + 4) (pre @ wr32 w @ post)) = w"
  by (simp add: slice_def)

lemma wr32_inj: "wr32 v = wr32 w \<Longrightarrow> v = w"
  by (metis rd32_wr32)

end

lemma from_be_to_be16 [simp]: "from_be (to_be w) = w" for w :: u16
  by (rule from_be_to_be [of 2]) simp

lemma from_be_to_be32 [simp]: "from_be (to_be w) = w" for w :: u32
  by (rule from_be_to_be [of 4]) simp

lemma length_to_be [simp]: "length (to_be w) = LENGTH('a) div 8" for w :: "'a::len word"
  by (simp add: to_be_def)

interpretation big: byte_order from_be to_be from_be to_be
  by unfold_locales simp_all

interpretation little: byte_order from_le to_le from_le to_le
  by unfold_locales (simp_all add: from_le_def to_le_def)

end
