(* ===== verification/Ordered_Map.thy ===== *)
theory Ordered_Map
  imports Rust_Prelude
begin

text \<open>
  \<open>BTreeMap\<close>: a map whose iteration order is the order of its keys. The interface is what the
  clients rely on; a list of entries kept sorted provides it.
\<close>

text \<open>\<open>entry(k).or_insert(v)\<close>: the first value stored under a key stays.\<close>

definition or_insert :: "('m \<Rightarrow> 'k \<Rightarrow> 'v option) \<Rightarrow> ('k \<Rightarrow> 'v \<Rightarrow> 'm \<Rightarrow> 'm) \<Rightarrow> 'k \<Rightarrow> 'v \<Rightarrow> 'm \<Rightarrow> 'm" where
  "or_insert look put k v m = (case look m k of None \<Rightarrow> put k v m | Some _ \<Rightarrow> m)"

definition or_insert_all :: "('m \<Rightarrow> 'k \<Rightarrow> 'v option) \<Rightarrow> ('k \<Rightarrow> 'v \<Rightarrow> 'm \<Rightarrow> 'm) \<Rightarrow> ('k \<times> 'v) list \<Rightarrow> 'm \<Rightarrow> 'm" where
  "or_insert_all look put xs m = fold (\<lambda>(k, v). or_insert look put k v) xs m"

lemma or_insert_all_simps [simp]:
  "or_insert_all look put [] m = m"
  "or_insert_all look put ((k, v) # xs) m = or_insert_all look put xs (or_insert look put k v m)"
  by (simp_all add: or_insert_all_def)

lemma map_of_keys: "distinct (map fst xs) \<Longrightarrow> map (\<lambda>a. (a, the (map_of xs a))) (map fst xs) = xs"
  unfolding map_map by (rule map_idI) (auto simp: map_of_eq_Some_iff)

section \<open>The interface\<close>

locale ordered_map =
  fixes emp :: 'm
    and get :: "'m \<Rightarrow> 'k::linorder \<Rightarrow> 'v option"
    and ins :: "'k \<Rightarrow> 'v \<Rightarrow> 'm \<Rightarrow> 'm"
    and entries :: "'m \<Rightarrow> ('k \<times> 'v) list"
    and ok :: "'m \<Rightarrow> bool"
  assumes ok_emp [simp]: "ok emp"
    and ok_ins [simp]: "ok m \<Longrightarrow> ok (ins k v m)"
    and get_emp [simp]: "get emp k = None"
    and get_ins: "ok m \<Longrightarrow> get (ins k v m) k' = (if k' = k then Some v else get m k')"
    and entries_sorted: "ok m \<Longrightarrow> sorted_wrt (<) (map fst (entries m))"
    and entries_get: "ok m \<Longrightarrow> map_of (entries m) = get m"
begin

lemma ok_or_insert [simp]: "ok m \<Longrightarrow> ok (or_insert get ins k v m)"
  by (simp add: or_insert_def split: option.split)

lemma ok_or_insert_all [simp]: "ok m \<Longrightarrow> ok (or_insert_all get ins xs m)"
  by (induction xs arbitrary: m) (auto split: prod.splits)

lemma get_or_insert:
  "ok m \<Longrightarrow> get (or_insert get ins k v m) k' = (if k' = k \<and> get m k = None then Some v else get m k')"
  by (auto simp: or_insert_def get_ins split: option.split)

lemma get_or_insert_all:
  "ok m \<Longrightarrow> get (or_insert_all get ins xs m) k = (case get m k of Some v \<Rightarrow> Some v | None \<Rightarrow> map_of xs k)"
proof (induction xs arbitrary: m)
  case Nil
  then show ?case by (simp split: option.split)
next
  case (Cons x xs)
  obtain a b where x: "x = (a, b)" by (cases x)
  then show ?case using Cons.IH [of "or_insert get ins a b m"] Cons.prems
    by (auto simp: get_or_insert x split: option.split)
qed

lemma keys_determined:
  assumes "ok m" and "ok m'" and "dom (get m) = dom (get m')"
  shows "map fst (entries m) = map fst (entries m')"
proof -
  have "set (map fst (entries m)) = set (map fst (entries m'))"
    using assms by (simp add: dom_map_of_conv_image_fst [symmetric] entries_get)
  moreover have "sorted_wrt (<) (map fst (entries m))" "sorted_wrt (<) (map fst (entries m'))"
    using assms by (simp_all add: entries_sorted)
  ultimately show ?thesis by (simp only: strict_sorted_iff sorted_distinct_set_unique)
qed

lemma entries_determined:
  assumes "ok m" and "ok m'" and eq: "get m = get m'"
  shows "entries m = entries m'"
proof -
  have k: "map fst (entries m) = map fst (entries m')"
    using assms by (intro keys_determined) simp_all
  have d: "distinct (map fst (entries m))" and d': "distinct (map fst (entries m'))"
    using assms by (metis entries_sorted strict_sorted_iff)+
  have r: "entries n = map (\<lambda>a. (a, the (get n a))) (map fst (entries n))"
    if "ok n" "distinct (map fst (entries n))" for n
    unfolding entries_get [OF that(1), symmetric] using that(2) by (simp add: map_of_keys del: map_map)
  show ?thesis using r [OF assms(1) d] r [OF assms(2) d'] k eq by simp
qed

end

section \<open>Sorted entries\<close>

type_synonym ('k, 'v) btree = "('k \<times> 'v) list"

fun bt_insert :: "'k::linorder \<Rightarrow> 'v \<Rightarrow> ('k, 'v) btree \<Rightarrow> ('k, 'v) btree" where
  "bt_insert k v [] = [(k, v)]"
| "bt_insert k v ((k', v') # m) =
     (if k < k' then (k, v) # (k', v') # m
      else if k = k' then (k, v) # m
      else (k', v') # bt_insert k v m)"

definition bt_ok :: "('k::linorder, 'v) btree \<Rightarrow> bool" where
  "bt_ok m \<longleftrightarrow> sorted_wrt (<) (map fst m)"

lemma keys_bt_insert: "set (map fst (bt_insert k v m)) = insert k (set (map fst m))"
  by (induction k v m rule: bt_insert.induct) auto

lemma bt_ok_insert: "bt_ok m \<Longrightarrow> bt_ok (bt_insert k v m)"
proof (induction k v m rule: bt_insert.induct)
  case (2 k v k' v' m)
  then show ?case using keys_bt_insert [of k v m] by (force simp: bt_ok_def)
qed (simp add: bt_ok_def)

lemma map_of_bt_insert: "bt_ok m \<Longrightarrow> map_of (bt_insert k v m) = (map_of m)(k \<mapsto> v)"
  by (induction k v m rule: bt_insert.induct) (auto simp: bt_ok_def fun_eq_iff)

interpretation bt: ordered_map "[]" map_of bt_insert "\<lambda>m. m" bt_ok
  by unfold_locales (auto simp: bt_ok_insert map_of_bt_insert, auto simp: bt_ok_def)

end
