(* ===== verification/Packet.thy ===== *)
theory Packet
  imports Byte_Order Ordered_Map
begin

text \<open>
  From captured frames to the table of flows (\<open>crates/capture/src/lib.rs\<close>): Ethernet, IPv4,
  IPv6 and TCP headers, the direction of a packet within its flow, and the segments each
  direction has delivered. The counters of excluded packets are threaded through.
\<close>

section \<open>Data\<close>

record endpoint =
  en_address :: bytes
  en_port :: u16

record flow_key =
  fk_client :: endpoint
  fk_server :: endpoint

datatype direction = ClientToServer | ServerToClient

record replay_turn =
  rt_direction :: direction
  rt_payload :: bytes

record http_transaction =
  ht_request :: bytes
  ht_response :: bytes

record http2_transaction =
  h2t_method :: bytes
  h2t_path :: bytes
  h2t_authority :: bytes
  h2t_status :: bytes
  h2t_request_body :: bytes
  h2t_response_body :: bytes

record reassembled_flow =
  rf_key :: flow_key
  rf_client_to_server :: bytes
  rf_server_to_client :: bytes
  rf_retransmitted_bytes :: u64
  rf_turns :: "replay_turn list"
  rf_http_transactions :: "http_transaction list"
  rf_http2_transactions :: "http2_transaction list"

record exclusions =
  ex_non_tcp_packets :: u64
  ex_fragmented_packets :: u64
  ex_truncated_packets :: u64
  ex_unsupported_link_packets :: u64
  ex_incomplete_flows :: u64
  ex_encrypted_tls_flows :: u64
  ex_non_http_flows :: u64
  ex_unsupported_http_flows :: u64
  ex_http_upgrade_flows :: u64
  ex_unsupported_http2_flows :: u64

definition exclusions_default :: exclusions where
  "exclusions_default = \<lparr>ex_non_tcp_packets = 0, ex_fragmented_packets = 0, ex_truncated_packets = 0,
     ex_unsupported_link_packets = 0, ex_incomplete_flows = 0, ex_encrypted_tls_flows = 0,
     ex_non_http_flows = 0, ex_unsupported_http_flows = 0, ex_http_upgrade_flows = 0,
     ex_unsupported_http2_flows = 0\<rparr>"

type_synonym segment_map = "(u32, bytes) btree"

record segments =
  sg_client :: segment_map
  sg_server :: segment_map
  sg_duplicate_bytes :: u64
  sg_events :: "(direction \<times> u32 \<times> bytes) list"

definition segments_default :: segments where
  "segments_default = \<lparr>sg_client = [], sg_server = [], sg_duplicate_bytes = 0, sg_events = []\<rparr>"

section \<open>Headers\<close>

abbreviation truncated :: "exclusions \<Rightarrow> exclusions" where
  "truncated ex \<equiv> ex\<lparr>ex_truncated_packets := ex_truncated_packets ex + 1\<rparr>"

abbreviation fragmented :: "exclusions \<Rightarrow> exclusions" where
  "fragmented ex \<equiv> ex\<lparr>ex_fragmented_packets := ex_fragmented_packets ex + 1\<rparr>"

abbreviation not_tcp :: "exclusions \<Rightarrow> exclusions" where
  "not_tcp ex \<equiv> ex\<lparr>ex_non_tcp_packets := ex_non_tcp_packets ex + 1\<rparr>"

abbreviation unsupported_link :: "exclusions \<Rightarrow> exclusions" where
  "unsupported_link ex \<equiv> ex\<lparr>ex_unsupported_link_packets := ex_unsupported_link_packets ex + 1\<rparr>"

type_synonym tcp_segment = "u16 \<times> u16 \<times> u32 \<times> bytes"

definition parse_tcp :: "bytes \<Rightarrow> exclusions \<Rightarrow> exclusions \<times> tcp_segment option" where
  "parse_tcp segment ex =
     (if length segment < 20 then (truncated ex, None)
      else
        let header = unat (drop_bit 4 (segment ! 12)) * 4
        in if header < 20 \<or> length segment < header then (truncated ex, None)
           else (ex, Some (from_be [segment ! 0, segment ! 1], from_be [segment ! 2, segment ! 3],
                           from_be (slice 4 8 segment), drop header segment)))"

type_synonym parsed_packet = "bytes \<times> bytes \<times> tcp_segment"

definition parse_ipv4_packet :: "bytes \<Rightarrow> exclusions \<Rightarrow> exclusions \<times> parsed_packet option" where
  "parse_ipv4_packet packet ex =
     (if length packet < 20 then (truncated ex, None)
      else
        let header = unat (and (packet ! 0) 0x0f) * 4
        in if header < 20 \<or> length packet < header then (truncated ex, None)
           else if and (from_be [packet ! 6, packet ! 7]) (0x3fff :: u16) \<noteq> 0 then (fragmented ex, None)
           else if packet ! 9 \<noteq> 6 then (not_tcp ex, None)
           else
             let source = replicate 12 0 @ slice 12 16 packet;
                 destination = replicate 12 0 @ slice 16 20 packet;
                 (ex', tcp) = parse_tcp (drop header packet) ex
             in (ex', map_option (\<lambda>tcp. (source, destination, tcp)) tcp))"

definition parse_ipv6_packet :: "bytes \<Rightarrow> exclusions \<Rightarrow> exclusions \<times> parsed_packet option" where
  "parse_ipv6_packet packet ex =
     (if length packet < 40 then (truncated ex, None)
      else if packet ! 6 \<noteq> 6 then (not_tcp ex, None)
      else
        let source = slice 8 24 packet;
            destination = slice 24 40 packet;
            (ex', tcp) = parse_tcp (drop 40 packet) ex
        in (ex', map_option (\<lambda>tcp. (source, destination, tcp)) tcp))"

section \<open>The flow table\<close>

record flow_table =
  ft_order :: "flow_key list"
  ft_flows :: "flow_key \<Rightarrow> segments option"
  ft_excluded :: exclusions

definition flow_table_empty :: flow_table where
  "flow_table_empty = \<lparr>ft_order = [], ft_flows = Map.empty, ft_excluded = exclusions_default\<rparr>"

definition reverse_key :: "flow_key \<Rightarrow> flow_key" where
  "reverse_key k = \<lparr>fk_client = fk_server k, fk_server = fk_client k\<rparr>"

text \<open>The flow a packet belongs to, and whether its client sent it; a new flow is registered.\<close>

definition select_flow :: "flow_key \<Rightarrow> flow_table \<Rightarrow> flow_table \<times> flow_key \<times> bool" where
  "select_flow direct t =
     (if ft_flows t direct \<noteq> None then (t, direct, True)
      else if ft_flows t (reverse_key direct) \<noteq> None then (t, reverse_key direct, False)
      else (t\<lparr>ft_order := ft_order t @ [direct], ft_flows := (ft_flows t)(direct \<mapsto> segments_default)\<rparr>,
            direct, True))"

text \<open>The payload of a packet enters the events and, unless its sequence number is taken, the segments.\<close>

definition record_segment :: "bool \<Rightarrow> u32 \<Rightarrow> bytes \<Rightarrow> segments \<Rightarrow> segments" where
  "record_segment from_client sequence payload s =
     (let s = s\<lparr>sg_events := sg_events s
                @ [(if from_client then ClientToServer else ServerToClient, sequence, payload)]\<rparr>;
          target = (if from_client then sg_client s else sg_server s)
      in case map_of target sequence of
           Some existing \<Rightarrow>
             s\<lparr>sg_duplicate_bytes := sg_duplicate_bytes s + of_nat (min (length existing) (length payload))\<rparr>
         | None \<Rightarrow>
             if from_client then s\<lparr>sg_client := bt_insert sequence payload (sg_client s)\<rparr>
             else s\<lparr>sg_server := bt_insert sequence payload (sg_server s)\<rparr>)"

definition add_packet :: "parsed_packet \<Rightarrow> flow_table \<Rightarrow> flow_table" where
  "add_packet p t =
     (let (src, dst, sport, dport, sequence, payload) = p;
          direct = \<lparr>fk_client = \<lparr>en_address = src, en_port = sport\<rparr>,
                    fk_server = \<lparr>en_address = dst, en_port = dport\<rparr>\<rparr>;
          (t, key, from_client) = select_flow direct t
      in if payload = [] then t
         else t\<lparr>ft_flows := (ft_flows t)(key \<mapsto>
                record_segment from_client sequence payload (the (ft_flows t key)))\<rparr>)"

definition parse_ethernet :: "bytes \<Rightarrow> flow_table \<Rightarrow> flow_table" where
  "parse_ethernet frame t =
     (if length frame < 14 then t\<lparr>ft_excluded := truncated (ft_excluded t)\<rparr>
      else
        let ether_type = from_be [frame ! 12, frame ! 13] :: u16
        in if ether_type = 0x0800 \<or> ether_type = 0x86dd then
             let (ex, packet) = (if ether_type = 0x0800 then parse_ipv4_packet (drop 14 frame) (ft_excluded t)
                                 else parse_ipv6_packet (drop 14 frame) (ft_excluded t));
                 t = t\<lparr>ft_excluded := ex\<rparr>
             in case packet of None \<Rightarrow> t | Some p \<Rightarrow> add_packet p t
           else t\<lparr>ft_excluded := unsupported_link (ft_excluded t)\<rparr>)"

section \<open>The invariant of the flow table\<close>

text \<open>
  The order lists each flow once and exactly the flows of the table, a flow and its reverse are
  never both in the table, and the segments of a flow are what the events in its direction left,
  the first event of a sequence number winning.
\<close>

definition events_of :: "direction \<Rightarrow> (direction \<times> u32 \<times> bytes) list \<Rightarrow> (u32 \<times> bytes) list" where
  "events_of d evs = map snd (filter (\<lambda>e. fst e = d) evs)"

definition segments_inv :: "segments \<Rightarrow> bool" where
  "segments_inv s \<longleftrightarrow>
     sg_client s = or_insert_all map_of bt_insert (events_of ClientToServer (sg_events s)) []
   \<and> sg_server s = or_insert_all map_of bt_insert (events_of ServerToClient (sg_events s)) []
   \<and> (\<forall>e\<in>set (sg_events s). snd (snd e) \<noteq> [])"

definition flow_counters_zero :: "exclusions \<Rightarrow> bool" where
  "flow_counters_zero ex \<longleftrightarrow> ex_incomplete_flows ex = 0 \<and> ex_encrypted_tls_flows ex = 0"

definition flow_table_inv :: "flow_table \<Rightarrow> bool" where
  "flow_table_inv t \<longleftrightarrow>
     distinct (ft_order t) \<and> set (ft_order t) = dom (ft_flows t)
   \<and> (\<forall>k. k \<in> dom (ft_flows t) \<longrightarrow> reverse_key k \<in> dom (ft_flows t) \<longrightarrow> reverse_key k = k)
   \<and> (\<forall>k s. ft_flows t k = Some s \<longrightarrow> segments_inv s)
   \<and> flow_counters_zero (ft_excluded t)"

lemma reverse_key_reverse [simp]: "reverse_key (reverse_key k) = k"
  by (simp add: reverse_key_def)

lemma reverse_key_eq: "reverse_key k = j \<longleftrightarrow> k = reverse_key j"
  by auto

lemma segments_inv_default [simp]: "segments_inv segments_default"
  by (simp add: segments_inv_def segments_default_def events_of_def)

lemma or_insert_all_append:
  "or_insert_all look put (xs @ ys) m = or_insert_all look put ys (or_insert_all look put xs m)"
  by (simp add: or_insert_all_def)

lemma events_of_append [simp]: "events_of d (xs @ ys) = events_of d xs @ events_of d ys"
  by (simp add: events_of_def)

lemma events_of_one [simp]: "events_of d [(d', e)] = (if d' = d then [e] else [])"
  by (simp add: events_of_def)

lemma record_segment_inv: "segments_inv s \<Longrightarrow> payload \<noteq> [] \<Longrightarrow> segments_inv (record_segment c sequence payload s)"
  by (auto simp: segments_inv_def record_segment_def or_insert_all_append or_insert_def Let_def split: option.split)

lemma select_flow_inv:
  assumes "flow_table_inv t" and "select_flow direct t = (t', key, c)"
  shows "flow_table_inv t'" and "key \<in> dom (ft_flows t')" and "key = (if c then direct else reverse_key direct)"
    and "ft_excluded t' = ft_excluded t"
  using assms
  by (auto simp: select_flow_def flow_table_inv_def reverse_key_eq dom_def split: if_splits)

lemma flow_table_inv_update:
  assumes "flow_table_inv t" and "key \<in> dom (ft_flows t)" and "segments_inv s"
  shows "flow_table_inv (t\<lparr>ft_flows := (ft_flows t)(key \<mapsto> s)\<rparr>)"
  using assms by (auto simp: flow_table_inv_def insert_absorb)

lemma add_packet_inv: "flow_table_inv t \<Longrightarrow> flow_table_inv (add_packet p t)"
proof -
  assume inv: "flow_table_inv t"
  obtain src dst sport dport sq payload where p: "p = (src, dst, sport, dport, sq, payload)"
    by (metis prod_cases6)
  let ?d = "\<lparr>fk_client = \<lparr>en_address = src, en_port = sport\<rparr>, fk_server = \<lparr>en_address = dst, en_port = dport\<rparr>\<rparr>"
  obtain t' key c where s: "select_flow ?d t = (t', key, c)" by (cases "select_flow ?d t")
  from select_flow_inv [OF inv s] have i: "flow_table_inv t'" and k: "key \<in> dom (ft_flows t')" by simp_all
  from k obtain sg where sg: "ft_flows t' key = Some sg" by blast
  with i have "segments_inv sg" by (simp add: flow_table_inv_def)
  with i k sg show ?thesis
    by (simp add: add_packet_def p s flow_table_inv_update record_segment_inv)
qed

lemma flow_table_inv_excluded:
  "flow_table_inv t \<Longrightarrow> flow_counters_zero ex \<Longrightarrow> flow_table_inv (t\<lparr>ft_excluded := ex\<rparr>)"
  by (simp add: flow_table_inv_def)

lemma flow_counters_packets [simp]:
  "flow_counters_zero (truncated ex) = flow_counters_zero ex"
  "flow_counters_zero (fragmented ex) = flow_counters_zero ex"
  "flow_counters_zero (not_tcp ex) = flow_counters_zero ex"
  "flow_counters_zero (unsupported_link ex) = flow_counters_zero ex"
  by (simp_all add: flow_counters_zero_def)

lemma parse_tcp_counters: "flow_counters_zero (fst (parse_tcp segment ex)) = flow_counters_zero ex"
  by (simp add: parse_tcp_def Let_def)

lemma parse_ip_counters:
  "flow_counters_zero (fst (parse_ipv4_packet packet ex)) = flow_counters_zero ex"
  "flow_counters_zero (fst (parse_ipv6_packet packet ex)) = flow_counters_zero ex"
  using parse_tcp_counters
  by (simp_all add: parse_ipv4_packet_def parse_ipv6_packet_def Let_def split: prod.split) (metis fst_conv)+

lemma parse_ethernet_inv: "flow_table_inv t \<Longrightarrow> flow_table_inv (parse_ethernet frame t)"
proof -
  assume inv: "flow_table_inv t"
  then have z: "flow_counters_zero (ft_excluded t)" by (simp add: flow_table_inv_def)
  have "flow_table_inv (case packet of None \<Rightarrow> t\<lparr>ft_excluded := ex\<rparr> | Some p \<Rightarrow> add_packet p (t\<lparr>ft_excluded := ex\<rparr>))"
    if "flow_counters_zero ex" for ex packet
    using flow_table_inv_excluded [OF inv that] by (simp add: add_packet_inv split: option.split)
  then show ?thesis
    using z inv parse_ip_counters [of "drop 14 frame" "ft_excluded t"]
    by (auto simp: parse_ethernet_def Let_def flow_table_inv_excluded split: prod.split)
qed

lemma flow_table_inv_empty [simp]: "flow_table_inv flow_table_empty"
  by (simp add: flow_table_inv_def flow_table_empty_def flow_counters_zero_def exclusions_default_def)

section \<open>Property\<close>


end
