(* ===== verification/Reassembly.thy ===== *)
theory Reassembly
  imports Packet
begin

text \<open>
  Reassembly of a direction's segments into its byte stream, and the turns of a conversation
  (\<open>reassemble\<close> and \<open>build_turns\<close> in \<open>crates/capture/src/lib.rs\<close>).
\<close>

section \<open>The operations\<close>

fun reassemble_loop :: "segment_map \<Rightarrow> u32 \<Rightarrow> bytes \<Rightarrow> u64 \<Rightarrow> bool \<Rightarrow> bytes \<times> u64 \<times> bool" where
  "reassemble_loop [] nxt out dup gap = (out, dup, gap)"
| "reassemble_loop ((sequence, payload) # segs) nxt out dup gap =
     (let gap' = (gap \<or> nxt < sequence);
          nxt' = (if nxt < sequence then sequence else nxt);
          overlap = unat (sat_sub nxt' sequence);
          dup' = dup + of_nat (min overlap (length payload))
      in if overlap < length payload
         then reassemble_loop segs (sequence + of_nat (length payload)) (out @ drop overlap payload) dup' gap'
         else reassemble_loop segs nxt' out dup' gap')"

definition reassemble :: "segment_map \<Rightarrow> bytes \<times> u64 \<times> bool" where
  "reassemble segs =
     (case segs of [] \<Rightarrow> ([], 0, False) | (first, _) # _ \<Rightarrow> reassemble_loop segs first [] 0 False)"

type_synonym turn_group = "direction \<times> segment_map"

definition add_turn_event :: "direction \<times> u32 \<times> bytes \<Rightarrow> turn_group list \<Rightarrow> turn_group list" where
  "add_turn_event e groups =
     (let (d, sequence, payload) = e
      in if payload = [] then groups
         else
           let groups = (if groups = [] \<or> fst (last groups) \<noteq> d then groups @ [(d, [])] else groups)
           in butlast groups @ [(fst (last groups),
                or_insert map_of bt_insert sequence payload (snd (last groups)))])"

definition group_turn :: "turn_group \<Rightarrow> replay_turn option" where
  "group_turn g =
     (let (payload, _, gap) = reassemble (snd g)
      in if payload \<noteq> [] \<and> \<not> gap then Some \<lparr>rt_direction = fst g, rt_payload = payload\<rparr> else None)"

definition build_turns :: "(direction \<times> u32 \<times> bytes) list \<Rightarrow> replay_turn list" where
  "build_turns events = List.map_filter group_turn (fold add_turn_event events [])"

section \<open>Conservation\<close>

definition payload_total :: "segment_map \<Rightarrow> nat" where
  "payload_total segs = sum_list (map (length \<circ> snd) segs)"

lemma payload_total_simps [simp]:
  "payload_total [] = 0" "payload_total ((q, p) # segs) = length p + payload_total segs"
  by (simp_all add: payload_total_def)

lemma reassemble_loop_conserves:
  "reassemble_loop segs nxt out dup gap = (out', dup', gap') \<Longrightarrow>
     of_nat (length out') + dup' = of_nat (length out + payload_total segs) + dup
   \<and> length out' \<le> length out + payload_total segs"
proof (induction segs nxt out dup gap rule: reassemble_loop.induct)
  case (2 sequence payload segs nxt out dup gap)
  let ?n = "if nxt < sequence then sequence else nxt"
  let ?o = "unat (sat_sub ?n sequence)"
  show ?case
  proof (cases "?o < length payload")
    case True
    have "reassemble_loop segs (sequence + of_nat (length payload)) (out @ drop ?o payload)
        (dup + of_nat (min ?o (length payload))) (gap \<or> nxt < sequence) = (out', dup', gap')"
      using "2.prems" True by (simp add: Let_def)
    from "2.IH"(1) [OF refl refl refl refl True this]
    show ?thesis using True by (auto simp: of_nat_diff algebra_simps)
  next
    case False
    have "reassemble_loop segs ?n out (dup + of_nat (min ?o (length payload))) (gap \<or> nxt < sequence)
        = (out', dup', gap')"
      using "2.prems" False by (simp add: Let_def)
    from "2.IH"(2) [OF refl refl refl refl False this]
    show ?thesis using False by (simp add: min_def algebra_simps)
  qed
qed simp

lemma reassemble_conserves:
  "reassemble segs = (out, dup, gap) \<Longrightarrow>
     of_nat (length out) + dup = of_nat (payload_total segs) \<and> length out \<le> payload_total segs"
proof (cases segs)
  case (Cons e rest)
  assume "reassemble segs = (out, dup, gap)"
  then have "reassemble_loop segs (fst e) [] 0 False = (out, dup, gap)"
    using Cons by (cases e) (simp add: reassemble_def del: reassemble_loop.simps)
  from reassemble_loop_conserves [OF this] show ?thesis by simp
qed (simp add: reassemble_def)

section \<open>Segments of a stream\<close>

text \<open>
  \<open>segments_of isn s segs\<close>: every segment is a non-empty piece of the stream \<open>s\<close> whose first byte
  has sequence number \<open>isn\<close>, and the stream does not cross the end of the sequence space.
\<close>

definition segment_of :: "u32 \<Rightarrow> bytes \<Rightarrow> u32 \<times> bytes \<Rightarrow> bool" where
  "segment_of isn s e \<longleftrightarrow>
     (case e of (q, p) \<Rightarrow>
        p \<noteq> [] \<and> unat isn \<le> unat q \<and> unat q + length p \<le> unat isn + length s
      \<and> p = slice (unat q - unat isn) (unat q - unat isn + length p) s)"

definition segments_of :: "u32 \<Rightarrow> bytes \<Rightarrow> (u32 \<times> bytes) list \<Rightarrow> bool" where
  "segments_of isn s segs \<longleftrightarrow> unat isn + length s < 2 ^ 32 \<and> (\<forall>e\<in>set segs. segment_of isn s e)"

definition hits :: "(u32 \<times> bytes) list \<Rightarrow> nat \<Rightarrow> bool" where
  "hits segs x \<longleftrightarrow> (\<exists>e\<in>set segs. unat (fst e) \<le> x \<and> x < unat (fst e) + length (snd e))"

definition covered :: "u32 \<Rightarrow> (u32 \<times> bytes) list \<Rightarrow> nat \<Rightarrow> bool" where
  "covered isn segs i \<longleftrightarrow> hits segs (unat isn + i)"

lemma hits_Cons [simp]:
  "hits ((q, p) # segs) x \<longleftrightarrow> unat q \<le> x \<and> x < unat q + length p \<or> hits segs x"
  by (simp add: hits_def)

lemma hits_Nil [simp]: "\<not> hits [] x"
  by (simp add: hits_def)

text \<open>Walking the sorted segments: each starts at or before the end reached so far.\<close>

fun chain_end :: "nat \<Rightarrow> (u32 \<times> bytes) list \<Rightarrow> nat option" where
  "chain_end n [] = Some n"
| "chain_end n ((q, p) # segs) = (if unat q \<le> n then chain_end (max n (unat q + length p)) segs else None)"

lemma reassemble_loop_gap: "snd (snd (reassemble_loop segs nxt out dup True))"
  by (induction segs nxt out dup "True" rule: reassemble_loop.induct) (simp_all add: Let_def)

lemma reassemble_loop_chain:
  assumes "segments_of isn s segs" and "unat nxt = unat isn + n" and "a \<le> n" and "n \<le> length s"
    and "out = slice a n s"
  shows "case chain_end (unat nxt) segs of
      None \<Rightarrow> snd (snd (reassemble_loop segs nxt out dup False))
    | Some m \<Rightarrow> \<exists>d. reassemble_loop segs nxt out dup False = (slice a (m - unat isn) s, d, False)"
  using assms
proof (induction segs arbitrary: nxt n out dup)
  case Nil
  then show ?case by simp
next
  case (Cons e segs)
  obtain q p where e: "e = (q, p)" by (cases e)
  from Cons.prems(1) have seg: "segment_of isn s (q, p)" and rest: "segments_of isn s segs"
    and bound: "unat isn + length s < 2 ^ 32" by (simp_all add: segments_of_def e)
  show ?case
  proof (cases "unat q \<le> unat nxt")
    case False
    then have "nxt < q" by (simp add: word_less_nat_alt)
    then show ?thesis using False reassemble_loop_gap by (simp add: e Let_def)
  next
    case True
    then have nq: "\<not> nxt < q" by (simp add: word_less_nat_alt)
    have o: "unat (sat_sub nxt q) = unat nxt - unat q" by (rule unat_sat_sub)
    show ?thesis
    proof (cases "unat nxt - unat q < length p")
      case False
      then have "unat q + length p \<le> unat nxt" using True by linarith
      then have c: "chain_end (unat nxt) (e # segs) = chain_end (unat nxt) segs"
        using True by (simp add: e max.absorb1)
      have "reassemble_loop (e # segs) nxt out dup False
          = reassemble_loop segs nxt out (dup + of_nat (min (unat nxt - unat q) (length p))) False"
        using nq False by (simp add: e Let_def o)
      then show ?thesis unfolding c using Cons.IH [OF rest Cons.prems(2-5)] by (simp only:)
    next
      case lt: True
      define m where "m = unat q - unat isn + length p"
      have qi: "unat isn \<le> unat q" and fits: "unat q + length p \<le> unat isn + length s"
        and p: "p = slice (unat q - unat isn) (unat q - unat isn + length p) s"
        using seg unfolding segment_of_def prod.case by blast+
      have len: "unat (of_nat (length p) :: u32) = length p"
        using fits bound by (simp add: unat_of_nat)
      have next': "unat (q + of_nat (length p)) = unat q + length p"
        using fits bound len by (subst unat_add_no_wrap) simp_all
      have nm: "n \<le> m" "m \<le> length s" using lt True qi fits Cons.prems(2) by (simp_all add: m_def)
      have mq: "unat q + length p = unat isn + m" using qi by (simp add: m_def)
      have "drop (unat nxt - unat q) p = slice n m s"
      proof -
        have "drop (unat nxt - unat q) p = drop (unat nxt - unat q) (slice (unat q - unat isn) m s)"
          by (subst p) (simp add: m_def)
        also have "\<dots> = slice n m s"
          using True qi Cons.prems(2) by (simp add: slice_def drop_take m_def add.commute)
        finally show ?thesis .
      qed
      then have out': "out @ drop (unat nxt - unat q) p = slice a m s"
        using Cons.prems(5,3) nm(1) by (simp add: slice_append_slice)
      have mx: "max (unat nxt) (unat q + length p) = unat q + length p" using lt True by simp
      have "case chain_end (unat (q + of_nat (length p))) segs of
          None \<Rightarrow> snd (snd (reassemble_loop segs (q + of_nat (length p)) (slice a m s) d False))
        | Some m' \<Rightarrow> \<exists>d'. reassemble_loop segs (q + of_nat (length p)) (slice a m s) d False
            = (slice a (m' - unat isn) s, d', False)" for d
        using Cons.prems(3) nm mq next' by (intro Cons.IH [OF rest, of _ m]) simp_all
      moreover have "chain_end (unat nxt) (e # segs) = chain_end (unat (q + of_nat (length p))) segs"
        using True mx next' by (simp add: e)
      moreover have "reassemble_loop (e # segs) nxt out dup False
          = reassemble_loop segs (q + of_nat (length p)) (slice a m s)
              (dup + of_nat (min (unat nxt - unat q) (length p))) False"
        using nq lt out' by (simp add: e Let_def o)
      ultimately show ?thesis by (simp only:)
    qed
  qed
qed

lemma chain_end_bounds: "chain_end n segs = Some m \<Longrightarrow> n \<le> m \<and> (hits segs x \<longrightarrow> x < m)"
proof (induction n segs rule: chain_end.induct)
  case (2 n q p segs)
  then have "unat q \<le> n" "max n (unat q + length p) \<le> m \<and> (hits segs x \<longrightarrow> x < m)"
    by (auto split: if_splits)
  then show ?case by auto
qed simp

lemma chain_end_hits: "chain_end n segs = Some m \<Longrightarrow> n \<le> x \<Longrightarrow> x < m \<Longrightarrow> hits segs x"
proof (induction n segs rule: chain_end.induct)
  case (2 n q p segs)
  then show ?case
    by (cases "x < unat q + length p") (auto split: if_splits)
qed simp

lemma hits_above: "\<forall>e\<in>set segs. a < unat (fst e) \<Longrightarrow> hits segs x \<Longrightarrow> a < x"
  unfolding hits_def by fastforce

lemma chain_end_None:
  assumes "chain_end n segs = None" and "sorted_wrt (<) (map fst segs)" and "\<forall>e\<in>set segs. snd e \<noteq> []"
  shows "\<exists>x y. n \<le> x \<and> x < y \<and> hits segs y \<and> \<not> hits segs x"
  using assms
proof (induction n segs rule: chain_end.induct)
  case (2 n q p segs)
  show ?case
  proof (cases "unat q \<le> n")
    case True
    with 2 obtain x y where x: "max n (unat q + length p) \<le> x" "x < y" "hits segs y" "\<not> hits segs x"
      by auto
    then show ?thesis by (intro exI [of _ x] exI [of _ y]) auto
  next
    case False
    have "\<forall>e\<in>set segs. n < unat (fst e)"
      using "2.prems"(2) False by (force simp: word_less_nat_alt)
    from hits_above [OF this] have "\<not> hits segs n" by blast
    then show ?thesis
      using False "2.prems"(3) by (intro exI [of _ n] exI [of _ "unat q"]) simp
  qed
qed simp

text \<open>A gap is reported exactly when a position between two covered ones is not covered.\<close>

lemma reassemble_chain:
  assumes "segments_of isn s segs" and "segs = (f, p) # rest"
  shows "case chain_end (unat f) segs of
      None \<Rightarrow> snd (snd (reassemble segs))
    | Some m \<Rightarrow> \<exists>d. reassemble segs = (slice (unat f - unat isn) (m - unat isn) s, d, False)"
proof -
  have f: "unat isn \<le> unat f" "unat f + length p \<le> unat isn + length s"
    using assms by (auto simp: segments_of_def segment_of_def)
  have "unat f = unat isn + (unat f - unat isn)" using f by simp
  moreover have "unat f - unat isn \<le> length s" using f by linarith
  moreover have "[] = slice (unat f - unat isn) (unat f - unat isn) s" by (simp add: slice_def)
  ultimately have "case chain_end (unat f) segs of
      None \<Rightarrow> snd (snd (reassemble_loop segs f [] 0 False))
    | Some m \<Rightarrow> \<exists>d. reassemble_loop segs f [] 0 False = (slice (unat f - unat isn) (m - unat isn) s, d, False)"
    by (intro reassemble_loop_chain [OF assms(1)]) simp_all
  moreover have "reassemble segs = reassemble_loop segs f [] 0 False"
    unfolding reassemble_def assms(2) by (simp del: reassemble_loop.simps)
  ultimately show ?thesis by (simp only:)
qed

lemma reassemble_gap_iff:
  assumes "segments_of isn s segs" and "bt_ok segs"
  shows "snd (snd (reassemble segs)) \<longleftrightarrow>
    (\<exists>i j k. i < j \<and> j < k \<and> covered isn segs i \<and> \<not> covered isn segs j \<and> covered isn segs k)"
proof (cases segs)
  case Nil
  then show ?thesis by (simp add: reassemble_def covered_def)
next
  case (Cons e rest)
  obtain f p where e: "e = (f, p)" by (cases e)
  note segs = Cons [unfolded e]
  have ne: "\<forall>e\<in>set segs. snd e \<noteq> []" and lo: "unat isn \<le> unat f"
    using assms(1) segs by (auto simp: segments_of_def segment_of_def)
  have srt: "sorted_wrt (<) (map fst segs)" using assms(2) by (simp add: bt_ok_def)
  have first: "unat f \<le> x" if "hits segs x" for x
    using that srt unfolding segs hits_def by (force simp: word_less_nat_alt)
  have f: "hits segs (unat f)" using ne by (simp add: segs)
  note chain = reassemble_chain [OF assms(1) segs]
  show ?thesis
  proof (cases "chain_end (unat f) segs")
    case (Some m)
    have "hits segs j" if "i < j" "j < k" "hits segs i" "hits segs k" for i j k
      using chain_end_hits [OF Some, of j] chain_end_bounds [OF Some, of k] first [OF that(3)] that by simp
    then have "covered isn segs j" if "i < j" "j < k" "covered isn segs i" "covered isn segs k" for i j k
      using that unfolding covered_def by (meson nat_add_left_cancel_less)
    moreover have "\<not> snd (snd (reassemble segs))" using chain Some by auto
    ultimately show ?thesis by blast
  next
    case None
    from chain_end_None [OF None srt ne] obtain x y
      where x: "unat f \<le> x" "x < y" "hits segs y" "\<not> hits segs x" by blast
    have "x \<noteq> unat f" using x(4) f by blast
    then have "unat f - unat isn < x - unat isn" "x - unat isn < y - unat isn"
      using x(1,2) lo by linarith+
    moreover have "covered isn segs (unat f - unat isn)" "\<not> covered isn segs (x - unat isn)"
      "covered isn segs (y - unat isn)"
      using f x lo by (simp_all add: covered_def)
    moreover have "snd (snd (reassemble segs))" using chain None by simp
    ultimately show ?thesis by blast
  qed
qed

lemma segments_hits_bound: "segments_of isn s segs \<Longrightarrow> hits segs x \<Longrightarrow> x < unat isn + length s"
  unfolding segments_of_def segment_of_def hits_def by fastforce

lemma reassemble_covering:
  assumes "segments_of isn s segs" and "bt_ok segs" and "s \<noteq> []" and "\<forall>i<length s. covered isn segs i"
  shows "reassemble segs = (s, of_nat (payload_total segs) - of_nat (length s), False)"
proof -
  have c0: "hits segs (unat isn)" using assms(3,4) unfolding covered_def by force
  then obtain f p rest where segs: "segs = (f, p) # rest" by (cases segs) auto
  have srt: "sorted_wrt (<) (map fst segs)" using assms(2) by (simp add: bt_ok_def)
  have "unat f \<le> unat isn"
    using c0 srt unfolding segs hits_def by (force simp: word_less_nat_alt)
  moreover have "unat isn \<le> unat f" using assms(1) segs by (auto simp: segments_of_def segment_of_def)
  ultimately have f: "unat f = unat isn" by simp
  have "covered isn segs j" if "j < k" "covered isn segs k" for j k
    using segments_hits_bound [OF assms(1), of "unat isn + k"] that assms(4) by (simp add: covered_def)
  then have "\<not> snd (snd (reassemble segs))" using reassemble_gap_iff [OF assms(1,2)] by blast
  with reassemble_chain [OF assms(1) segs] obtain m d
    where m: "chain_end (unat f) segs = Some m" "reassemble segs = (slice 0 (m - unat isn) s, d, False)"
    by (auto simp: f split: option.splits)
  have "hits segs (unat isn + (length s - 1))" using assms(3,4) unfolding covered_def by force
  then have "unat isn + (length s - 1) < m" using chain_end_bounds [OF m(1)] by blast
  then have "length s \<le> m - unat isn" using assms(3) by (cases s) auto
  then have r: "reassemble segs = (s, d, False)" using m(2) by (simp add: slice_def)
  from reassemble_conserves [OF r] have "d = of_nat (payload_total segs) - of_nat (length s)"
    by (simp add: algebra_simps)
  with r show ?thesis by simp
qed

section \<open>Arrival order\<close>

text \<open>
  \<open>delivers isn s es\<close>: the arrivals \<open>es\<close>, in whatever order and with whatever repetitions, are
  pieces of \<open>s\<close> that cover it, and a repeated sequence number repeats its payload.
\<close>

definition repeats_agree :: "(u32 \<times> bytes) list \<Rightarrow> bool" where
  "repeats_agree es \<longleftrightarrow> (\<forall>e\<in>set es. \<forall>e'\<in>set es. fst e = fst e' \<longrightarrow> snd e = snd e')"

definition delivers :: "u32 \<Rightarrow> bytes \<Rightarrow> (u32 \<times> bytes) list \<Rightarrow> bool" where
  "delivers isn s es \<longleftrightarrow> s \<noteq> [] \<and> segments_of isn s es \<and> (\<forall>i<length s. covered isn es i)
     \<and> repeats_agree es"

abbreviation arrived :: "(u32 \<times> bytes) list \<Rightarrow> segment_map" where
  "arrived es \<equiv> or_insert_all map_of bt_insert es []"

lemma bt_ok_arrived: "bt_ok (arrived es)"
  by (rule bt.ok_or_insert_all) (simp add: bt_ok_def)

lemma map_of_arrived: "map_of (arrived es) = map_of es"
  by (rule ext) (simp add: bt.get_or_insert_all bt_ok_def)

lemma set_arrived:
  assumes "repeats_agree es"
  shows "set (arrived es) = set es"
proof -
  have "distinct (map fst (arrived es))"
    using bt_ok_arrived [of es] by (simp add: bt_ok_def strict_sorted_iff)
  then have "(q, p) \<in> set (arrived es) \<longleftrightarrow> map_of es q = Some p" for q p
    unfolding map_of_arrived [of es, symmetric] by (rule map_of_eq_Some_iff [symmetric])
  moreover have "map_of es q = Some p \<longleftrightarrow> (q, p) \<in> set es" for q p
  proof
    assume "(q, p) \<in> set es"
    then obtain p' where "map_of es q = Some p'"
      by (metis domIff fst_conv image_eqI dom_map_of_conv_image_fst option.exhaust)
    moreover from this have "(q, p') \<in> set es" by (rule map_of_SomeD)
    then have "p' = p" using assms \<open>(q, p) \<in> set es\<close> unfolding repeats_agree_def by (metis fst_conv snd_conv)
    ultimately show "map_of es q = Some p" by simp
  qed (rule map_of_SomeD)
  ultimately have eq: "(q, p) \<in> set (arrived es) \<longleftrightarrow> (q, p) \<in> set es" for q p by (simp only:)
  show ?thesis
  proof (rule set_eqI)
    show "e \<in> set (arrived es) \<longleftrightarrow> e \<in> set es" for e by (cases e) (simp only: eq)
  qed
qed

lemma reassemble_delivered:
  assumes "delivers isn s es"
  shows "reassemble (arrived es) = (s, of_nat (payload_total (arrived es)) - of_nat (length s), False)"
proof (rule reassemble_covering)
  have same: "set (arrived es) = set es"
    by (rule set_arrived) (use assms in \<open>simp add: delivers_def\<close>)
  have d: "s \<noteq> []" "segments_of isn s es" "\<forall>i<length s. covered isn es i"
    using assms by (simp_all add: delivers_def)
  show "segments_of isn s (arrived es)" using d(2) unfolding segments_of_def same .
  show "\<forall>i<length s. covered isn (arrived es) i" using d(3) unfolding covered_def hits_def same .
  show "bt_ok (arrived es)" by (rule bt_ok_arrived)
  show "s \<noteq> []" by (rule d(1))
qed

section \<open>Turns\<close>

type_synonym round = "direction \<times> (u32 \<times> bytes) list"

definition round_events :: "round \<Rightarrow> (direction \<times> u32 \<times> bytes) list" where
  "round_events r = map (Pair (fst r)) (snd r)"

lemma add_turn_events_same:
  "\<forall>e\<in>set es. snd e \<noteq> [] \<Longrightarrow>
     fold add_turn_event (map (Pair d) es) (gs @ [(d, m)]) = gs @ [(d, or_insert_all map_of bt_insert es m)]"
  by (induction es arbitrary: m) (auto simp: add_turn_event_def Let_def)

lemma add_turn_events_new:
  assumes "\<forall>e\<in>set es. snd e \<noteq> []" and "es \<noteq> []" and "gs = [] \<or> fst (last gs) \<noteq> d"
  shows "fold add_turn_event (map (Pair d) es) gs = gs @ [(d, arrived es)]"
proof -
  obtain q p es' where es: "es = (q, p) # es'" using assms(2) by (metis list.exhaust surj_pair)
  have "add_turn_event (d, q, p) gs = gs @ [(d, or_insert map_of bt_insert q p [])]"
    using assms(1,3) by (simp add: es add_turn_event_def Let_def)
  then show ?thesis using assms(1) add_turn_events_same [of es' d gs] by (simp add: es)
qed

lemma add_turn_rounds:
  "successively (\<lambda>r r'. fst r \<noteq> fst r') rounds \<Longrightarrow> \<forall>r\<in>set rounds. snd r \<noteq> [] \<and> (\<forall>e\<in>set (snd r). snd e \<noteq> [])
   \<Longrightarrow> gs = [] \<or> rounds = [] \<or> fst (last gs) \<noteq> fst (hd rounds)
   \<Longrightarrow> fold add_turn_event (concat (map round_events rounds)) gs
        = gs @ map (\<lambda>r. (fst r, arrived (snd r))) rounds"
proof (induction rounds arbitrary: gs)
  case (Cons r rounds)
  have "fold add_turn_event (round_events r) gs = gs @ [(fst r, arrived (snd r))]"
    unfolding round_events_def using Cons.prems by (intro add_turn_events_new) auto
  moreover have "fold add_turn_event (concat (map round_events rounds)) (gs @ [(fst r, arrived (snd r))])
      = (gs @ [(fst r, arrived (snd r))]) @ map (\<lambda>r. (fst r, arrived (snd r))) rounds"
    using Cons.prems by (intro Cons.IH) (auto simp: successively_Cons)
  ultimately show ?case by simp
qed simp

lemma map_filter_all_Some:
  "(\<And>x. x \<in> set xs \<Longrightarrow> f (g x) = Some (h x)) \<Longrightarrow> List.map_filter f (map g xs) = map h xs"
  by (induction xs) (simp_all add: List.map_filter_simps)

lemma build_turns_rounds:
  assumes "successively (\<lambda>r r'. fst r \<noteq> fst r') rounds"
    and "\<forall>r\<in>set rounds. \<exists>isn. delivers isn (stream r) (snd r)"
  shows "build_turns (concat (map round_events rounds))
    = map (\<lambda>r. \<lparr>rt_direction = fst r, rt_payload = stream r\<rparr>) rounds"
proof -
  have ne: "snd r \<noteq> [] \<and> (\<forall>e\<in>set (snd r). snd e \<noteq> [])" if "r \<in> set rounds" for r
  proof -
    from assms(2) that obtain isn where d: "delivers isn (stream r) (snd r)" by blast
    then have "covered isn (snd r) 0" by (simp add: delivers_def)
    then have "snd r \<noteq> []" by (auto simp: covered_def)
    moreover have "\<forall>e\<in>set (snd r). snd e \<noteq> []"
      using d by (auto simp: delivers_def segments_of_def segment_of_def)
    ultimately show ?thesis by blast
  qed
  have t: "group_turn (fst r, arrived (snd r)) = Some \<lparr>rt_direction = fst r, rt_payload = stream r\<rparr>"
    if "r \<in> set rounds" for r
  proof -
    from assms(2) that obtain isn where d: "delivers isn (stream r) (snd r)" by blast
    have "stream r \<noteq> []" using d unfolding delivers_def by (rule conjunct1)
    then show ?thesis unfolding group_turn_def snd_conv reassemble_delivered [OF d] by simp
  qed
  have "fold add_turn_event (concat (map round_events rounds)) []
      = map (\<lambda>r. (fst r, arrived (snd r))) rounds"
    using add_turn_rounds [OF assms(1), of "[]"] ne by simp
  then show ?thesis
    unfolding build_turns_def using map_filter_all_Some [of rounds group_turn "\<lambda>r. (fst r, arrived (snd r))"] t by simp
qed

section \<open>Longer retransmissions\<close>

text \<open>Only the first payload of a sequence number is kept: a longer retransmission does not extend it.\<close>

lemma record_segment_taken:
  assumes "map_of (sg_client s) q = Some old"
  shows "sg_client (record_segment True q new s) = sg_client s"
  using assms by (simp add: record_segment_def Let_def)

section \<open>Properties\<close>

text \<open>The segments and the duplicates after recording a sequence of arrivals from the client.\<close>

abbreviation record_all :: "(u32 \<times> bytes) list \<Rightarrow> segments \<Rightarrow> segments" where
  "record_all es s \<equiv> fold (\<lambda>(q, p). record_segment True q p) es s"

definition recorded :: "(u32 \<times> bytes) list \<Rightarrow> segments" where
  "recorded es = record_all es segments_default"

definition arrivals_total :: "(u32 \<times> bytes) list \<Rightarrow> nat" where
  "arrivals_total es = sum_list (map (length \<circ> snd) es)"

lemma record_all_segments:
  "sg_client (record_all es s) = or_insert_all map_of bt_insert es (sg_client s)"
  by (induction es arbitrary: s) (auto simp: record_segment_def Let_def or_insert_def split: option.split)

lemma payload_total_insert:
  "map_of m q = None \<Longrightarrow> payload_total (bt_insert q p m) = payload_total m + length p"
  by (induction q p m rule: bt_insert.induct) (auto split: if_splits)

lemma map_of_bt_insert_new:
  "map_of m q = None \<Longrightarrow> map_of (bt_insert q p m) k = (if k = q then Some p else map_of m k)"
  by (induction q p m rule: bt_insert.induct) (auto split: if_splits)

lemma record_all_conserves:
  assumes "\<forall>e\<in>set es. \<forall>v. map_of (sg_client s) (fst e) = Some v \<longrightarrow> v = snd e" and "repeats_agree es"
  shows "sg_duplicate_bytes (record_all es s) + of_nat (payload_total (sg_client (record_all es s)))
    = sg_duplicate_bytes s + of_nat (payload_total (sg_client s) + arrivals_total es)"
  using assms
proof (induction es arbitrary: s)
  case Nil
  then show ?case by (simp add: arrivals_total_def)
next
  case (Cons e es)
  obtain q p where e: "e = (q, p)" by (cases e)
  have agree: "repeats_agree es"
    using Cons.prems(2) unfolding repeats_agree_def e by (simp only: list.set insert_iff ball_simps) blast
  have same: "v = p" if "(q, v) \<in> set es" for v
    using Cons.prems(2) that unfolding repeats_agree_def e by (metis fst_conv snd_conv list.set_intros)
  let ?s = "record_segment True q p s"
  have step: "sg_duplicate_bytes ?s + of_nat (payload_total (sg_client ?s))
      = sg_duplicate_bytes s + of_nat (payload_total (sg_client s) + length p)"
    using Cons.prems(1) by (auto simp: record_segment_def Let_def e payload_total_insert split: option.split)
  have look: "map_of (sg_client s) k = Some v \<or> k = q \<and> v = p" if "map_of (sg_client ?s) k = Some v" for k v
    using that map_of_bt_insert_new [of "sg_client s" q p k]
    by (auto simp: record_segment_def Let_def split: option.splits if_splits)
  have "\<forall>e\<in>set es. \<forall>v. map_of (sg_client ?s) (fst e) = Some v \<longrightarrow> v = snd e"
  proof (intro ballI allI impI)
    fix e' v assume e': "e' \<in> set es" "map_of (sg_client ?s) (fst e') = Some v"
    from look [OF e'(2)] show "v = snd e'"
    proof
      assume "map_of (sg_client s) (fst e') = Some v"
      with Cons.prems(1) e'(1) show ?thesis by simp
    next
      assume "fst e' = q \<and> v = p"
      with same [of "snd e'"] e'(1) show ?thesis by (cases e') simp
    qed
  qed
  from Cons.IH [OF this agree] step show ?case
    by (simp add: e arrivals_total_def algebra_simps)
qed





text \<open>
  Reassembly conserves bytes, for any segments at all (overlapping, contradictory, with gaps
  or across the end of the sequence space): the stream and the duplicates account for every byte
  stored, and the stream is never longer than what was stored.
\<close>

theorem reassembly_conserves_bytes:
  "of_nat (length (fst (reassemble segs))) + fst (snd (reassemble segs)) = (of_nat (payload_total segs) :: u64)
   \<and> length (fst (reassemble segs)) \<le> payload_total segs"
  using reassemble_conserves [of segs] by (cases "reassemble segs") simp

text \<open>
  The turns of a conversation: when the two sides alternate and the arrivals of each round
  deliver that round's bytes, in any order, the turns are the rounds' byte streams in sequence.
\<close>

theorem turns_of_alternating_rounds:
  assumes "successively (\<lambda>r r'. fst r \<noteq> fst r') rounds"
    and "\<forall>r\<in>set rounds. \<exists>isn. delivers isn (stream r) (snd r)"
  shows "build_turns (concat (map round_events rounds))
    = map (\<lambda>r. \<lparr>rt_direction = fst r, rt_payload = stream r\<rparr>) rounds"
  by (rule build_turns_rounds [OF assms])

theorem turns_of_alternating_rounds_witness:
  "build_turns [(ClientToServer, 11, [8]), (ClientToServer, 10, [7]), (ServerToClient, 50, [9])]
     = [\<lparr>rt_direction = ClientToServer, rt_payload = [7, 8]\<rparr>, \<lparr>rt_direction = ServerToClient, rt_payload = [9]\<rparr>]"
proof -
  have d: "delivers 10 [7, 8] [(11, [8]), (10, [7])]" "delivers 50 [9] [(50, [9])]"
    by (simp_all add: delivers_def segments_of_def segment_of_def slice_def covered_def repeats_agree_def
        less_Suc_eq)
  show ?thesis
    using turns_of_alternating_rounds [of "[(ClientToServer, [(11, [8]), (10, [7])]), (ServerToClient, [(50, [9])])]"
        "\<lambda>r. if fst r = ClientToServer then [7, 8] else [9]"] d
    by (auto simp: round_events_def)
qed

end
