(* ===== verification/Http_Split.thy ===== *)
theory Http_Split
  imports Packet
begin

text \<open>
  Cutting a byte stream into HTTP/1.1 messages (\<open>split_http_messages\<close> and its helpers in
  \<open>crates/capture/src/lib.rs\<close>). Offsets are indices into the whole stream, as in the code;
  \<open>checked_add\<close> on \<open>usize\<close> fails from \<open>2 ^ 64\<close> on. \<open>str::from_utf8(v).ok()?.parse().ok()?\<close> is
  the numeric parse alone: it accepts digits and a plus sign only, which are valid UTF-8.
\<close>

section \<open>Header fields\<close>

datatype http_message_kind = Request | Response

definition trim_ascii :: "bytes \<Rightarrow> bytes" where
  "trim_ascii v = rev (dropWhile is_ascii_whitespace (rev (dropWhile is_ascii_whitespace v)))"

definition header_value :: "bytes \<Rightarrow> bytes \<Rightarrow> bytes option" where
  "header_value headers name =
     find_map (\<lambda>line0.
         let line = (case strip_suffix line0 [13] of Some l \<Rightarrow> l | None \<Rightarrow> line0)
         in case position ((=) 58) line of
              None \<Rightarrow> None
            | Some colon \<Rightarrow>
                if eq_ignore_ascii_case (take colon line) name
                then Some (trim_ascii (drop (colon + 1) line)) else None)
       (drop 1 (split_by ((=) 10) headers))"

definition header_tokens :: "bytes \<Rightarrow> bytes \<Rightarrow> bytes list" where
  "header_tokens headers name =
     (case header_value headers name of
        None \<Rightarrow> [] | Some v \<Rightarrow> map trim_ascii (split_by ((=) 44) v))"

definition field :: "nat \<Rightarrow> bytes list \<Rightarrow> bytes" where
  "field i fs = (if i < length fs then fs ! i else [])"

definition valid_request_line :: "bytes \<Rightarrow> bool" where
  "valid_request_line line =
     (let fields = split_by ((=) 32) line;
          method = field 0 fields; target = field 1 fields; version = field 2 fields
      in method \<noteq> [] \<and> (\<forall>b\<in>set method. is_ascii_uppercase b \<or> b = 45)
       \<and> target \<noteq> [] \<and> version = bytes_of ''HTTP/1.1'' \<and> length fields \<le> 3)"

definition valid_status_line :: "bytes \<Rightarrow> bool" where
  "valid_status_line line \<longleftrightarrow>
     starts_with line (bytes_of ''HTTP/1.1 '')
   \<and> (case get_range 9 12 line of None \<Rightarrow> False | Some st \<Rightarrow> \<forall>b\<in>set st. is_ascii_digit b)"

definition response_has_no_body :: "bytes \<Rightarrow> bool" where
  "response_has_no_body line =
     (case get_range 9 12 line of
        None \<Rightarrow> False
      | Some st \<Rightarrow>
          (case parse_bytes 10 (2 ^ 16) st of
             None \<Rightarrow> False | Some n \<Rightarrow> 100 \<le> n \<and> n \<le> 199 \<or> n = 204 \<or> n = 304))"

section \<open>Message boundaries\<close>

lemma find_sub_drop_bound: "find_sub pat (drop a xs) = Some i \<Longrightarrow> pat \<noteq> [] \<Longrightarrow> a + i + length pat \<le> length xs"
  using find_sub_bound [of pat "drop a xs" i] by (cases pat) auto

text \<open>The size of a chunk: the line at \<open>offset\<close> up to a semicolon, in hexadecimal.\<close>

definition chunk_line :: "bytes \<Rightarrow> nat \<Rightarrow> (nat \<times> nat) option" where
  "chunk_line stream offset =
     (case find_sub crlf (drop offset stream) of
        None \<Rightarrow> None
      | Some line_relative \<Rightarrow>
          (let line_end = offset + line_relative;
               size_field = hd (split_by ((=) 59) (slice offset line_end stream))
           in case parse_bytes 16 (2 ^ 64) (trim_ascii size_field) of
                None \<Rightarrow> None | Some sz \<Rightarrow> Some (sz, line_end + 2)))"

lemma chunk_line_bound: "chunk_line stream offset = Some (sz, o') \<Longrightarrow> offset + 2 \<le> o' \<and> o' \<le> length stream"
  using find_sub_drop_bound [of crlf offset stream]
  by (fastforce simp: chunk_line_def Let_def crlf_def split: option.splits)

function chunked_end :: "bytes \<Rightarrow> nat \<Rightarrow> nat option" where
  "chunked_end stream offset =
     (case chunk_line stream offset of
        None \<Rightarrow> None
      | Some (sz, offset) \<Rightarrow>
          if sz = 0 then
            (if get_range offset (offset + 2) stream = Some crlf then Some (offset + 2)
             else map_option (\<lambda>relative. offset + relative + 4) (find_sub crlf2 (drop offset stream)))
          else if 2 ^ 64 \<le> offset + sz then None
          else if get_range (offset + sz) (offset + sz + 2) stream \<noteq> Some crlf then None
          else chunked_end stream (offset + sz + 2))"
  by pat_completeness auto
termination
  by (relation "measure (\<lambda>(stream, offset). length stream - offset)")
    (auto simp: get_range_def split: if_splits dest!: chunk_line_bound)

declare chunked_end.simps [simp del]

lemma get_range_bound: "get_range a b xs = Some ys \<Longrightarrow> a \<le> b \<and> b \<le> length xs"
  by (auto simp: get_range_def split: if_splits)

lemma chunked_end_bound [slice_bounds]:
  "chunked_end stream offset = Some e \<Longrightarrow> offset < e \<and> e \<le> length stream"
proof (induction stream offset rule: chunked_end.induct)
  case (1 stream offset)
  from "1.prems" obtain sz o' where l: "chunk_line stream offset = Some (sz, o')"
    by (subst (asm) chunked_end.simps) (auto split: option.splits)
  from chunk_line_bound [OF l] have b: "offset + 2 \<le> o'" "o' \<le> length stream" by simp_all
  show ?case
  proof (cases "sz = 0")
    case True
    with "1.prems" l b find_sub_drop_bound [of crlf2 o' stream] show ?thesis
      by (subst (asm) chunked_end.simps) (auto simp: crlf2_def get_range_def split: if_splits)
  next
    case False
    with "1.prems" l have "chunked_end stream (o' + sz + 2) = Some e"
      and "\<not> 2 ^ 64 \<le> o' + sz" "get_range (o' + sz) (o' + sz + 2) stream = Some crlf"
      by (subst (asm) chunked_end.simps, auto split: if_splits)+
    from "1.IH" [OF l refl False this(2) _ this(1)] this(3) b show ?thesis by simp
  qed
qed

definition is_upgrade :: "bytes \<Rightarrow> bool" where
  "is_upgrade headers \<longleftrightarrow>
     header_value headers (bytes_of ''upgrade'') \<noteq> None
   \<or> (\<exists>t\<in>set (header_tokens headers (bytes_of ''connection'')).
        eq_ignore_ascii_case t (bytes_of ''upgrade''))"

definition message_end :: "http_message_kind \<Rightarrow> bytes \<Rightarrow> bytes \<Rightarrow> bytes \<Rightarrow> nat \<Rightarrow> nat option" where
  "message_end kind stream headers first_line header_end =
     (if \<exists>t\<in>set (header_tokens headers (bytes_of ''transfer-encoding'')).
           eq_ignore_ascii_case t (bytes_of ''chunked'')
      then chunked_end stream header_end
      else case header_value headers (bytes_of ''content-length'') of
        Some v \<Rightarrow>
          (case parse_bytes 10 (2 ^ 64) (trim_ascii v) of
             None \<Rightarrow> None
           | Some len \<Rightarrow>
               if header_end + len < 2 ^ 64 \<and> header_end + len \<le> length stream
               then Some (header_end + len) else None)
      | None \<Rightarrow> if response_has_no_body first_line \<or> kind = Request then Some header_end else None)"

text \<open>One round of the loop: the end of the message that starts at \<open>offset\<close>.\<close>

definition next_message :: "http_message_kind \<Rightarrow> bytes \<Rightarrow> nat \<Rightarrow> nat option" where
  "next_message kind stream offset =
     (case find_sub crlf2 (drop offset stream) of
        None \<Rightarrow> None
      | Some header_relative \<Rightarrow>
          (let header_end = offset + header_relative + 4;
               headers = slice offset header_end stream
           in case find_sub crlf headers of
                None \<Rightarrow> None
              | Some first_line_end \<Rightarrow>
                  (let first_line = take first_line_end headers
                   in if kind = Request \<and> \<not> valid_request_line first_line then None
                      else if kind = Response \<and> \<not> valid_status_line first_line then None
                      else if is_upgrade headers then None
                      else message_end kind stream headers first_line header_end)))"

lemma message_end_bound:
  "message_end kind stream headers first_line header_end = Some e \<Longrightarrow> header_end \<le> length stream \<Longrightarrow>
     header_end \<le> e \<and> e \<le> length stream"
  by (auto simp: message_end_def split: if_splits option.splits dest: chunked_end_bound)

lemma next_message_bound [slice_bounds]:
  assumes "next_message kind stream offset = Some e"
  shows "offset + 4 \<le> e \<and> e \<le> length stream"
proof -
  from assms obtain r headers first_line where r: "find_sub crlf2 (drop offset stream) = Some r"
    and m: "message_end kind stream headers first_line (offset + r + 4) = Some e"
    by (auto simp: next_message_def Let_def split: option.splits if_splits)
  have "offset + r + 4 \<le> length stream"
    using find_sub_drop_bound [OF r] by (simp add: crlf2_def)
  from message_end_bound [OF m this] show ?thesis by simp
qed

function split_from :: "http_message_kind \<Rightarrow> bytes \<Rightarrow> nat \<Rightarrow> bytes list option" where
  "split_from kind stream offset =
     (if length stream \<le> offset then Some []
      else case next_message kind stream offset of
        None \<Rightarrow> None
      | Some e \<Rightarrow> map_option (\<lambda>ms. slice offset e stream # ms) (split_from kind stream e))"
  by pat_completeness auto
termination
  by (relation "measure (\<lambda>(kind, stream, offset). length stream - offset)") (auto dest: next_message_bound)

declare split_from.simps [simp del]

definition split_http_messages :: "bytes \<Rightarrow> http_message_kind \<Rightarrow> bytes list option" where
  "split_http_messages stream kind = split_from kind stream 0"

definition extract_http_transactions :: "bytes \<Rightarrow> bytes \<Rightarrow> http_transaction list option" where
  "extract_http_transactions client_to_server server_to_client =
     (case split_http_messages client_to_server Request of
        None \<Rightarrow> None
      | Some requests \<Rightarrow>
          (case split_http_messages server_to_client Response of
             None \<Rightarrow> None
           | Some responses \<Rightarrow>
               if requests = [] \<or> length requests \<noteq> length responses then None
               else Some (map (\<lambda>(q, r). \<lparr>ht_request = q, ht_response = r\<rparr>) (zip requests responses))))"

section \<open>The messages make up the stream\<close>

lemma split_from_concat:
  "split_from kind stream offset = Some ms \<Longrightarrow> offset \<le> length stream \<Longrightarrow>
     concat ms = drop offset stream \<and> (\<forall>m\<in>set ms. 4 \<le> length m)"
proof (induction kind stream offset arbitrary: ms rule: split_from.induct)
  case (1 kind stream offset)
  show ?case
  proof (cases "length stream \<le> offset")
    case True
    with 1 show ?thesis by (subst (asm) split_from.simps) simp
  next
    case False
    with "1.prems"(1) obtain e ms' where e: "next_message kind stream offset = Some e"
      and ms': "split_from kind stream e = Some ms'" and ms: "ms = slice offset e stream # ms'"
      by (subst (asm) split_from.simps) (auto split: option.splits)
    from next_message_bound [OF e] have b: "offset + 4 \<le> e" "e \<le> length stream" by simp_all
    from "1.IH" [OF False e ms' b(2)] have "concat ms' = drop e stream" "\<forall>m\<in>set ms'. 4 \<le> length m" by simp_all
    moreover have "slice offset e stream @ drop e stream = drop offset stream"
      using slice_append_slice [of offset e "length stream" stream] b by (simp add: slice_def)
    ultimately show ?thesis using b by (simp add: ms)
  qed
qed

lemma extract_lossless:
  assumes "extract_http_transactions c2s s2c = Some ts"
  shows "concat (map ht_request ts) = c2s \<and> concat (map ht_response ts) = s2c \<and> ts \<noteq> []"
proof -
  from assms obtain requests responses where r: "split_from Request c2s 0 = Some requests"
    "split_from Response s2c 0 = Some responses" "requests \<noteq> []" "length requests = length responses"
    and ts: "ts = map (\<lambda>(q, r). \<lparr>ht_request = q, ht_response = r\<rparr>) (zip requests responses)"
    by (auto simp: extract_http_transactions_def split_http_messages_def split: option.splits if_splits)
  have "map ht_request ts = requests" "map ht_response ts = responses"
    using r(4) by (simp_all add: ts split_beta o_def)
  moreover have "ts \<noteq> []" using r(3,4) by (auto simp: ts)
  moreover have "concat requests = c2s" "concat responses = s2c"
    using split_from_concat [OF r(1)] split_from_concat [OF r(2)] by simp_all
  ultimately show ?thesis by simp
qed

section \<open>Splitting is local\<close>

text \<open>What is found in a stream is found again, shifted, when bytes are put before and after it.\<close>

lemma find_sub_append: "find_sub pat xs = Some i \<Longrightarrow> find_sub pat (xs @ ys) = Some i"
  unfolding find_sub_def by (rule find_window_append)

lemma find_sub_shift:
  assumes "find_sub pat (drop a xs) = Some i" and "pat \<noteq> []"
  shows "find_sub pat (drop (length pre + a) (pre @ xs @ post)) = Some i"
proof -
  have "drop (length pre + a) (pre @ xs @ post) = drop a xs @ post"
    using find_sub_drop_bound [OF assms] by simp
  then show ?thesis using find_sub_append [OF assms(1), of post] by (simp only:)
qed

lemma slice_shift: "b \<le> length xs \<Longrightarrow> slice (length pre + a) (length pre + b) (pre @ xs @ post) = slice a b xs"
  by (simp add: slice_def)

lemma get_range_shift:
  "b \<le> length xs \<Longrightarrow> get_range (length pre + a) (length pre + b) (pre @ xs @ post) = get_range a b xs"
  by (simp add: get_range_def slice_shift)

lemma chunk_line_shift:
  assumes "chunk_line xs a = Some (sz, o')"
  shows "chunk_line (pre @ xs @ post) (length pre + a) = Some (sz, length pre + o')"
proof -
  from assms obtain r where r: "find_sub crlf (drop a xs) = Some r"
    and s: "parse_bytes 16 (2 ^ 64) (trim_ascii (hd (split_by ((=) 59) (slice a (a + r) xs)))) = Some sz"
    and o': "o' = a + r + 2"
    by (auto simp: chunk_line_def Let_def split: option.splits)
  have "find_sub crlf (drop (length pre + a) (pre @ xs @ post)) = Some r"
    by (rule find_sub_shift [OF r]) (simp add: crlf_def)
  moreover have "slice (length pre + a) (length pre + (a + r)) (pre @ xs @ post) = slice a (a + r) xs"
    using find_sub_drop_bound [OF r] by (intro slice_shift) (simp add: crlf_def)
  ultimately show ?thesis
    using s o' by (simp add: chunk_line_def Let_def add.assoc del: append_assoc)
qed

lemma chunked_end_shift:
  "chunked_end xs a = Some e \<Longrightarrow> length (pre @ xs @ post) < 2 ^ 64 \<Longrightarrow>
     chunked_end (pre @ xs @ post) (length pre + a) = Some (length pre + e)"
proof (induction xs a rule: chunked_end.induct)
  case (1 xs a)
  from "1.prems"(1) obtain sz o' where l: "chunk_line xs a = Some (sz, o')"
    by (subst (asm) chunked_end.simps) (auto split: option.splits)
  note l' = chunk_line_shift [OF l, of pre post]
  from chunk_line_bound [OF l] have b: "o' \<le> length xs" by simp
  show ?case
  proof (cases "sz = 0")
    case True
    show ?thesis
    proof (cases "get_range o' (o' + 2) xs = Some crlf")
      case c: True
      with "1.prems"(1) l True have "e = o' + 2" by (subst (asm) chunked_end.simps) simp
      moreover have "get_range (length pre + o') (length pre + (o' + 2)) (pre @ xs @ post) = Some crlf"
        using c get_range_bound [OF c] by (simp only: get_range_shift)
      ultimately show ?thesis
        by (subst chunked_end.simps) (simp add: l' True add.assoc del: append_assoc)
    next
      case c: False
      with "1.prems"(1) l True obtain r where r: "find_sub crlf2 (drop o' xs) = Some r" "e = o' + r + 4"
        by (subst (asm) chunked_end.simps) auto
      have "o' + 2 \<le> length xs" using find_sub_drop_bound [OF r(1)] by (simp add: crlf2_def)
      then have "get_range (length pre + o') (length pre + (o' + 2)) (pre @ xs @ post) \<noteq> Some crlf"
        using c by (simp only: get_range_shift not_False_eq_True)
      moreover have "find_sub crlf2 (drop (length pre + o') (pre @ xs @ post)) = Some r"
        by (rule find_sub_shift [OF r(1)]) (simp add: crlf2_def)
      ultimately show ?thesis
        by (subst chunked_end.simps) (simp add: l' True r(2) add.assoc del: append_assoc drop_append)
    qed
  next
    case False
    with "1.prems"(1) l have rec: "chunked_end xs (o' + sz + 2) = Some e"
      and lt: "\<not> 2 ^ 64 \<le> o' + sz" and g: "get_range (o' + sz) (o' + sz + 2) xs = Some crlf"
      by (subst (asm) chunked_end.simps, auto split: if_splits)+
    from get_range_bound [OF g] have b2: "o' + sz + 2 \<le> length xs" by simp
    have "get_range (length pre + (o' + sz)) (length pre + (o' + sz + 2)) (pre @ xs @ post) = Some crlf"
      using g b2 by (simp only: get_range_shift)
    moreover have "\<not> 2 ^ 64 \<le> length pre + (o' + sz)" using "1.prems"(2) b2 by simp
    moreover have "chunked_end (pre @ xs @ post) (length pre + (o' + sz + 2)) = Some (length pre + e)"
      using "1.IH" [OF l refl False lt _ rec "1.prems"(2)] g by simp
    ultimately show ?thesis
      using False by (subst chunked_end.simps) (simp add: l' add.assoc del: append_assoc)
  qed
qed

lemma message_end_shift:
  assumes "message_end kind xs headers first_line a = Some e" and "length (pre @ xs @ post) < 2 ^ 64"
  shows "message_end kind (pre @ xs @ post) headers first_line (length pre + a) = Some (length pre + e)"
  using assms by (auto simp: message_end_def chunked_end_shift simp del: append_assoc split: if_splits option.splits)

lemma next_message_shift:
  assumes "next_message kind xs a = Some e" and "length (pre @ xs @ post) < 2 ^ 64"
  shows "next_message kind (pre @ xs @ post) (length pre + a) = Some (length pre + e)"
proof -
  from assms(1) obtain r where r: "find_sub crlf2 (drop a xs) = Some r"
    by (auto simp: next_message_def split: option.splits)
  have "find_sub crlf2 (drop (length pre + a) (pre @ xs @ post)) = Some r"
    by (rule find_sub_shift [OF r]) (simp add: crlf2_def)
  moreover have "slice (length pre + a) (length pre + (a + r + 4)) (pre @ xs @ post) = slice a (a + r + 4) xs"
    using find_sub_drop_bound [OF r] by (intro slice_shift) (simp add: crlf2_def)
  ultimately show ?thesis
    using assms message_end_shift [of kind xs _ _ "a + r + 4" e pre post] r
    by (auto simp: next_message_def Let_def add.assoc simp del: append_assoc drop_append
        split: option.splits if_splits)
qed

lemma split_from_shift:
  assumes "\<forall>m\<in>set ms. next_message kind m 0 = Some (length m)" and "length (pre @ concat ms) < 2 ^ 64"
  shows "split_from kind (pre @ concat ms) (length pre) = Some ms"
  using assms
proof (induction ms arbitrary: pre)
  case Nil
  then show ?case by (subst split_from.simps) simp
next
  case (Cons m ms)
  have "next_message kind (pre @ m @ concat ms) (length pre + 0) = Some (length pre + length m)"
    using Cons.prems by (intro next_message_shift) simp_all
  moreover have "m \<noteq> []" using Cons.prems(1) next_message_bound [of kind m 0] by fastforce
  moreover have "split_from kind ((pre @ m) @ concat ms) (length (pre @ m)) = Some ms"
    using Cons.prems by (intro Cons.IH) simp_all
  ultimately show ?case by (subst split_from.simps) (simp add: slice_def)
qed

text \<open>A single message is one that the splitter returns whole.\<close>

lemma split_single: "split_http_messages m kind = Some [m] \<Longrightarrow> next_message kind m 0 = Some (length m)"
proof -
  assume a: "split_http_messages m kind = Some [m]"
  then have ne: "m \<noteq> []" by (auto simp: split_http_messages_def split_from.simps)
  with a obtain e where e: "next_message kind m 0 = Some e" "slice 0 e m = m"
    by (auto simp: split_http_messages_def split_from.simps [of _ _ 0] split: option.splits)
  from next_message_bound [OF e(1)] e(2) have "e = length m"
    by (metis diff_zero length_slice)
  with e(1) show ?thesis by simp
qed

section \<open>Property\<close>

text \<open>
  C30. Pipelined messages are told apart: when each of several messages on its own is recognised
  as one complete message, their concatenation is split into exactly these messages. The length
  of the whole stays below the range of the machine's indices.
\<close>

theorem pipelined_messages_split:
  assumes "\<forall>m\<in>set ms. split_http_messages m kind = Some [m]" and "length (concat ms) < 2 ^ 64"
  shows "split_http_messages (concat ms) kind = Some ms"
  using split_from_shift [of ms kind "[]"] assms split_single
  by (simp add: split_http_messages_def)

theorem pipelined_messages_split_witness:
  "split_http_messages
     (bytes_of ''GET /a HTTP/1.1'' @ crlf2 @ bytes_of ''PUT / HTTP/1.1'' @ crlf @ bytes_of ''Content-Length: 2''
        @ crlf2 @ bytes_of ''hi'') Request
   = Some [bytes_of ''GET /a HTTP/1.1'' @ crlf2,
       bytes_of ''PUT / HTTP/1.1'' @ crlf @ bytes_of ''Content-Length: 2'' @ crlf2 @ bytes_of ''hi'']"
proof -
  let ?a = "bytes_of ''GET /a HTTP/1.1'' @ crlf2"
  let ?b = "bytes_of ''PUT / HTTP/1.1'' @ crlf @ bytes_of ''Content-Length: 2'' @ crlf2 @ bytes_of ''hi''"
  have a: "split_http_messages ?a Request = Some [?a]" by code_simp
  have b: "split_http_messages ?b Request = Some [?b]" by code_simp
  show ?thesis using pipelined_messages_split [of "[?a, ?b]" Request] a b by simp
qed

end
