(* ===== verification/H2_Capture.thy ===== *)
theory H2_Capture
  imports Packet
begin

text \<open>
  HTTP/2 frames of a captured connection (\<open>parse_h2_direction\<close> and
  \<open>extract_http2_transactions\<close> in \<open>crates/capture/src/lib.rs\<close>). The HPACK decoder is the
  \<open>hpack\<close> package: its state is the type \<open>'d\<close>, its initial state \<open>dec0\<close>, and \<open>decode\<close>
  returns the next state and the headers of a block, or nothing on a malformed block. The
  \<open>HashMap\<close> of streams is kept sorted by stream; its order is observed only after sorting.
\<close>

type_synonym headers = "(bytes \<times> bytes) list"
type_synonym 'd hpack = "'d \<Rightarrow> bytes \<Rightarrow> ('d \<times> headers) option"

record h2_parts =
  h2p_headers :: headers
  h2p_body :: bytes
  h2p_ended :: bool

definition h2_parts_default :: h2_parts where
  "h2_parts_default = \<lparr>h2p_headers = [], h2p_body = [], h2p_ended = False\<rparr>"

definition h2_preface :: bytes where
  "h2_preface = bytes_of ''PRI * HTTP/2.0'' @ crlf2 @ bytes_of ''SM'' @ crlf2"

record 'd h2_state =
  hs_decoder :: 'd
  hs_result :: "(u32, h2_parts) btree"
  hs_pending :: "(u32 \<times> u8 \<times> bytes) option"

section \<open>Frames\<close>

definition part_of :: "u32 \<Rightarrow> (u32, h2_parts) btree \<Rightarrow> h2_parts" where
  "part_of sid m = (case map_of m sid of None \<Rightarrow> h2_parts_default | Some p \<Rightarrow> p)"

text \<open>A complete header block: decode it and store the headers; bit 0 of the flags ends the stream.\<close>

definition store_headers :: "'d hpack \<Rightarrow> u32 \<Rightarrow> u8 \<Rightarrow> bytes \<Rightarrow> 'd h2_state \<Rightarrow> 'd h2_state option" where
  "store_headers decode sid flags block st =
     (case decode (hs_decoder st) block of
        None \<Rightarrow> None
      | Some (d, headers) \<Rightarrow>
          (let part = (part_of sid (hs_result st))\<lparr>h2p_headers := headers\<rparr>;
               part = (if and flags 1 \<noteq> 0 then part\<lparr>h2p_ended := True\<rparr> else part)
           in Some (st\<lparr>hs_decoder := d, hs_result := bt_insert sid part (hs_result st)\<rparr>)))"

definition h2_frame :: "'d hpack \<Rightarrow> u8 \<Rightarrow> u8 \<Rightarrow> u32 \<Rightarrow> bytes \<Rightarrow> 'd h2_state \<Rightarrow> 'd h2_state option" where
  "h2_frame decode kind flags sid payload st =
     (if kind = 0 \<and> 0 < sid then
        let part = part_of sid (hs_result st);
            part = part\<lparr>h2p_body := h2p_body part @ payload\<rparr>;
            part = (if and flags 1 \<noteq> 0 then part\<lparr>h2p_ended := True\<rparr> else part)
        in Some (st\<lparr>hs_result := bt_insert sid part (hs_result st)\<rparr>)
      else if kind = 1 \<and> 0 < sid then
        if and flags 4 = 0 then Some (st\<lparr>hs_pending := Some (sid, flags, payload)\<rparr>)
        else store_headers decode sid flags payload st
      else if kind = 9 then
        (case hs_pending st of
           None \<Rightarrow> None
         | Some (pending_id, pending_flags, block) \<Rightarrow>
             (let st = st\<lparr>hs_pending := None\<rparr>
              in if pending_id \<noteq> sid then None
                 else if and flags 4 = 0 then
                   Some (st\<lparr>hs_pending := Some (sid, pending_flags, block @ payload)\<rparr>)
                 else store_headers decode sid pending_flags (block @ payload) st))
      else if kind = 3 \<or> kind = 5 \<or> kind = 7 then None
      else Some st)"

function h2_frames :: "'d hpack \<Rightarrow> bytes \<Rightarrow> nat \<Rightarrow> 'd h2_state \<Rightarrow> 'd h2_state option" where
  "h2_frames decode stream offset st =
     (if length stream \<le> offset then Some st
      else if length stream < offset + 9 then None
      else
        let len = be_value (slice offset (offset + 3) stream);
            kind = stream ! (offset + 3);
            flags = stream ! (offset + 4);
            sid = and (from_be (slice (offset + 5) (offset + 9) stream)) 0x7fffffff
        in if length stream < offset + 9 + len then None
           else case h2_frame decode kind flags sid (slice (offset + 9) (offset + 9 + len) stream) st of
             None \<Rightarrow> None
           | Some st \<Rightarrow> h2_frames decode stream (offset + 9 + len) st)"
  by pat_completeness auto
termination
  by (relation "measure (\<lambda>(decode, stream, offset, st). length stream - offset)") auto

declare h2_frames.simps [simp del]

definition parse_h2_direction :: "'d hpack \<Rightarrow> 'd \<Rightarrow> bytes \<Rightarrow> bool \<Rightarrow> (u32, h2_parts) btree option" where
  "parse_h2_direction decode dec0 stream client =
     (case h2_frames decode stream (if client then 24 else 0)
             \<lparr>hs_decoder = dec0, hs_result = [], hs_pending = None\<rparr> of
        None \<Rightarrow> None
      | Some st \<Rightarrow> if hs_pending st \<noteq> None then None else Some (hs_result st))"

section \<open>Transactions\<close>

definition header_of :: "headers \<Rightarrow> bytes \<Rightarrow> bytes" where
  "header_of items name = (case map_of items name of None \<Rightarrow> [] | Some v \<Rightarrow> v)"

definition h2_transaction :: "(u32, h2_parts) btree \<Rightarrow> (u32, h2_parts) btree \<Rightarrow> u32 \<Rightarrow> http2_transaction option" where
  "h2_transaction requests responses sid =
     (case (map_of requests sid, map_of responses sid) of
        (Some request, Some response) \<Rightarrow>
          (if \<not> h2p_ended request \<or> \<not> h2p_ended response then None
           else
             let method = header_of (h2p_headers request) (bytes_of '':method'');
                 path = header_of (h2p_headers request) (bytes_of '':path'');
                 status = header_of (h2p_headers response) (bytes_of '':status'')
             in if method = [] \<or> path = [] \<or> status = [] then None
                else Some \<lparr>h2t_method = method, h2t_path = path,
                       h2t_authority = header_of (h2p_headers request) (bytes_of '':authority''),
                       h2t_status = status, h2t_request_body = h2p_body request,
                       h2t_response_body = h2p_body response\<rparr>)
      | _ \<Rightarrow> None)"

fun all_some :: "('a \<Rightarrow> 'b option) \<Rightarrow> 'a list \<Rightarrow> 'b list option" where
  "all_some f [] = Some []"
| "all_some f (x # xs) =
     (case f x of None \<Rightarrow> None | Some y \<Rightarrow> map_option ((#) y) (all_some f xs))"

definition odd_streams :: "(u32, h2_parts) btree \<Rightarrow> u32 list" where
  "odd_streams requests = filter (\<lambda>sid. sid mod 2 = 1) (map fst requests)"

definition extract_http2_transactions ::
    "'d hpack \<Rightarrow> 'd \<Rightarrow> bytes \<Rightarrow> bytes \<Rightarrow> http2_transaction list option" where
  "extract_http2_transactions decode dec0 client server =
     (if \<not> starts_with client h2_preface then None
      else case parse_h2_direction decode dec0 client True of
        None \<Rightarrow> None
      | Some requests \<Rightarrow>
          (case parse_h2_direction decode dec0 server False of
             None \<Rightarrow> None
           | Some responses \<Rightarrow>
               (case all_some (h2_transaction requests responses) (odd_streams requests) of
                  None \<Rightarrow> None
                | Some output \<Rightarrow> if output = [] then None else Some output)))"

section \<open>Reading back written frames\<close>

type_synonym frame = "u8 \<times> u8 \<times> u32 \<times> bytes"

definition frame_bytes :: "frame \<Rightarrow> bytes" where
  "frame_bytes f =
     (case f of (kind, flags, sid, payload) \<Rightarrow>
        be_digits 3 (length payload) @ [kind, flags] @ to_be sid @ payload)"

definition frame_ok :: "frame \<Rightarrow> bool" where
  "frame_ok f = (case f of (kind, flags, sid, payload) \<Rightarrow>
     length payload < 2 ^ 24 \<and> and sid 0x7fffffff = sid)"

fun run_frames :: "'d hpack \<Rightarrow> frame list \<Rightarrow> 'd h2_state \<Rightarrow> 'd h2_state option" where
  "run_frames decode [] st = Some st"
| "run_frames decode ((kind, flags, sid, payload) # fs) st =
     (case h2_frame decode kind flags sid payload st of
        None \<Rightarrow> None | Some st \<Rightarrow> run_frames decode fs st)"

lemma length_frame_bytes [simp]: "length (frame_bytes f) = 9 + length (snd (snd (snd f)))"
  by (cases f) (simp add: frame_bytes_def)

lemma h2_frames_written:
  "\<forall>f\<in>set fs. frame_ok f \<Longrightarrow>
     h2_frames decode (pre @ concat (map frame_bytes fs)) (length pre) st = run_frames decode fs st"
proof (induction fs arbitrary: pre st)
  case Nil
  then show ?case by (simp add: h2_frames.simps)
next
  case (Cons f fs)
  obtain kind flags sid payload where f: "f = (kind, flags, sid, payload)" by (cases f)
  let ?s = "pre @ frame_bytes f @ concat (map frame_bytes fs)"
  have ok: "length payload < 2 ^ 24" "and sid 0x7fffffff = sid"
    using Cons.prems by (simp_all add: f frame_ok_def)
  have len: "be_value (slice (length pre) (length pre + 3) ?s) = length payload"
    using ok(1) by (simp add: slice_def f frame_bytes_def be_value_be_digits)
  have sid: "from_be (slice (length pre + 5) (length pre + 9) ?s) = sid"
    by (simp add: slice_def f frame_bytes_def)
  have kind: "?s ! (length pre + 3) = kind" "?s ! (length pre + 4) = flags"
    by (simp_all add: f frame_bytes_def nth_append)
  have payload: "slice (length pre + 9) (length pre + 9 + length payload) ?s = payload"
    by (simp add: slice_def f frame_bytes_def)
  have "h2_frames decode ?s (length pre + 9 + length payload) st' = run_frames decode fs st'" for st'
    using Cons.IH [of "pre @ frame_bytes f" st'] Cons.prems by (simp add: f add.assoc)
  then show ?case
    using len sid kind payload ok(2)
    by (subst h2_frames.simps) (simp add: f Let_def split: option.split)
qed

lemma length_h2_preface [simp]: "length h2_preface = 24"
  by (simp add: h2_preface_def)

lemma starts_with_append [simp]: "starts_with (p @ xs) p"
  by (simp add: starts_with_def)

lemma parse_h2_written:
  assumes "\<forall>f\<in>set fs. frame_ok f"
  shows "parse_h2_direction decode dec0 (h2_preface @ concat (map frame_bytes fs)) True
      = (case run_frames decode fs \<lparr>hs_decoder = dec0, hs_result = [], hs_pending = None\<rparr> of
           None \<Rightarrow> None | Some st \<Rightarrow> if hs_pending st \<noteq> None then None else Some (hs_result st))"
    and "parse_h2_direction decode dec0 (concat (map frame_bytes fs)) False
      = (case run_frames decode fs \<lparr>hs_decoder = dec0, hs_result = [], hs_pending = None\<rparr> of
           None \<Rightarrow> None | Some st \<Rightarrow> if hs_pending st \<noteq> None then None else Some (hs_result st))"
  using h2_frames_written [OF assms, of decode h2_preface] h2_frames_written [OF assms, of decode "[]"]
  by (simp_all add: parse_h2_direction_def)

section \<open>What the transactions are\<close>

lemma all_some_Some: "all_some f xs = Some ys \<longleftrightarrow> map f xs = map Some ys"
  by (induction xs arbitrary: ys) (auto simp: Cons_eq_map_conv split: option.splits)

lemma h2_transaction_Some:
  "h2_transaction requests responses sid = Some t \<Longrightarrow>
     h2t_method t \<noteq> [] \<and> h2t_path t \<noteq> [] \<and> h2t_status t \<noteq> []
   \<and> (\<exists>request response. map_of requests sid = Some request \<and> map_of responses sid = Some response
       \<and> h2p_ended request \<and> h2p_ended response
       \<and> h2t_request_body t = h2p_body request \<and> h2t_response_body t = h2p_body response)"
  by (auto simp: h2_transaction_def Let_def split: option.splits if_splits)

lemma store_headers_ok:
  "store_headers decode sid flags block st = Some st' \<Longrightarrow> bt_ok (hs_result st) \<Longrightarrow> bt_ok (hs_result st')"
  by (auto simp: store_headers_def Let_def bt_ok_insert split: option.splits if_splits)

lemma h2_frame_ok:
  "h2_frame decode kind flags sid payload st = Some st' \<Longrightarrow> bt_ok (hs_result st) \<Longrightarrow> bt_ok (hs_result st')"
  by (auto simp: h2_frame_def Let_def bt_ok_insert split: option.splits if_splits dest!: store_headers_ok)

lemma h2_frames_ok: "h2_frames decode stream offset st = Some st' \<Longrightarrow> bt_ok (hs_result st) \<Longrightarrow> bt_ok (hs_result st')"
proof (induction decode stream offset st arbitrary: st' rule: h2_frames.induct)
  case (1 decode stream offset st)
  show ?case
  proof (cases "length stream \<le> offset")
    case True
    with 1 show ?thesis by (simp add: h2_frames.simps)
  next
    case False
    with "1.prems"(1) show ?thesis
      using "1.IH" "1.prems"(2) h2_frame_ok
      by (subst (asm) h2_frames.simps) (fastforce simp: Let_def split: if_splits option.splits)
  qed
qed

lemma parse_h2_ok: "parse_h2_direction decode dec0 stream client = Some m \<Longrightarrow> bt_ok m"
  using h2_frames_ok [of decode stream "if client then 24 else 0" "\<lparr>hs_decoder = dec0, hs_result = [], hs_pending = None\<rparr>"]
  by (auto simp: parse_h2_direction_def bt_ok_def split: option.splits if_splits)

section \<open>Properties\<close>

text \<open>
  C31. One HTTP/2 exchange as it appears on the wire: a header block in a HEADERS frame and any
  body in a DATA frame that ends the stream, each way, on an odd stream. Whatever the header
  decoder is, as long as it decodes the two blocks to headers with a method, a path and a status,
  the exchange is extracted with its bodies byte for byte.
\<close>

theorem h2_exchange_extracted:
  assumes "sid mod 2 = 1" and "and sid 0x7fffffff = sid"
    and "length req_block < 2 ^ 24" and "length req_body < 2 ^ 24"
    and "length rsp_block < 2 ^ 24" and "length rsp_body < 2 ^ 24"
    and "decode dec0 req_block = Some (d1, req)" and "decode dec0 rsp_block = Some (d2, rsp)"
    and "header_of req (bytes_of '':method'') \<noteq> []" and "header_of req (bytes_of '':path'') \<noteq> []"
    and "header_of rsp (bytes_of '':status'') \<noteq> []"
  shows "extract_http2_transactions decode dec0
      (h2_preface @ frame_bytes (1, 4, sid, req_block) @ frame_bytes (0, 1, sid, req_body))
      (frame_bytes (1, 4, sid, rsp_block) @ frame_bytes (0, 1, sid, rsp_body))
    = Some [\<lparr>h2t_method = header_of req (bytes_of '':method''), h2t_path = header_of req (bytes_of '':path''),
        h2t_authority = header_of req (bytes_of '':authority''), h2t_status = header_of rsp (bytes_of '':status''),
        h2t_request_body = req_body, h2t_response_body = rsp_body\<rparr>]"
proof -
  have pos: "0 < sid" using assms(1) by (cases "sid = 0") (auto simp: word_neq_0_conv)
  have run: "run_frames decode [(1, 4, sid, block), (0, 1, sid, body)]
        \<lparr>hs_decoder = dec0, hs_result = [], hs_pending = None\<rparr>
      = Some \<lparr>hs_decoder = d, hs_result = [(sid, \<lparr>h2p_headers = hs, h2p_body = body, h2p_ended = True\<rparr>)],
          hs_pending = None\<rparr>"
    if "decode dec0 block = Some (d, hs)" for block body d hs
    using that pos by (simp add: h2_frame_def store_headers_def part_of_def h2_parts_default_def)
  have c: "parse_h2_direction decode dec0
      (h2_preface @ frame_bytes (1, 4, sid, req_block) @ frame_bytes (0, 1, sid, req_body)) True
      = Some [(sid, \<lparr>h2p_headers = req, h2p_body = req_body, h2p_ended = True\<rparr>)]"
    using parse_h2_written(1) [of "[(1, 4, sid, req_block), (0, 1, sid, req_body)]" decode dec0]
      run [OF assms(7)] assms(2-4) by (simp add: frame_ok_def del: run_frames.simps)
  have s: "parse_h2_direction decode dec0 (frame_bytes (1, 4, sid, rsp_block) @ frame_bytes (0, 1, sid, rsp_body)) False
      = Some [(sid, \<lparr>h2p_headers = rsp, h2p_body = rsp_body, h2p_ended = True\<rparr>)]"
    using parse_h2_written(2) [of "[(1, 4, sid, rsp_block), (0, 1, sid, rsp_body)]" decode dec0]
      run [OF assms(8)] assms(2,5,6) by (simp add: frame_ok_def del: run_frames.simps)
  show ?thesis
    using assms(1,9-11) by (simp add: extract_http2_transactions_def c s odd_streams_def h2_transaction_def Let_def)
qed

theorem h2_exchange_extracted_witness:
  "\<exists>t. extract_http2_transactions (\<lambda>d b. Some (d, [(bytes_of '':method'', b), (bytes_of '':path'', b), (bytes_of '':status'', b)]))
      () (h2_preface @ frame_bytes (1, 4, 1, [65]) @ frame_bytes (0, 1, 1, [66, 67]))
      (frame_bytes (1, 4, 1, [68]) @ frame_bytes (0, 1, 1, [])) = Some [t] \<and> h2t_request_body t = [66, 67]"
  using h2_exchange_extracted [of 1 "[65]" "[66, 67]" "[68]" "[]"
      "\<lambda>d b. Some (d, [(bytes_of '':method'', b), (bytes_of '':path'', b), (bytes_of '':status'', b)])" "()" "()"]
  by (simp add: header_of_def bytes_of_def)

text \<open>
  The transactions that are extracted answer the client's odd streams one by one, in stream
  order: each has a method, a path and a status, and both of its streams were ended.
\<close>

theorem h2_transactions_follow_streams:
  assumes "extract_http2_transactions decode dec0 client server = Some ts"
  shows "\<exists>requests responses. parse_h2_direction decode dec0 client True = Some requests
    \<and> parse_h2_direction decode dec0 server False = Some responses
    \<and> sorted_wrt (<) (odd_streams requests) \<and> odd_streams requests \<noteq> []
    \<and> map (h2_transaction requests responses) (odd_streams requests) = map Some ts
    \<and> (\<forall>t\<in>set ts. h2t_method t \<noteq> [] \<and> h2t_path t \<noteq> [] \<and> h2t_status t \<noteq> [])"
proof -
  from assms obtain requests responses
    where r: "parse_h2_direction decode dec0 client True = Some requests"
      "parse_h2_direction decode dec0 server False = Some responses"
    and m: "map (h2_transaction requests responses) (odd_streams requests) = map Some ts" and ne: "ts \<noteq> []"
    by (auto simp: extract_http2_transactions_def all_some_Some split: if_splits option.splits)
  have "sorted_wrt (<) (odd_streams requests)"
    using parse_h2_ok [OF r(1)] by (simp add: odd_streams_def bt_ok_def sorted_wrt_filter)
  moreover have "odd_streams requests \<noteq> []" using m ne by auto
  moreover have "h2t_method t \<noteq> [] \<and> h2t_path t \<noteq> [] \<and> h2t_status t \<noteq> []" if "t \<in> set ts" for t
  proof -
    from that have "Some t \<in> set (map (h2_transaction requests responses) (odd_streams requests))"
      unfolding m by simp
    then show ?thesis using h2_transaction_Some by fastforce
  qed
  ultimately show ?thesis using r m by blast
qed

theorem h2_transactions_follow_streams_witness:
  "sorted_wrt (<) (odd_streams (the (parse_h2_direction
      (\<lambda>d b. Some (d, [(bytes_of '':method'', b), (bytes_of '':path'', b), (bytes_of '':status'', b)])) ()
      (h2_preface @ frame_bytes (1, 5, 1, [65])) True)))"
proof -
  have "\<not> Option.is_none (extract_http2_transactions
      (\<lambda>d b. Some (d, [(bytes_of '':method'', b), (bytes_of '':path'', b), (bytes_of '':status'', b)])) ()
      (h2_preface @ frame_bytes (1, 5, 1, [65])) (frame_bytes (1, 5, 1, [65])))"
    by code_simp
  then obtain ts where "extract_http2_transactions
      (\<lambda>d b. Some (d, [(bytes_of '':method'', b), (bytes_of '':path'', b), (bytes_of '':status'', b)])) ()
      (h2_preface @ frame_bytes (1, 5, 1, [65])) (frame_bytes (1, 5, 1, [65])) = Some ts"
    unfolding Option.is_none_def by blast
  from h2_transactions_follow_streams [OF this] show ?thesis by auto
qed

text \<open>A DATA frame's payload enters the body whole, whatever the padding flag (bit 3) says.\<close>

lemma part_of_insert [simp]: "bt_ok m \<Longrightarrow> part_of sid (bt_insert sid p m) = p"
  by (simp add: part_of_def map_of_bt_insert)

lemma h2_data_ignores_padding:
  assumes "0 < sid" and "bt_ok (hs_result st)" and "h2_frame decode 0 flags sid payload st = Some st'"
  shows "h2p_body (part_of sid (hs_result st')) = h2p_body (part_of sid (hs_result st)) @ payload"
  using assms by (auto simp: h2_frame_def Let_def)

end
