(* ===== verification/Capture.thy ===== *)
theory Capture
  imports Reassembly Http_Split H2_Capture
begin

text \<open>
  Analysis of a capture file (\<open>analyze_capture\<close>, \<open>analyze_pcap\<close>, \<open>analyze_pcapng\<close>,
  \<open>finish_analysis\<close> in \<open>crates/capture/src/lib.rs\<close>): both container formats in both byte
  orders, the classification of the reassembled flows, and the equivalence of the formats.
\<close>

section \<open>Data\<close>

datatype capture_format = Pcap | PcapNg

datatype capture_error = Truncated | UnsupportedFormat | UnsupportedLinkType u32

record capture_analysis =
  ca_packet_count :: u64
  ca_captured_bytes :: u64
  ca_flows :: "reassembled_flow list"
  ca_exclusions :: exclusions

section \<open>Classification of flows\<close>

definition contains_ascii_case_insensitive :: "bytes \<Rightarrow> bytes \<Rightarrow> bool" where
  "contains_ascii_case_insensitive haystack needle \<longleftrightarrow>
     find_window (length needle) (\<lambda>part. eq_ignore_ascii_case part needle) haystack \<noteq> None"

definition looks_like_tls :: "bytes \<Rightarrow> bool" where
  "looks_like_tls d \<longleftrightarrow>
     5 \<le> length d \<and> 0x14 \<le> d ! 0 \<and> d ! 0 \<le> 0x17 \<and> d ! 1 = 0x03 \<and> d ! 2 \<le> 0x04"

definition mentions_upgrade :: "bytes \<Rightarrow> bool" where
  "mentions_upgrade d \<longleftrightarrow>
     contains_ascii_case_insensitive d (bytes_of ''upgrade:'')
   \<or> contains_ascii_case_insensitive d (bytes_of ''connection: upgrade'')"

text \<open>The HTTP/2 transactions of a flow that starts with the connection preface.\<close>

definition classify_http2 :: "'d hpack \<Rightarrow> 'd \<Rightarrow> bytes \<Rightarrow> bytes \<Rightarrow> exclusions \<Rightarrow> exclusions \<times> http2_transaction list" where
  "classify_http2 decode dec0 c2s s2c ex =
     (if starts_with c2s h2_preface then
        case extract_http2_transactions decode dec0 c2s s2c of
          Some ts \<Rightarrow> (ex, ts)
        | None \<Rightarrow> (ex\<lparr>ex_unsupported_http2_flows := ex_unsupported_http2_flows ex + 1\<rparr>, [])
      else (ex, []))"

definition classify_http1 :: "bytes \<Rightarrow> bytes \<Rightarrow> exclusions \<Rightarrow> exclusions \<times> http_transaction list" where
  "classify_http1 c2s s2c ex =
     (case extract_http_transactions c2s s2c of
        Some ts \<Rightarrow> (ex, ts)
      | None \<Rightarrow>
          if \<not> starts_with c2s (bytes_of ''HTTP/'') \<and> find_sub (bytes_of '' HTTP/'') c2s = None
          then (ex\<lparr>ex_non_http_flows := ex_non_http_flows ex + 1\<rparr>, [])
          else if mentions_upgrade c2s \<or> mentions_upgrade s2c
          then (ex\<lparr>ex_http_upgrade_flows := ex_http_upgrade_flows ex + 1\<rparr>, [])
          else (ex\<lparr>ex_unsupported_http_flows := ex_unsupported_http_flows ex + 1\<rparr>, []))"

text \<open>One flow: counted as incomplete or encrypted, or reported.\<close>

definition finish_flow :: "'d hpack \<Rightarrow> 'd \<Rightarrow> flow_key \<Rightarrow> segments \<Rightarrow> capture_analysis \<Rightarrow> capture_analysis" where
  "finish_flow decode dec0 key parts a =
     (let (c2s, client_dup, client_gap) = reassemble (sg_client parts);
          (s2c, server_dup, server_gap) = reassemble (sg_server parts);
          ex = ca_exclusions a
      in if c2s = [] \<or> s2c = [] \<or> client_gap \<or> server_gap then
           a\<lparr>ca_exclusions := ex\<lparr>ex_incomplete_flows := ex_incomplete_flows ex + 1\<rparr>\<rparr>
         else if looks_like_tls c2s \<or> looks_like_tls s2c then
           a\<lparr>ca_exclusions := ex\<lparr>ex_encrypted_tls_flows := ex_encrypted_tls_flows ex + 1\<rparr>\<rparr>
         else
           let (ex, http2) = classify_http2 decode dec0 c2s s2c ex;
               (ex, http1) = (if http2 \<noteq> [] then (ex, []) else classify_http1 c2s s2c ex)
           in a\<lparr>ca_exclusions := ex,
                ca_flows := ca_flows a @
                  [\<lparr>rf_key = key, rf_client_to_server = c2s, rf_server_to_client = s2c,
                    rf_retransmitted_bytes = sg_duplicate_bytes parts + client_dup + server_dup,
                    rf_turns = build_turns (sg_events parts), rf_http_transactions = http1,
                    rf_http2_transactions = http2\<rparr>]\<rparr>)"

fun finish_flows :: "'d hpack \<Rightarrow> 'd \<Rightarrow> flow_key list \<Rightarrow> (flow_key \<Rightarrow> segments option) \<Rightarrow> capture_analysis
    \<Rightarrow> capture_analysis" where
  "finish_flows decode dec0 [] segs a = a"
| "finish_flows decode dec0 (key # order) segs a =
     finish_flows decode dec0 order (segs(key := None))
       (finish_flow decode dec0 key (case segs key of None \<Rightarrow> segments_default | Some s \<Rightarrow> s) a)"

section \<open>The container formats\<close>

text \<open>What the record loops accumulate: packets and bytes counted, and the table of flows.\<close>

record parse_state =
  ps_packet_count :: u64
  ps_captured_bytes :: u64
  ps_table :: flow_table

definition parse_state_empty :: parse_state where
  "parse_state_empty = \<lparr>ps_packet_count = 0, ps_captured_bytes = 0, ps_table = flow_table_empty\<rparr>"

definition count_packet :: "u32 \<Rightarrow> parse_state \<Rightarrow> parse_state" where
  "count_packet original st =
     st\<lparr>ps_packet_count := ps_packet_count st + 1,
        ps_captured_bytes := ps_captured_bytes st + ucast original\<rparr>"

definition add_frame :: "u32 \<Rightarrow> bytes \<Rightarrow> parse_state \<Rightarrow> parse_state" where
  "add_frame original frame st =
     (let st = count_packet original st in st\<lparr>ps_table := parse_ethernet frame (ps_table st)\<rparr>)"

definition finish_analysis :: "'d hpack \<Rightarrow> 'd \<Rightarrow> parse_state \<Rightarrow> capture_analysis" where
  "finish_analysis decode dec0 st =
     finish_flows decode dec0 (ft_order (ps_table st)) (ft_flows (ps_table st))
       \<lparr>ca_packet_count = ps_packet_count st, ca_captured_bytes = ps_captured_bytes st, ca_flows = [],
        ca_exclusions = ft_excluded (ps_table st)\<rparr>"

function pcap_records :: "(bytes \<Rightarrow> u32) \<Rightarrow> bytes \<Rightarrow> nat \<Rightarrow> parse_state \<Rightarrow> capture_error + parse_state" where
  "pcap_records u32_at d offset st =
     (if length d \<le> offset then Inr st
      else if length d < offset + 16 then Inl Truncated
      else
        let included = unat (u32_at (slice (offset + 8) (offset + 12) d));
            original = u32_at (slice (offset + 12) (offset + 16) d)
        in if length d < offset + 16 + included then Inl Truncated
           else pcap_records u32_at d (offset + 16 + included)
                  (add_frame original (slice (offset + 16) (offset + 16 + included) d) st))"
  by pat_completeness auto
termination
  by (relation "measure (\<lambda>(u32_at, d, offset, st). length d - offset)") auto

declare pcap_records.simps [simp del]

definition analyze_pcap :: "'d hpack \<Rightarrow> 'd \<Rightarrow> bytes \<Rightarrow> capture_error + capture_analysis" where
  "analyze_pcap decode dec0 d =
     (if length d < 24 then Inl Truncated
      else
        let magic = take 4 d;
            little = (magic = [0xd4, 0xc3, 0xb2, 0xa1] \<or> magic = [0x4d, 0x3c, 0xb2, 0xa1]);
            big = (magic = [0xa1, 0xb2, 0xc3, 0xd4] \<or> magic = [0xa1, 0xb2, 0x3c, 0x4d]);
            u32_at = (if little then from_le else from_be);
            link_type = u32_at (slice 20 24 d)
        in if \<not> little \<and> \<not> big then Inl UnsupportedFormat
           else if link_type \<noteq> 1 then Inl (UnsupportedLinkType link_type)
           else bind_res (pcap_records u32_at d 24 parse_state_empty)
                  (\<lambda>st. Inr (finish_analysis decode dec0 st)))"

text \<open>One block of a pcapng file, of type \<open>block_type\<close> and \<open>len\<close> bytes long.\<close>

definition pcapng_block :: "(bytes \<Rightarrow> u16) \<Rightarrow> (bytes \<Rightarrow> u32) \<Rightarrow> bytes \<Rightarrow> nat \<Rightarrow> u32 \<Rightarrow> nat
    \<Rightarrow> u32 list \<times> parse_state \<Rightarrow> capture_error + (u32 list \<times> parse_state)" where
  "pcapng_block read_u16 read_u32 d offset block_type len x =
     (let (interfaces, st) = x
      in if block_type = 1 \<and> 20 \<le> len then
           Inr (interfaces @ [ucast (read_u16 (slice (offset + 8) (offset + 10) d))], st)
         else if block_type = 6 \<and> 32 \<le> len then
           let ifc = unat (read_u32 (slice (offset + 8) (offset + 12) d));
               captured = unat (read_u32 (slice (offset + 20) (offset + 24) d));
               original = read_u32 (slice (offset + 24) (offset + 28) d)
           in if len < 28 + captured + 4 then Inl Truncated
              else if ifc < length interfaces \<and> interfaces ! ifc = 1 then
                Inr (interfaces, add_frame original (slice (offset + 28) (offset + 28 + captured) d) st)
              else
                let st = count_packet original st;
                    t = ps_table st
                in Inr (interfaces, st\<lparr>ps_table := t\<lparr>ft_excluded := unsupported_link (ft_excluded t)\<rparr>\<rparr>)
         else Inr x)"

function pcapng_blocks :: "(bytes \<Rightarrow> u16) \<Rightarrow> (bytes \<Rightarrow> u32) \<Rightarrow> bytes \<Rightarrow> nat \<Rightarrow> u32 list \<times> parse_state
    \<Rightarrow> capture_error + parse_state" where
  "pcapng_blocks read_u16 read_u32 d offset x =
     (if length d \<le> offset then Inr (snd x)
      else if length d < offset + 12 then Inl Truncated
      else
        let block_type = read_u32 (slice offset (offset + 4) d);
            len = unat (read_u32 (slice (offset + 4) (offset + 8) d))
        in if len < 12 \<or> len mod 4 \<noteq> 0 \<or> length d < offset + len then Inl Truncated
           else if unat (read_u32 (slice (offset + len - 4) (offset + len) d)) \<noteq> len then Inl Truncated
           else case pcapng_block read_u16 read_u32 d offset block_type len x of
             Inl e \<Rightarrow> Inl e
           | Inr x \<Rightarrow> pcapng_blocks read_u16 read_u32 d (offset + len) x)"
  by pat_completeness auto
termination
  by (relation "measure (\<lambda>(read_u16, read_u32, d, offset, x). length d - offset)") auto

declare pcapng_blocks.simps [simp del]

definition analyze_pcapng :: "'d hpack \<Rightarrow> 'd \<Rightarrow> bytes \<Rightarrow> capture_error + capture_analysis" where
  "analyze_pcapng decode dec0 d =
     (if length d < 28 \<or> \<not> starts_with d [0x0a, 0x0d, 0x0d, 0x0a] then Inl UnsupportedFormat
      else
        let bom = slice 8 12 d;
            little = (bom = [0x4d, 0x3c, 0x2b, 0x1a])
        in if \<not> little \<and> bom \<noteq> [0x1a, 0x2b, 0x3c, 0x4d] then Inl UnsupportedFormat
           else bind_res
                  (pcapng_blocks (if little then from_le else from_be) (if little then from_le else from_be)
                    d 0 ([], parse_state_empty))
                  (\<lambda>st. Inr (finish_analysis decode dec0 st)))"

definition analyze_capture :: "'d hpack \<Rightarrow> 'd \<Rightarrow> bytes \<Rightarrow> capture_error + (capture_format \<times> capture_analysis)" where
  "analyze_capture decode dec0 d =
     (if starts_with d [0x0a, 0x0d, 0x0d, 0x0a]
      then bind_res (analyze_pcapng decode dec0 d) (\<lambda>a. Inr (PcapNg, a))
      else bind_res (analyze_pcap decode dec0 d) (\<lambda>a. Inr (Pcap, a)))"

section \<open>What finishing reports\<close>

definition analysis_zero :: capture_analysis where
  "analysis_zero = \<lparr>ca_packet_count = 0, ca_captured_bytes = 0, ca_flows = [], ca_exclusions = exclusions_default\<rparr>"

lemma snd_classify_http2: "snd (classify_http2 decode dec0 c2s s2c ex) = snd (classify_http2 decode dec0 c2s s2c ex')"
  by (simp add: classify_http2_def split: option.split)

lemma snd_classify_http1: "snd (classify_http1 c2s s2c ex) = snd (classify_http1 c2s s2c ex')"
  by (simp add: classify_http1_def split: option.split)

text \<open>The flow a key is reported as, if it is: it does not depend on what was counted before.\<close>

definition flow_report :: "'d hpack \<Rightarrow> 'd \<Rightarrow> flow_key \<Rightarrow> segments \<Rightarrow> reassembled_flow list" where
  "flow_report decode dec0 key parts = ca_flows (finish_flow decode dec0 key parts analysis_zero)"

lemma finish_flow_flows:
  "ca_flows (finish_flow decode dec0 key parts a) = ca_flows a @ flow_report decode dec0 key parts"
proof -
  obtain c2s cd cg where c: "reassemble (sg_client parts) = (c2s, cd, cg)" by (cases "reassemble (sg_client parts)")
  obtain s2c sd sg where s: "reassemble (sg_server parts) = (s2c, sd, sg)" by (cases "reassemble (sg_server parts)")
  let ?h2 = "\<lambda>a. classify_http2 decode dec0 c2s s2c (ca_exclusions a)"
  obtain ex h2 where h: "?h2 a = (ex, h2)" by (cases "?h2 a")
  obtain ex' h2' where h': "?h2 analysis_zero = (ex', h2')" by (cases "?h2 analysis_zero")
  have "h2' = h2" using snd_classify_http2 [of decode dec0 c2s s2c "ca_exclusions a"] h h' by (metis snd_conv)
  moreover obtain ey h1 where k: "classify_http1 c2s s2c ex = (ey, h1)" by (cases "classify_http1 c2s s2c ex")
  moreover obtain ey' h1' where k': "classify_http1 c2s s2c ex' = (ey', h1')" by (cases "classify_http1 c2s s2c ex'")
  moreover have "h1' = h1" using snd_classify_http1 [of c2s s2c ex] k k' by (metis snd_conv)
  ultimately show ?thesis
    using h h' by (simp add: flow_report_def finish_flow_def c s analysis_zero_def Let_def)
qed

lemma finish_flows_flows:
  "distinct order \<Longrightarrow> ca_flows (finish_flows decode dec0 order segs a)
   = ca_flows a @ concat (map (\<lambda>k. flow_report decode dec0 k
       (case segs k of None \<Rightarrow> segments_default | Some s \<Rightarrow> s)) order)"
proof (induction decode dec0 order segs a rule: finish_flows.induct)
  case (2 decode dec0 key order segs a)
  have *: "map (\<lambda>k. flow_report decode dec0 k (case (segs(key := None)) k of None \<Rightarrow> segments_default | Some s \<Rightarrow> s)) order
      = map (\<lambda>k. flow_report decode dec0 k (case segs k of None \<Rightarrow> segments_default | Some s \<Rightarrow> s)) order"
    using "2.prems" by (intro map_cong refl) auto
  have "ca_flows (finish_flows decode dec0 (key # order) segs a)
      = ca_flows (finish_flow decode dec0 key (case segs key of None \<Rightarrow> segments_default | Some s \<Rightarrow> s) a)
        @ concat (map (\<lambda>k. flow_report decode dec0 k
            (case (segs(key := None)) k of None \<Rightarrow> segments_default | Some s \<Rightarrow> s)) order)"
    unfolding finish_flows.simps using "2.prems" by (intro "2.IH") simp
  then show ?case unfolding * by (simp add: finish_flow_flows)
qed simp

lemma flow_report_cases:
  assumes "f \<in> set (flow_report decode dec0 key parts)"
  obtains cd sd where "rf_key f = key"
    and "reassemble (sg_client parts) = (rf_client_to_server f, cd, False)"
    and "reassemble (sg_server parts) = (rf_server_to_client f, sd, False)"
    and "rf_client_to_server f \<noteq> []" and "rf_server_to_client f \<noteq> []"
    and "\<not> looks_like_tls (rf_client_to_server f)" and "\<not> looks_like_tls (rf_server_to_client f)"
    and "rf_retransmitted_bytes f = sg_duplicate_bytes parts + cd + sd"
    and "rf_turns f = build_turns (sg_events parts)"
    and "rf_http_transactions f = [] \<or>
      extract_http_transactions (rf_client_to_server f) (rf_server_to_client f) = Some (rf_http_transactions f)"
    and "rf_http2_transactions f = [] \<or>
      extract_http2_transactions decode dec0 (rf_client_to_server f) (rf_server_to_client f) = Some (rf_http2_transactions f)"
proof -
  obtain c2s cd cg where c: "reassemble (sg_client parts) = (c2s, cd, cg)" by (cases "reassemble (sg_client parts)")
  obtain s2c sd sg where s: "reassemble (sg_server parts) = (s2c, sd, sg)" by (cases "reassemble (sg_server parts)")
  obtain ex h2 where h: "classify_http2 decode dec0 c2s s2c exclusions_default = (ex, h2)"
    by (cases "classify_http2 decode dec0 c2s s2c exclusions_default")
  obtain ey h1 where k: "classify_http1 c2s s2c ex = (ey, h1)" by (cases "classify_http1 c2s s2c ex")
  define h1' where "h1' = (if h2 = [] then h1 else [])"
  have f: "c2s \<noteq> []" "s2c \<noteq> []" "\<not> cg" "\<not> sg" "\<not> looks_like_tls c2s" "\<not> looks_like_tls s2c"
    "f = \<lparr>rf_key = key, rf_client_to_server = c2s, rf_server_to_client = s2c,
      rf_retransmitted_bytes = sg_duplicate_bytes parts + cd + sd, rf_turns = build_turns (sg_events parts),
      rf_http_transactions = h1', rf_http2_transactions = h2\<rparr>"
    using assms by (auto simp: flow_report_def finish_flow_def analysis_zero_def c s h k h1'_def Let_def
        split: if_splits)
  have h2: "h2 = [] \<or> extract_http2_transactions decode dec0 c2s s2c = Some h2"
    using h by (auto simp: classify_http2_def split: if_splits option.splits)
  have "h1 = [] \<or> extract_http_transactions c2s s2c = Some h1"
    using k by (auto simp: classify_http1_def split: if_splits option.splits)
  then have h1: "h1' = [] \<or> extract_http_transactions c2s s2c = Some h1'" by (auto simp: h1'_def)
  show thesis by (rule that [of cd sd]) (use f h1 h2 c s in simp_all)
qed

lemma flow_report_length: "length (flow_report decode dec0 key parts) \<le> 1"
  by (simp add: flow_report_def finish_flow_def analysis_zero_def Let_def split: prod.split)

lemma flow_report_keys: "map rf_key (flow_report decode dec0 key parts) = (if flow_report decode dec0 key parts = [] then [] else [key])"
proof (cases "flow_report decode dec0 key parts")
  case (Cons f fs)
  then have "fs = []" using flow_report_length [of decode dec0 key parts] by simp
  moreover have "rf_key f = key"
    using flow_report_cases [of f decode dec0 key parts] Cons by auto
  ultimately show ?thesis using Cons by simp
qed simp

text \<open>Every flow is reported, incomplete or encrypted; the other counters concern reported flows.\<close>

lemma classify_keeps:
  "ex_incomplete_flows (fst (classify_http2 decode dec0 c2s s2c ex)) = ex_incomplete_flows ex"
  "ex_encrypted_tls_flows (fst (classify_http2 decode dec0 c2s s2c ex)) = ex_encrypted_tls_flows ex"
  "ex_incomplete_flows (fst (classify_http1 c2s s2c ex)) = ex_incomplete_flows ex"
  "ex_encrypted_tls_flows (fst (classify_http1 c2s s2c ex)) = ex_encrypted_tls_flows ex"
  by (simp_all add: classify_http2_def classify_http1_def split: option.split)

definition accounted :: "capture_analysis \<Rightarrow> u64" where
  "accounted a = of_nat (length (ca_flows a)) + ex_incomplete_flows (ca_exclusions a)
     + ex_encrypted_tls_flows (ca_exclusions a)"

lemma finish_flow_accounted: "accounted (finish_flow decode dec0 key parts a) = accounted a + 1"
proof -
  obtain c2s cd cg where c: "reassemble (sg_client parts) = (c2s, cd, cg)" by (cases "reassemble (sg_client parts)")
  obtain s2c sd sg where s: "reassemble (sg_server parts) = (s2c, sd, sg)" by (cases "reassemble (sg_server parts)")
  obtain ex h2 where h: "classify_http2 decode dec0 c2s s2c (ca_exclusions a) = (ex, h2)"
    by (cases "classify_http2 decode dec0 c2s s2c (ca_exclusions a)")
  obtain ey h1 where k: "classify_http1 c2s s2c ex = (ey, h1)" by (cases "classify_http1 c2s s2c ex")
  have "ex_incomplete_flows ex = ex_incomplete_flows (ca_exclusions a)"
    "ex_encrypted_tls_flows ex = ex_encrypted_tls_flows (ca_exclusions a)"
    using classify_keeps(1,2) [of decode dec0 c2s s2c "ca_exclusions a"] by (simp_all add: h)
  moreover have "ex_incomplete_flows ey = ex_incomplete_flows ex" "ex_encrypted_tls_flows ey = ex_encrypted_tls_flows ex"
    using classify_keeps(3,4) [of c2s s2c ex] by (simp_all add: k)
  ultimately show ?thesis
    by (auto simp: finish_flow_def accounted_def c s h k Let_def)
qed

lemma finish_flows_accounted:
  "accounted (finish_flows decode dec0 order segs a) = accounted a + of_nat (length order)"
  by (induction decode dec0 order segs a rule: finish_flows.induct)
    (simp_all add: finish_flow_accounted del: fun_upd_apply)

section \<open>The flow table at the end of a file\<close>

lemma add_frame_inv: "flow_table_inv (ps_table st) \<Longrightarrow> flow_table_inv (ps_table (add_frame original frame st))"
  by (simp add: add_frame_def count_packet_def parse_ethernet_inv)

lemma pcap_records_inv:
  "pcap_records u32_at d offset st = Inr st' \<Longrightarrow> flow_table_inv (ps_table st) \<Longrightarrow> flow_table_inv (ps_table st')"
proof (induction u32_at d offset st rule: pcap_records.induct)
  case (1 u32_at d offset st)
  show ?case
  proof (cases "length d \<le> offset")
    case True
    with 1 show ?thesis by (simp add: pcap_records.simps)
  next
    case False
    with 1 show ?thesis by (subst (asm) (2) pcap_records.simps) (auto simp: Let_def add_frame_inv split: if_splits)
  qed
qed

lemma unsupported_link_inv:
  "flow_table_inv t \<Longrightarrow> flow_table_inv (t\<lparr>ft_excluded := unsupported_link (ft_excluded t)\<rparr>)"
  by (rule flow_table_inv_excluded) (simp_all add: flow_table_inv_def)

lemma pcapng_block_inv:
  "pcapng_block read_u16 read_u32 d offset block_type len x = Inr x' \<Longrightarrow> flow_table_inv (ps_table (snd x))
   \<Longrightarrow> flow_table_inv (ps_table (snd x'))"
  by (auto simp: pcapng_block_def Let_def add_frame_inv count_packet_def unsupported_link_inv split: if_splits prod.splits)

lemma pcapng_blocks_inv:
  "pcapng_blocks read_u16 read_u32 d offset x = Inr st' \<Longrightarrow> flow_table_inv (ps_table (snd x))
   \<Longrightarrow> flow_table_inv (ps_table st')"
proof (induction read_u16 read_u32 d offset x rule: pcapng_blocks.induct)
  case (1 read_u16 read_u32 d offset x)
  show ?case
  proof (cases "length d \<le> offset")
    case True
    with 1 show ?thesis by (simp add: pcapng_blocks.simps)
  next
    case False
    with 1 show ?thesis
      by (subst (asm) (2) pcapng_blocks.simps)
        (auto simp: Let_def split: if_splits sum.splits dest: pcapng_block_inv)
  qed
qed

lemma parse_state_empty_inv [simp]: "flow_table_inv (ps_table parse_state_empty)"
  by (simp add: parse_state_empty_def)

lemma analyze_pcap_state:
  "analyze_pcap decode dec0 d = Inr a \<Longrightarrow>
     \<exists>u st. pcap_records u d 24 parse_state_empty = Inr st \<and> a = finish_analysis decode dec0 st"
  by (auto simp: analyze_pcap_def Let_def split: if_splits)

lemma analyze_pcapng_state:
  "analyze_pcapng decode dec0 d = Inr a \<Longrightarrow>
     \<exists>u v st. pcapng_blocks u v d 0 ([], parse_state_empty) = Inr st \<and> a = finish_analysis decode dec0 st"
  by (auto simp: analyze_pcapng_def Let_def split: if_splits)

lemma analyze_capture_state:
  assumes "analyze_capture decode dec0 d = Inr (fmt, a)"
  obtains st where "flow_table_inv (ps_table st)" and "a = finish_analysis decode dec0 st"
proof (cases "starts_with d [0x0a, 0x0d, 0x0d, 0x0a]")
  case True
  with assms have "analyze_pcapng decode dec0 d = Inr a" by (auto simp: analyze_capture_def)
  from analyze_pcapng_state [OF this] that pcapng_blocks_inv [of _ _ d 0 "([], parse_state_empty)"]
  show thesis by auto
next
  case False
  with assms have "analyze_pcap decode dec0 d = Inr a" by (auto simp: analyze_capture_def)
  from analyze_pcap_state [OF this] that pcap_records_inv [of _ d 24 parse_state_empty]
  show thesis by auto
qed

end
