(* ===== verification/Capture_Formats.thy ===== *)
theory Capture_Formats
  imports Capture
begin

text \<open>
  Writers of both capture formats, as the specification the readers are checked against: a
  sequence of frames written in either format and either byte order is read back as the fold of
  \<open>add_frame\<close> over the frames, and a file cut inside its last record is refused.
\<close>

section \<open>Writers\<close>

text \<open>A captured frame: eight bytes of timestamp, the original length, and the bytes kept.\<close>

type_synonym captured = "bytes \<times> u32 \<times> bytes"

definition captured_ok :: "captured \<Rightarrow> bool" where
  "captured_ok c \<longleftrightarrow> length (fst c) = 8 \<and> length (snd (snd c)) < 2 ^ 31"

definition pcap_record :: "(u32 \<Rightarrow> bytes) \<Rightarrow> captured \<Rightarrow> bytes" where
  "pcap_record wr32 c =
     (case c of (stamp, original, frame) \<Rightarrow>
        stamp @ wr32 (of_nat (length frame)) @ wr32 original @ frame)"

definition pcap_file :: "(u32 \<Rightarrow> bytes) \<Rightarrow> bytes \<Rightarrow> bytes \<Rightarrow> captured list \<Rightarrow> bytes" where
  "pcap_file wr32 magic versions cs = magic @ versions @ wr32 1 @ concat (map (pcap_record wr32) cs)"

definition padding :: "nat \<Rightarrow> nat" where
  "padding n = (4 - n mod 4) mod 4"

definition packet_block :: "(u32 \<Rightarrow> bytes) \<Rightarrow> captured \<Rightarrow> bytes" where
  "packet_block wr32 c =
     (case c of (stamp, original, frame) \<Rightarrow>
        let len = of_nat (32 + length frame + padding (length frame))
        in wr32 6 @ wr32 len @ wr32 0 @ stamp @ wr32 (of_nat (length frame)) @ wr32 original
           @ frame @ replicate (padding (length frame)) 0 @ wr32 len)"

definition pcapng_file :: "(u16 \<Rightarrow> bytes) \<Rightarrow> (u32 \<Rightarrow> bytes) \<Rightarrow> bytes \<Rightarrow> bytes \<Rightarrow> captured list \<Rightarrow> bytes" where
  "pcapng_file wr16 wr32 bom section_rest cs =
     ([0x0a, 0x0d, 0x0d, 0x0a] @ wr32 28 @ bom @ section_rest @ wr32 28)
   @ (wr32 1 @ wr32 20 @ wr16 1 @ wr16 0 @ wr32 0 @ wr32 20)
   @ concat (map (packet_block wr32) cs)"

definition add_captured :: "captured \<Rightarrow> parse_state \<Rightarrow> parse_state" where
  "add_captured c = add_frame (fst (snd c)) (snd (snd c))"

definition analysis_of :: "'d hpack \<Rightarrow> 'd \<Rightarrow> captured list \<Rightarrow> capture_analysis" where
  "analysis_of decode dec0 cs = finish_analysis decode dec0 (fold add_captured cs parse_state_empty)"

lemma padding_mod [simp]: "(32 + n + padding n) mod 4 = 0"
proof -
  have "n mod 4 < 4" by simp
  then consider "n mod 4 = 0" | "n mod 4 = 1" | "n mod 4 = 2" | "n mod 4 = 3" by linarith
  then show ?thesis by cases (auto simp: padding_def, presburger+)
qed

lemma padding_less: "padding n < 4"
  by (simp add: padding_def)

section \<open>The readers undo the writers\<close>

lemma unat_of_nat32: "n < 2 ^ 32 \<Longrightarrow> unat (of_nat n :: u32) = n"
  by (simp add: unat_of_nat)

lemma slice_at: "length pre = a \<Longrightarrow> length mid = b - a \<Longrightarrow> slice a b (pre @ mid @ post) = mid"
  by (simp add: slice_def)

lemma pcap_records_end: "length d \<le> offset \<Longrightarrow> pcap_records u32_at d offset st = Inr st"
  by (simp add: pcap_records.simps)

context byte_order
begin

lemma pcap_record_step:
  assumes "captured_ok c"
  shows "pcap_records rd32 (pre @ pcap_record wr32 c @ post) (length pre) st
       = pcap_records rd32 (pre @ pcap_record wr32 c @ post) (length (pre @ pcap_record wr32 c)) (add_captured c st)"
proof -
  obtain stamp original frame where c: "c = (stamp, original, frame)" by (cases c)
  have len: "length stamp = 8" "length frame < 2 ^ 32" using assms by (simp_all add: captured_ok_def c)
  let ?d = "pre @ pcap_record wr32 c @ post"
  have inc: "slice (length pre + 8) (length pre + 12) ?d = wr32 (of_nat (length frame))"
    using slice_at [of "pre @ stamp" "length pre + 8" "wr32 (of_nat (length frame))" "length pre + 12"
        "wr32 original @ frame @ post"] len by (simp add: c pcap_record_def)
  have orig: "slice (length pre + 12) (length pre + 16) ?d = wr32 original"
    using slice_at [of "pre @ stamp @ wr32 (of_nat (length frame))" "length pre + 12" "wr32 original"
        "length pre + 16" "frame @ post"] len by (simp add: c pcap_record_def)
  have fr: "slice (length pre + 16) (length pre + 16 + length frame) ?d = frame"
    using slice_at [of "pre @ stamp @ wr32 (of_nat (length frame)) @ wr32 original" "length pre + 16" frame
        "length pre + 16 + length frame" post] len by (simp add: c pcap_record_def)
  have total: "length (pre @ pcap_record wr32 c) = length pre + 16 + length frame"
    using len by (simp add: c pcap_record_def)
  show ?thesis
    unfolding total using len inc orig fr
    by (subst pcap_records.simps)
      (simp add: Let_def unat_of_nat32 add_captured_def c pcap_record_def)
qed

lemma pcap_records_written:
  "\<forall>c\<in>set cs. captured_ok c \<Longrightarrow>
     pcap_records rd32 (pre @ concat (map (pcap_record wr32) cs) @ post) (length pre) st
   = pcap_records rd32 (pre @ concat (map (pcap_record wr32) cs) @ post)
       (length (pre @ concat (map (pcap_record wr32) cs))) (fold add_captured cs st)"
proof (induction cs arbitrary: pre st)
  case (Cons c cs)
  have "captured_ok c" using Cons.prems by simp
  from pcap_record_step [OF this, of pre "concat (map (pcap_record wr32) cs) @ post" st]
    Cons.IH [of "pre @ pcap_record wr32 c" "add_captured c st"] Cons.prems
  show ?case by simp
qed simp

lemma pcap_records_cut:
  assumes "captured_ok c" and "0 < n" and "n < length (pcap_record wr32 c)"
  shows "pcap_records rd32 (pre @ take n (pcap_record wr32 c)) (length pre) st = Inl Truncated"
proof -
  obtain stamp original frame where c: "c = (stamp, original, frame)" by (cases c)
  have len: "length stamp = 8" "length frame < 2 ^ 32" using assms by (simp_all add: captured_ok_def c)
  show ?thesis
  proof (cases "n < 16")
    case True
    then show ?thesis using assms(2,3) by (subst pcap_records.simps) simp
  next
    case False
    then have t: "take n (pcap_record wr32 c)
        = stamp @ wr32 (of_nat (length frame)) @ wr32 original @ take (n - 16) frame"
      using len by (simp add: c pcap_record_def take_append)
    have "slice (length pre + 8) (length pre + 12) (pre @ take n (pcap_record wr32 c)) = wr32 (of_nat (length frame))"
      using slice_at [of "pre @ stamp" "length pre + 8" "wr32 (of_nat (length frame))" "length pre + 12"
        "wr32 original @ take (n - 16) frame"] len unfolding t by simp
    moreover have "n < 16 + length frame" using assms(3) len by (simp add: c pcap_record_def)
    ultimately show ?thesis
      using assms(2,3) len False
      by (subst pcap_records.simps) (simp add: Let_def unat_of_nat32)
  qed
qed

lemma packet_block_step:
  assumes "captured_ok c"
  shows "pcapng_blocks rd16 rd32 (pre @ packet_block wr32 c @ post) (length pre) ([1], st)
       = pcapng_blocks rd16 rd32 (pre @ packet_block wr32 c @ post) (length (pre @ packet_block wr32 c))
           ([1], add_captured c st)"
proof -
  obtain stamp original frame where c: "c = (stamp, original, frame)" by (cases c)
  define len where "len = 32 + length frame + padding (length frame)"
  have b: "length stamp = 8" "length frame < 2 ^ 31" using assms by (simp_all add: captured_ok_def c)
  then have len: "len < 2 ^ 32" using padding_less [of "length frame"] by (simp add: len_def)
  have fr32: "length frame < 2 ^ 32" using b(2) by simp
  define w where "w = (of_nat len :: u32)"
  have w: "unat w = len" unfolding w_def by (rule unat_of_nat32 [OF len])
  let ?pad = "replicate (padding (length frame)) (0 :: u8)"
  let ?d = "pre @ packet_block wr32 c @ post"
  have blk: "packet_block wr32 c = wr32 6 @ wr32 w @ wr32 0 @ stamp @ wr32 (of_nat (length frame))
      @ wr32 original @ frame @ ?pad @ wr32 w"
    unfolding c packet_block_def prod.case Let_def w_def len_def ..
  have total: "length (packet_block wr32 c) = len" using b by (simp add: blk len_def)
  have s0: "slice (length pre) (length pre + 4) ?d = wr32 6"
    unfolding blk append_assoc by (rule slice_at) simp_all
  have s4: "slice (length pre + 4) (length pre + 8) ?d = wr32 w"
    using slice_at [of "pre @ wr32 6" "length pre + 4" "wr32 w" "length pre + 8"] by (simp add: blk)
  have s8: "slice (length pre + 8) (length pre + 12) ?d = wr32 0"
    using slice_at [of "pre @ wr32 6 @ wr32 w" "length pre + 8" "wr32 0" "length pre + 12"] by (simp add: blk)
  have s20: "slice (length pre + 20) (length pre + 24) ?d = wr32 (of_nat (length frame))"
    using slice_at [of "pre @ wr32 6 @ wr32 w @ wr32 0 @ stamp" "length pre + 20"
        "wr32 (of_nat (length frame))" "length pre + 24"] b by (simp add: blk)
  have s24: "slice (length pre + 24) (length pre + 28) ?d = wr32 original"
    using slice_at [of "pre @ wr32 6 @ wr32 w @ wr32 0 @ stamp @ wr32 (of_nat (length frame))"
        "length pre + 24" "wr32 original" "length pre + 28"] b by (simp add: blk)
  have s28: "slice (length pre + 28) (length pre + 28 + length frame) ?d = frame"
    using slice_at [of "pre @ wr32 6 @ wr32 w @ wr32 0 @ stamp @ wr32 (of_nat (length frame)) @ wr32 original"
        "length pre + 28" frame "length pre + 28 + length frame"] b by (simp add: blk)
  have send: "slice (length pre + len - 4) (length pre + len) ?d = wr32 w"
    using slice_at [of "pre @ wr32 6 @ wr32 w @ wr32 0 @ stamp @ wr32 (of_nat (length frame)) @ wr32 original
        @ frame @ ?pad" "length pre + len - 4" "wr32 w" "length pre + len"] b by (simp add: blk len_def)
  have blk_result: "pcapng_block rd16 rd32 ?d (length pre) 6 len ([1], st) = Inr ([1], add_captured c st)"
    unfolding pcapng_block_def Let_def prod.case s8 s20 s24 rd32_wr32 unat_of_nat32 [OF fr32] s28
    by (simp add: len_def add_captured_def c)
  have m: "len mod 4 = 0" unfolding len_def by (rule padding_mod)
  have ge: "32 \<le> len" by (simp add: len_def)
  have bound: "\<not> length ?d \<le> length pre" "\<not> length ?d < length pre + 12" "\<not> length ?d < length pre + len"
    using ge by (simp_all add: total)
  have "pcapng_blocks rd16 rd32 ?d (length pre) ([1], st)
      = pcapng_blocks rd16 rd32 ?d (length pre + len) ([1], add_captured c st)"
    by (subst pcapng_blocks.simps, unfold Let_def s0 s4 rd32_wr32 w send blk_result)
      (use m ge in \<open>simp only: bound if_False sum.case not_less simp_thms if_True\<close>, simp)
  then show ?thesis by (simp only: length_append total)
qed

lemma pcapng_blocks_written:
  "\<forall>c\<in>set cs. captured_ok c \<Longrightarrow>
     pcapng_blocks rd16 rd32 (pre @ concat (map (packet_block wr32) cs)) (length pre) ([1], st)
   = Inr (fold add_captured cs st)"
proof (induction cs arbitrary: pre st)
  case Nil
  then show ?case by (simp add: pcapng_blocks.simps)
next
  case (Cons c cs)
  have "captured_ok c" using Cons.prems by simp
  from packet_block_step [OF this, of pre "concat (map (packet_block wr32) cs)" st]
    Cons.IH [of "pre @ packet_block wr32 c" "add_captured c st"] Cons.prems
  show ?case by simp
qed

text \<open>The section header and the description of the one Ethernet interface.\<close>

lemma pcapng_head:
  assumes "length bom = 4" and "length section_rest = 12" and bt: "rd32 [0x0a, 0x0d, 0x0d, 0x0a] = 0x0a0d0d0a"
    and "\<forall>c\<in>set cs. captured_ok c"
  shows "pcapng_blocks rd16 rd32 (pcapng_file wr16 wr32 bom section_rest cs) 0 ([], st)
       = Inr (fold add_captured cs st)"
proof -
  define shb where "shb = [0x0a, 0x0d, 0x0d, 0x0a] @ wr32 28 @ bom @ section_rest @ wr32 28"
  define idb where "idb = wr32 1 @ wr32 20 @ wr16 1 @ wr16 0 @ wr32 0 @ wr32 20"
  define rest where "rest = concat (map (packet_block wr32) cs)"
  let ?d = "shb @ idb @ rest"
  have l: "length shb = 28" "length idb = 20" using assms(1,2) by (simp_all add: shb_def idb_def)
  have d: "pcapng_file wr16 wr32 bom section_rest cs = ?d"
    by (simp add: pcapng_file_def shb_def idb_def rest_def)
  have a: "slice 0 4 ?d = [0x0a, 0x0d, 0x0d, 0x0a]" "slice 4 8 ?d = wr32 28" "slice 24 28 ?d = wr32 28"
    using assms(1,2) by (simp_all add: shb_def slice_def)
  have one: "pcapng_blocks rd16 rd32 ?d 0 ([], st) = pcapng_blocks rd16 rd32 ?d 28 ([], st)"
    by (subst pcapng_blocks.simps) (simp add: l a bt pcapng_block_def)
  have b: "slice 28 32 ?d = wr32 1" "slice 32 36 ?d = wr32 20" "slice 44 48 ?d = wr32 20"
    "slice 36 38 ?d = wr16 1"
    using l by (simp_all add: idb_def slice_def)
  have two: "pcapng_blocks rd16 rd32 ?d 28 ([], st) = pcapng_blocks rd16 rd32 ?d 48 ([1], st)"
    by (subst pcapng_blocks.simps) (simp add: l b pcapng_block_def)
  have "pcapng_blocks rd16 rd32 ((shb @ idb) @ rest) (length (shb @ idb)) ([1], st) = Inr (fold add_captured cs st)"
    unfolding rest_def by (rule pcapng_blocks_written [OF assms(4)])
  then show ?thesis by (simp add: d one two l)
qed

lemma pcap_file_read:
  assumes "\<forall>c\<in>set cs. captured_ok c" and "length magic = 4" and "length versions = 16"
  shows "pcap_records rd32 (pcap_file wr32 magic versions cs) 24 st = Inr (fold add_captured cs st)"
proof -
  have p: "length (magic @ versions @ wr32 1) = 24" using assms(2,3) by simp
  have "pcap_records rd32 ((magic @ versions @ wr32 1) @ concat (map (pcap_record wr32) cs) @ []) 24 st
      = Inr (fold add_captured cs st)"
    using pcap_records_written [OF assms(1), of "magic @ versions @ wr32 1" "[]" st]
    unfolding p by (simp add: pcap_records_end del: append_assoc)
  then show ?thesis by (simp add: pcap_file_def)
qed

lemma pcap_file_cut:
  assumes "\<forall>c\<in>set cs. captured_ok c" and "captured_ok c" and "length magic = 4" and "length versions = 16"
    and "0 < n" and "n < length (pcap_record wr32 c)"
  shows "pcap_records rd32 (pcap_file wr32 magic versions cs @ take n (pcap_record wr32 c)) 24 st = Inl Truncated"
proof -
  let ?pre = "magic @ versions @ wr32 1"
  have p: "length ?pre = 24" using assms(3,4) by simp
  have "pcap_records rd32 (?pre @ concat (map (pcap_record wr32) cs) @ take n (pcap_record wr32 c)) (length ?pre) st
      = pcap_records rd32 ((?pre @ concat (map (pcap_record wr32) cs)) @ take n (pcap_record wr32 c))
          (length (?pre @ concat (map (pcap_record wr32) cs))) (fold add_captured cs st)"
    using pcap_records_written [OF assms(1), of ?pre "take n (pcap_record wr32 c)" st]
    by (simp only: append_assoc)
  also have "\<dots> = Inl Truncated" by (rule pcap_records_cut [OF assms(2,5,6)])
  finally show ?thesis unfolding p by (simp add: pcap_file_def)
qed

end

section \<open>Both formats, both byte orders\<close>

datatype endianness = LittleEndian | BigEndian

fun wr16_of :: "endianness \<Rightarrow> u16 \<Rightarrow> bytes" where
  "wr16_of LittleEndian = to_le" | "wr16_of BigEndian = to_be"

fun wr32_of :: "endianness \<Rightarrow> u32 \<Rightarrow> bytes" where
  "wr32_of LittleEndian = to_le" | "wr32_of BigEndian = to_be"

definition pcap_magic :: "endianness \<Rightarrow> bool \<Rightarrow> bytes" where
  "pcap_magic e nanos =
     (let be = (if nanos then [0xa1, 0xb2, 0x3c, 0x4d] else [0xa1, 0xb2, 0xc3, 0xd4])
      in case e of BigEndian \<Rightarrow> be | LittleEndian \<Rightarrow> rev be)"

definition pcapng_bom :: "endianness \<Rightarrow> bytes" where
  "pcapng_bom e = (case e of BigEndian \<Rightarrow> [0x1a, 0x2b, 0x3c, 0x4d] | LittleEndian \<Rightarrow> [0x4d, 0x3c, 0x2b, 0x1a])"

lemma length_pcap_magic [simp]: "length (pcap_magic e nanos) = 4"
  by (cases e) (simp_all add: pcap_magic_def)

lemma length_pcapng_bom [simp]: "length (pcapng_bom e) = 4"
  by (cases e) (simp_all add: pcapng_bom_def)

lemma length_wr32_of [simp]: "length (wr32_of e w) = 4"
  by (cases e) (simp_all add: to_le_def)

text \<open>Everything after the file header: the reader's choice of byte order is the writer's.\<close>

lemma analyze_capture_pcap:
  assumes "length versions = 16"
  shows "analyze_capture decode dec0 (pcap_magic e nanos @ versions @ wr32_of e 1 @ recs)
     = bind_res (pcap_records (case e of LittleEndian \<Rightarrow> from_le | BigEndian \<Rightarrow> from_be)
                   (pcap_magic e nanos @ versions @ wr32_of e 1 @ recs) 24 parse_state_empty)
         (\<lambda>st. Inr (Pcap, finish_analysis decode dec0 st))"
proof -
  let ?d = "pcap_magic e nanos @ versions @ wr32_of e 1 @ recs"
  have m: "take 4 ?d = pcap_magic e nanos" by simp
  have l: "slice 20 24 ?d = wr32_of e 1" using assms by (simp add: slice_def)
  have big: "from_be (to_be (1::u32)) = (1::u32)" and little: "from_le (to_le (1::u32)) = (1::u32)"
    by (rule big.rd32_wr32, rule little.rd32_wr32)
  have len: "\<not> length ?d < 24" using assms by simp
  have ng: "\<not> starts_with ?d [0x0a, 0x0d, 0x0d, 0x0a]"
    unfolding starts_with_def by (cases e) (simp_all add: pcap_magic_def)
  show ?thesis
    unfolding analyze_capture_def analyze_pcap_def Let_def m l
    using len ng big little
    by (cases e; cases nanos) (simp_all add: pcap_magic_def del: length_append append_Cons append_assoc,
        simp_all add: bind_res_def split: sum.split)
qed

lemma length_wr16_of [simp]: "length (wr16_of e w) = 2"
  by (cases e) (simp_all add: to_le_def)

lemma analyze_capture_pcapng:
  assumes "length section_rest = 12"
  shows "analyze_capture decode dec0 (pcapng_file (wr16_of e) (wr32_of e) (pcapng_bom e) section_rest cs)
     = bind_res (pcapng_blocks (case e of LittleEndian \<Rightarrow> from_le | BigEndian \<Rightarrow> from_be)
           (case e of LittleEndian \<Rightarrow> from_le | BigEndian \<Rightarrow> from_be)
           (pcapng_file (wr16_of e) (wr32_of e) (pcapng_bom e) section_rest cs) 0 ([], parse_state_empty))
         (\<lambda>st. Inr (PcapNg, finish_analysis decode dec0 st))"
proof -
  let ?d = "pcapng_file (wr16_of e) (wr32_of e) (pcapng_bom e) section_rest cs"
  have g: "starts_with ?d [0x0a, 0x0d, 0x0d, 0x0a]" by (simp add: pcapng_file_def starts_with_def)
  have len: "\<not> length ?d < 28" using assms by (simp add: pcapng_file_def)
  have bom: "slice 8 12 ?d = pcapng_bom e" by (simp add: pcapng_file_def slice_def)
  show ?thesis
    unfolding analyze_capture_def analyze_pcapng_def Let_def bom using g len
    by (cases e) (simp_all add: pcapng_bom_def, simp_all add: bind_res_def split: sum.split)
qed

lemma section_magic: "from_be [0x0a, 0x0d, 0x0d, 0x0a] = (0x0a0d0d0a :: u32)"
  "from_le [0x0a, 0x0d, 0x0d, 0x0a] = (0x0a0d0d0a :: u32)"
  by (simp_all add: from_be_def from_le_def)

lemma analyze_written_pcap:
  assumes "\<forall>c\<in>set cs. captured_ok c" and "length versions = 16"
  shows "analyze_capture decode dec0 (pcap_file (wr32_of e) (pcap_magic e nanos) versions cs)
      = Inr (Pcap, analysis_of decode dec0 cs)"
proof -
  have "pcap_records (case e of LittleEndian \<Rightarrow> from_le | BigEndian \<Rightarrow> from_be)
      (pcap_file (wr32_of e) (pcap_magic e nanos) versions cs) 24 parse_state_empty
      = Inr (fold add_captured cs parse_state_empty)"
    by (cases e) (simp_all add: little.pcap_file_read big.pcap_file_read assms)
  then show ?thesis
    using analyze_capture_pcap [OF assms(2), of decode dec0 e nanos "concat (map (pcap_record (wr32_of e)) cs)"]
    by (simp add: pcap_file_def analysis_of_def)
qed

text \<open>A client's and a server's segment, in Ethernet, IPv4 and TCP headers.\<close>

definition sample_frame :: "bool \<Rightarrow> bytes \<Rightarrow> bytes" where
  "sample_frame from_client payload =
     replicate 12 0 @ [8, 0]
     @ [0x45, 0, 0, of_nat (40 + length payload), 0, 0, 0, 0, 64, 6, 0, 0]
     @ (if from_client then [10, 0, 0, 1, 10, 0, 0, 2] else [10, 0, 0, 2, 10, 0, 0, 1])
     @ (if from_client then [0x9c, 0x40, 0, 80] else [0, 80, 0x9c, 0x40])
     @ [0, 0, 0, 1, 0, 0, 0, 0, 0x50, 0x18, 0, 0, 0, 0, 0, 0] @ payload"

definition sample_capture :: "captured list" where
  "sample_capture = [(replicate 8 0, 41, sample_frame True [1]), (replicate 8 0, 42, sample_frame False [2, 3])]"

abbreviation no_hpack :: "unit hpack" where
  "no_hpack \<equiv> \<lambda>d b. None"

lemma sample_capture_ok: "\<forall>c\<in>set sample_capture. captured_ok c" by code_simp

lemma sample_capture_analysed:
  "case analyze_capture no_hpack () (pcap_file (wr32_of LittleEndian) (pcap_magic LittleEndian False)
       (replicate 16 0) sample_capture) of Inl _ \<Rightarrow> False | Inr (fmt, a) \<Rightarrow> length (ca_flows a) = 1"
  by code_simp

text \<open>
  C3. The container does not matter: a sequence of frames written as a classic capture (either
  byte order, micro- or nanosecond stamps) and as a pcapng file (either byte order) is analysed
  to the same result, the analysis of the frames themselves.
\<close>

theorem formats_agree:
  assumes "\<forall>c\<in>set cs. captured_ok c" and "length versions = 16" and "length section_rest = 12"
  shows "analyze_capture decode dec0 (pcap_file (wr32_of e) (pcap_magic e nanos) versions cs)
      = Inr (Pcap, analysis_of decode dec0 cs)
    \<and> analyze_capture decode dec0 (pcapng_file (wr16_of e') (wr32_of e') (pcapng_bom e') section_rest cs)
      = Inr (PcapNg, analysis_of decode dec0 cs)"
proof -
  have "pcapng_blocks (case e' of LittleEndian \<Rightarrow> from_le | BigEndian \<Rightarrow> from_be)
      (case e' of LittleEndian \<Rightarrow> from_le | BigEndian \<Rightarrow> from_be)
      (pcapng_file (wr16_of e') (wr32_of e') (pcapng_bom e') section_rest cs) 0 ([], parse_state_empty)
      = Inr (fold add_captured cs parse_state_empty)"
    using little.pcapng_head [OF _ assms(3) section_magic(2) assms(1)]
      big.pcapng_head [OF _ assms(3) section_magic(1) assms(1)] by (cases e') simp_all
  then have "analyze_capture decode dec0 (pcapng_file (wr16_of e') (wr32_of e') (pcapng_bom e') section_rest cs)
      = Inr (PcapNg, analysis_of decode dec0 cs)"
    using analyze_capture_pcapng [OF assms(3), of decode dec0 e' cs] by (simp add: analysis_of_def)
  with analyze_written_pcap [OF assms(1,2)] show ?thesis by simp
qed

theorem formats_agree_witness:
  "\<exists>a. analyze_capture no_hpack () (pcap_file (wr32_of LittleEndian) (pcap_magic LittleEndian False)
       (replicate 16 0) sample_capture) = Inr (Pcap, a)
    \<and> analyze_capture no_hpack () (pcapng_file (wr16_of BigEndian) (wr32_of BigEndian) (pcapng_bom BigEndian)
       (replicate 12 0) sample_capture) = Inr (PcapNg, a)"
  using formats_agree [OF sample_capture_ok, of "replicate 16 0" "replicate 12 0" no_hpack "()" LittleEndian False BigEndian]
  by simp

text \<open>
  A classic capture that ends inside a record is refused as truncated, wherever it is cut.
\<close>

theorem cut_capture_truncated:
  assumes "\<forall>c\<in>set cs. captured_ok c" and "captured_ok c" and "length versions = 16"
    and "0 < n" and "n < length (pcap_record (wr32_of e) c)"
  shows "analyze_capture decode dec0
      (pcap_file (wr32_of e) (pcap_magic e nanos) versions cs @ take n (pcap_record (wr32_of e) c)) = Inl Truncated"
proof -
  have "pcap_records (case e of LittleEndian \<Rightarrow> from_le | BigEndian \<Rightarrow> from_be)
      (pcap_file (wr32_of e) (pcap_magic e nanos) versions cs @ take n (pcap_record (wr32_of e) c)) 24
      parse_state_empty = Inl Truncated"
    using assms(4,5) little.pcap_file_cut [OF assms(1,2) _ assms(3,4)] big.pcap_file_cut [OF assms(1,2) _ assms(3,4)]
    by (cases e) simp_all
  then show ?thesis
    using analyze_capture_pcap [OF assms(3), of decode dec0 e nanos
        "concat (map (pcap_record (wr32_of e)) cs) @ take n (pcap_record (wr32_of e) c)"]
    by (simp add: pcap_file_def)
qed

theorem cut_capture_truncated_witness:
  "analyze_capture no_hpack () (pcap_file (wr32_of BigEndian) (pcap_magic BigEndian True) (replicate 16 0) sample_capture
     @ take 17 (pcap_record (wr32_of BigEndian) (replicate 8 0, 3, [1, 2, 3]))) = Inl Truncated"
  by (rule cut_capture_truncated [OF sample_capture_ok]) (simp_all add: captured_ok_def pcap_record_def to_be_def)

text \<open>
  Whatever bytes are given, an analysis that is returned reports each flow at most once, and
  every flow it knows is reported, or counted as incomplete, or counted as encrypted. A reported
  flow has data in both directions, none of it a TLS record, and its HTTP/1.1 transactions, when
  it has any, cut both streams without losing or adding a byte.
\<close>

theorem analysis_accounts_for_flows:
  assumes "analyze_capture decode dec0 d = Inr (fmt, a)"
  shows "distinct (map rf_key (ca_flows a))
    \<and> (\<exists>known. distinct known \<and> set (map rf_key (ca_flows a)) \<subseteq> set known
        \<and> accounted a = of_nat (length known))
    \<and> (\<forall>f\<in>set (ca_flows a). rf_client_to_server f \<noteq> [] \<and> rf_server_to_client f \<noteq> []
      \<and> \<not> looks_like_tls (rf_client_to_server f) \<and> \<not> looks_like_tls (rf_server_to_client f)
      \<and> (rf_http_transactions f \<noteq> [] \<longrightarrow>
           concat (map ht_request (rf_http_transactions f)) = rf_client_to_server f
         \<and> concat (map ht_response (rf_http_transactions f)) = rf_server_to_client f))"
proof -
  obtain st where inv: "flow_table_inv (ps_table st)" and a: "a = finish_analysis decode dec0 st"
    using analyze_capture_state [OF assms] by blast
  define order where "order = ft_order (ps_table st)"
  define rep where "rep k = flow_report decode dec0 k
    (case ft_flows (ps_table st) k of None \<Rightarrow> segments_default | Some s \<Rightarrow> s)" for k
  have d: "distinct order" using inv by (simp add: order_def flow_table_inv_def)
  have flows: "ca_flows a = concat (map rep order)"
    using d by (simp add: a finish_analysis_def finish_flows_flows order_def rep_def [abs_def])
  have "map rf_key (concat (map rep ks)) = filter (\<lambda>k. rep k \<noteq> []) ks" for ks
    by (induction ks) (simp_all add: rep_def flow_report_keys)
  then have keys: "map rf_key (ca_flows a) = filter (\<lambda>k. rep k \<noteq> []) order" by (simp only: flows)
  have "flow_counters_zero (ft_excluded (ps_table st))" using inv by (simp add: flow_table_inv_def)
  then have "accounted a = of_nat (length order)"
    by (simp add: a finish_analysis_def finish_flows_accounted order_def)
      (simp add: accounted_def flow_counters_zero_def)
  moreover have "\<forall>f\<in>set (ca_flows a). rf_client_to_server f \<noteq> [] \<and> rf_server_to_client f \<noteq> []
      \<and> \<not> looks_like_tls (rf_client_to_server f) \<and> \<not> looks_like_tls (rf_server_to_client f)
      \<and> (rf_http_transactions f \<noteq> [] \<longrightarrow>
           concat (map ht_request (rf_http_transactions f)) = rf_client_to_server f
         \<and> concat (map ht_response (rf_http_transactions f)) = rf_server_to_client f)"
    unfolding flows rep_def by (auto elim!: flow_report_cases simp: extract_lossless)
  ultimately show ?thesis
    unfolding keys using d by (intro conjI exI [of _ order]) auto
qed

theorem analysis_accounts_for_flows_witness:
  "\<exists>a. analyze_capture no_hpack () (pcap_file (wr32_of LittleEndian) (pcap_magic LittleEndian False)
       (replicate 16 0) sample_capture) = Inr (Pcap, a) \<and> length (ca_flows a) = 1
    \<and> distinct (map rf_key (ca_flows a))"
proof -
  let ?r = "analyze_capture no_hpack () (pcap_file (wr32_of LittleEndian) (pcap_magic LittleEndian False)
       (replicate 16 0) sample_capture)"
  have "?r = Inr (Pcap, analysis_of no_hpack () sample_capture)"
    by (rule analyze_written_pcap [OF sample_capture_ok]) simp
  with analysis_accounts_for_flows [OF this] sample_capture_analysed show ?thesis by auto
qed

end
