(* ===== verification/Telemetry_Facts.thy ===== *)
theory Telemetry_Facts
  imports Telemetry
begin

text \<open>
  What is reported is what happened: the window of active connections, the percentiles, and the
  totals of the drained reports.
\<close>

section \<open>The window of active connections\<close>

datatype window_event = Opened nat | Dropped nat

fun event_time :: "window_event \<Rightarrow> nat" where
  "event_time (Opened t) = t" | "event_time (Dropped t) = t"

fun window_step :: "window_event \<Rightarrow> active_window \<Rightarrow> active_window" where
  "window_step (Opened t) w = connection_opened t w"
| "window_step (Dropped t) w = connection_dropped t w"

text \<open>
  The number of open connections lies between the extremes of the window, and the connection-time
  between the extremes times the time accounted for; \<open>k\<close> bounds the number of connections.
\<close>

definition window_inv :: "nat \<Rightarrow> active_window \<Rightarrow> bool" where
  "window_inv k w \<longleftrightarrow>
     aw_min w \<le> aw_current w \<and> aw_current w \<le> aw_max w \<and> unat (aw_max w) \<le> k
   \<and> aw_started w \<le> aw_changed w
   \<and> unat (aw_min w) * (aw_changed w - aw_started w) \<le> aw_weighted w
   \<and> aw_weighted w \<le> unat (aw_max w) * (aw_changed w - aw_started w)"

lemma account_until_sel:
  "aw_current (account_until now w) = aw_current w" "aw_min (account_until now w) = aw_min w"
  "aw_max (account_until now w) = aw_max w" "aw_started (account_until now w) = aw_started w"
  "aw_changed (account_until now w) = now"
  "aw_weighted (account_until now w) = aw_weighted w + (now - aw_changed w) * unat (aw_current w)"
  by (simp_all add: account_until_def)

lemma account_until_inv:
  assumes "window_inv k w" and "aw_changed w \<le> now"
  shows "window_inv k (account_until now w)"
proof -
  let ?d = "now - aw_changed w" and ?a = "aw_changed w - aw_started w"
  have i: "aw_min w \<le> aw_current w" "aw_current w \<le> aw_max w" "unat (aw_max w) \<le> k" "aw_started w \<le> aw_changed w"
    and w: "unat (aw_min w) * ?a \<le> aw_weighted w" "aw_weighted w \<le> unat (aw_max w) * ?a"
    using assms(1) by (simp_all add: window_inv_def)
  have "?d * unat (aw_min w) \<le> ?d * unat (aw_current w)" "?d * unat (aw_current w) \<le> ?d * unat (aw_max w)"
    using i(1,2) by (simp_all only: mult_le_mono2 word_le_nat_alt)
  then have "unat (aw_min w) * (?a + ?d) \<le> aw_weighted w + ?d * unat (aw_current w)"
    "aw_weighted w + ?d * unat (aw_current w) \<le> unat (aw_max w) * (?a + ?d)"
    using w unfolding add_mult_distrib2 mult.commute [of _ ?d] by linarith+
  moreover have "?a + ?d = now - aw_started w" using i(4) assms(2) by simp
  ultimately have "unat (aw_min w) * (now - aw_started w) \<le> aw_weighted w + ?d * unat (aw_current w)"
    "aw_weighted w + ?d * unat (aw_current w) \<le> unat (aw_max w) * (now - aw_started w)" by (simp_all only:)
  moreover have "aw_started w \<le> now" using i(4) assms(2) by (rule order_trans)
  ultimately show ?thesis
    using i unfolding window_inv_def account_until_sel by (intro conjI)
qed

lemma window_widen:
  assumes "window_inv k w" and "c' \<le> c" and "c \<le> m" and "c' \<le> aw_min w" and "aw_max w \<le> m" and "unat m \<le> k'"
  shows "window_inv k' (w\<lparr>aw_current := c, aw_min := c', aw_max := m\<rparr>)"
proof -
  let ?d = "aw_changed w - aw_started w"
  have "unat c' * ?d \<le> unat (aw_min w) * ?d" "unat (aw_max w) * ?d \<le> unat m * ?d"
    using assms(4,5) by (simp_all only: mult_le_mono1 word_le_nat_alt)
  moreover have "unat (aw_min w) * ?d \<le> aw_weighted w" "aw_weighted w \<le> unat (aw_max w) * ?d"
    using assms(1) by (simp_all add: window_inv_def)
  ultimately have "unat c' * ?d \<le> aw_weighted w" "aw_weighted w \<le> unat m * ?d" by linarith+
  then show ?thesis using assms by (simp add: window_inv_def)
qed

lemma connection_opened_inv:
  assumes "window_inv k w" and "aw_changed w \<le> now" and "Suc k < 2 ^ 64"
  shows "window_inv (Suc k) (connection_opened now w)"
proof -
  let ?w = "account_until now w"
  have i: "window_inv k ?w" by (rule account_until_inv [OF assms(1,2)])
  have "unat (aw_current ?w) \<le> k" using i by (auto simp: window_inv_def word_le_nat_alt)
  then have "unat (aw_current ?w + 1) = Suc (unat (aw_current ?w))"
    using assms(3) by (subst unat_add_no_wrap) simp_all
  then have u: "unat (aw_current ?w + 1) \<le> Suc k" using \<open>unat (aw_current ?w) \<le> k\<close> by simp
  have "unat (max (aw_max ?w) (aw_current ?w + 1)) \<le> Suc k"
    using u i by (simp add: max_def window_inv_def)
  with i show ?thesis
    unfolding connection_opened_def Let_def by (intro window_widen [OF i]) simp_all
qed

lemma connection_dropped_inv:
  assumes "window_inv k w" and "aw_changed w \<le> now"
  shows "window_inv k (connection_dropped now w)"
proof -
  let ?w = "account_until now w"
  have i: "window_inv k ?w" by (rule account_until_inv [OF assms])
  have "sat_sub (aw_current ?w) 1 \<le> aw_current ?w" by (simp add: word_le_nat_alt unat_sat_sub)
  then have le: "sat_sub (aw_current ?w) 1 \<le> aw_max ?w" using i by (auto simp: window_inv_def intro: order_trans)
  have "connection_dropped now w = ?w\<lparr>aw_current := sat_sub (aw_current ?w) 1,
      aw_min := min (aw_min ?w) (sat_sub (aw_current ?w) 1), aw_max := aw_max ?w\<rparr>"
    by (simp add: connection_dropped_def Let_def)
  then show ?thesis
    using i le by (simp only:) (intro window_widen [OF i], simp_all add: window_inv_def)
qed

lemma changed_step [simp]: "aw_changed (window_step e w) = event_time e" "aw_started (window_step e w) = aw_started w"
  by (cases e; simp add: connection_opened_def connection_dropped_def account_until_def Let_def)+

lemma window_run_inv:
  "window_inv k w \<Longrightarrow> sorted (aw_changed w # map event_time es) \<Longrightarrow> k + length es < 2 ^ 64
   \<Longrightarrow> window_inv (k + length es) (fold window_step es w)
     \<and> aw_started (fold window_step es w) = aw_started w
     \<and> (es = [] \<or> aw_changed (fold window_step es w) = event_time (last es))"
proof (induction es arbitrary: k w)
  case (Cons e es)
  have t: "aw_changed w \<le> event_time e" using Cons.prems(2) by simp
  have "window_inv (Suc k) (window_step e w)"
  proof (cases e)
    case (Opened x)
    then show ?thesis using connection_opened_inv [OF Cons.prems(1)] t Cons.prems(3) by simp
  next
    case (Dropped x)
    have "window_inv k (connection_dropped x w)" using connection_dropped_inv [OF Cons.prems(1)] t Dropped by simp
    then show ?thesis using Dropped by (auto simp: window_inv_def)
  qed
  from Cons.IH [OF this] Cons.prems show ?case by auto
qed simp

lemma f64_quotient_between:
  assumes "a * e \<le> w" and "w \<le> b * e" and "0 < e" and "w < 2 ^ 53" and "e < 2 ^ 53" and "b < 2 ^ 53"
  shows "of_nat a \<le> f64_div (f64_round_to (of_nat w)) (f64_round_to (of_nat e))
       \<and> f64_div (f64_round_to (of_nat w)) (f64_round_to (of_nat e)) \<le> (of_nat b :: f64)"
proof -
  have ex: "f64_round_to (of_nat n) = of_nat n" if "n < 2 ^ 53" for n
    using f64_round_to_int [of "int n"] that by simp
  have "0 < (of_nat e :: rat)" using assms(3) by simp
  moreover have "(of_nat (a * e) :: rat) \<le> of_nat w" "(of_nat w :: rat) \<le> of_nat (b * e)"
    using assms(1,2) by (simp_all only: of_nat_le_iff)
  ultimately have "of_nat a \<le> (of_nat w / of_nat e :: rat)" "of_nat w / of_nat e \<le> (of_nat b :: rat)"
    by (simp_all add: field_simps)
  then have q: "f64_round_to (of_nat a) \<le> f64_round_to (of_nat w / of_nat e)"
    "f64_round_to (of_nat w / of_nat e) \<le> f64_round_to (of_nat b)" by (simp_all only: f64_round_to_mono)
  have "a \<le> b" using assms(1-3) by (metis le_trans mult_le_cancel2)
  then have "a < 2 ^ 53" using assms(6) by simp
  then show ?thesis using q unfolding f64_div_def ex [OF assms(4)] ex [OF assms(5)] ex [OF assms(6)] by (simp only: ex simp_thms)
qed

lemma snapshot_between:
  assumes i: "window_inv k w" and "aw_changed w \<le> now" and "aw_started w < now"
    and small: "k * (now - aw_started w) < 2 ^ 53"
    and s: "active_snapshot now w = ((c, avg, lo, hi), w')"
  shows "lo \<le> c \<and> c \<le> hi \<and> of_nat (unat lo) \<le> avg \<and> avg \<le> of_nat (unat hi)
    \<and> window_inv k w' \<and> aw_changed w' = now \<and> aw_started w' = now"
proof -
  let ?w = "account_until now w" and ?e = "now - aw_started w"
  have j: "window_inv k ?w" by (rule account_until_inv [OF i assms(2)])
  have e: "0 < ?e" "max ?e 1 = ?e" "aw_changed ?w - aw_started ?w = ?e"
    using assms(3) by (simp_all add: account_until_def)
  have r: "c = aw_current ?w" "lo = aw_min ?w" "hi = aw_max ?w"
    "avg = f64_div (f64_round_to (of_nat (aw_weighted ?w))) (f64_round_to (of_nat ?e))"
    using s e by (auto simp: active_snapshot_def Let_def account_until_def)
  have w': "w' = ?w\<lparr>aw_weighted := 0, aw_started := now, aw_min := c, aw_max := c\<rparr>"
    using s r by (auto simp: active_snapshot_def Let_def)
  have b: "unat lo * ?e \<le> aw_weighted ?w" "aw_weighted ?w \<le> unat hi * ?e" "unat hi \<le> k"
    using j by (simp_all add: window_inv_def r e(3))
  have hi: "unat hi * ?e \<le> k * ?e" using b(3) by (rule mult_le_mono1)
  have avg: "of_nat (unat lo) \<le> avg \<and> avg \<le> of_nat (unat hi)"
  proof (cases "k = 0")
    case True
    then have "unat hi = 0" using b(3) by simp
    then have "aw_weighted ?w = 0" "unat lo = 0" using b(1,2) e(1) by auto
    then show ?thesis using True b(3) by (simp add: r(4) f64_div_def)
  next
    case False
    have "1 * ?e \<le> k * ?e" using False by (intro mult_le_mono1) simp
    then have "?e < 2 ^ 53" using small by linarith
    moreover have "k * 1 \<le> k * ?e" using e(1) by (intro mult_le_mono2) simp
    then have "unat hi < 2 ^ 53" using small b(3) by linarith
    moreover have "aw_weighted ?w < 2 ^ 53" using b(2) hi small by linarith
    ultimately show ?thesis unfolding r(4) using b(1,2) e(1) by (intro f64_quotient_between) 
  qed
  have "unat c \<le> k" using j b(3) by (auto simp: window_inv_def r word_le_nat_alt)
  then show ?thesis
    using j avg by (simp add: w' r window_inv_def account_until_def)
qed



section \<open>Percentiles\<close>

lemma percentile_index_less:
  assumes "0 < n" and "n < 2 ^ 53" and "0 \<le> p" and "p \<le> 1"
  shows "percentile_index n p < n"
proof -
  let ?m = "of_nat (n - 1) :: rat"
  have ex: "f64_round_to ?m = ?m" using f64_round_to_int [of "int (n - 1)"] assms(2) by simp
  have m: "0 \<le> ?m * p" "?m * p \<le> ?m" using assms(3,4) by (simp, intro mult_left_le) simp_all
  have "0 \<le> f64_round_to (?m * p)" "f64_round_to (?m * p) \<le> ?m"
    using f64_round_to_nonneg [OF m(1)] f64_round_to_mono [OF m(2)] ex by simp_all
  moreover have "?m < 2 ^ 64"
  proof -
    have "n - 1 < 2 ^ 64" using assms(2) by simp
    then have "?m < of_nat (2 ^ 64)" by (simp only: of_nat_less_iff)
    then show ?thesis by simp
  qed
  ultimately have "percentile_index n p = nat \<lfloor>f64_round_to (?m * p)\<rfloor>" "\<lfloor>f64_round_to (?m * p)\<rfloor> \<le> int (n - 1)"
    unfolding percentile_index_def f64_mul_def ex f64_to_usize_def by (auto simp: floor_le_iff)
  then show ?thesis using assms(1) by linarith
qed

lemma percentile_index_mono:
  assumes "p \<le> q" and "0 \<le> p"
  shows "percentile_index n p \<le> percentile_index n q"
proof -
  let ?m = "f64_round_to (of_nat (n - 1))"
  have m: "0 \<le> ?m" by (intro f64_round_to_nonneg) simp
  then have "?m * p \<le> ?m * q" using assms(1) by (intro mult_left_mono)
  then have "f64_mul ?m p \<le> f64_mul ?m q" unfolding f64_mul_def by (rule f64_round_to_mono)
  moreover have "0 \<le> f64_mul ?m p" unfolding f64_mul_def using m assms(2) by (intro f64_round_to_nonneg) simp
  moreover have "nat \<lfloor>x\<rfloor> \<le> 2 ^ 64 - 1" if "\<not> 2 ^ 64 \<le> x" for x :: rat
  proof -
    have "\<lfloor>x\<rfloor> < 2 ^ 64" using that by (simp add: floor_less_iff)
    then show ?thesis by (simp add: nat_le_iff)
  qed
  ultimately show ?thesis unfolding percentile_index_def f64_to_usize_def
    by (auto intro: nat_mono floor_mono)
qed

lemma percentile_ms_mono:
  assumes "p \<le> q" and "0 \<le> p" and "q \<le> 1" and "length samples < 2 ^ 53"
  shows "percentile_ms samples p \<le> percentile_ms samples q"
proof (cases "samples = []")
  case False
  let ?i = "percentile_index (length samples)"
  have "?i p \<le> ?i q" by (rule percentile_index_mono [OF assms(1,2)])
  moreover have "?i q < length (sort samples)" using percentile_index_less [of "length samples" q] False assms by simp
  ultimately have "sort samples ! ?i p \<le> sort samples ! ?i q" by (intro sorted_nth_mono) simp_all
  then have "unat (sort samples ! ?i p) \<le> unat (sort samples ! ?i q)" by (simp only: word_le_nat_alt)
  then have "(of_nat (unat (sort samples ! ?i p)) :: rat) \<le> of_nat (unat (sort samples ! ?i q))"
    by (simp only: of_nat_le_iff)
  then have "f64_of_u64 (sort samples ! ?i p) \<le> f64_of_u64 (sort samples ! ?i q)"
    unfolding f64_of_u64_def by (rule f64_round_to_mono)
  then show ?thesis using False unfolding percentile_ms_def f64_div_def
    by (simp add: f64_round_to_mono divide_right_mono)
qed (simp add: percentile_ms_def)

text \<open>
  Latency percentiles are sound: for up to \<open>2 ^ 53\<close> samples the index computed in floating
  point is within the sorted samples, so every reported percentile is the value of a sample (in
  milliseconds), and a higher percentile is never reported below a lower one.
\<close>

theorem percentiles_sound:
  assumes "samples \<noteq> []" and "length samples < 2 ^ 53" and "0 \<le> p" and "p \<le> q" and "q \<le> 1"
  shows "(\<exists>x\<in>set samples. percentile_ms samples p = f64_div (f64_of_u64 x) 1000)
    \<and> percentile_ms samples p \<le> percentile_ms samples q"
proof -
  have "percentile_index (length samples) p < length (sort samples)"
    using percentile_index_less [of "length samples" p] assms by simp
  then have "sort samples ! percentile_index (length samples) p \<in> set samples"
    by (metis nth_mem set_sort)
  then show ?thesis using assms percentile_ms_mono [OF assms(4,3,5,2)] by (auto simp: percentile_ms_def)
qed

theorem percentiles_sound_witness:
  "percentile_ms [5000, 1000, 3000] (f64_round_to (1 / 2)) \<le> percentile_ms [5000, 1000, 3000] (f64_round_to (95 / 100))"
proof -
  have "f64_round_to (1 / 2) \<le> f64_round_to (95 / 100)" "f64_round_to (95 / 100) \<le> f64_round_to 1"
    "0 \<le> f64_round_to (1 / 2)"
    by (rule f64_round_to_mono, simp, rule f64_round_to_mono, simp, rule f64_round_to_nonneg, simp)
  moreover have "f64_round_to 1 = 1" using f64_round_to_int [of 1] by simp
  ultimately show ?thesis
    using percentiles_sound [of "[5000, 1000, 3000]" "f64_round_to (1 / 2)" "f64_round_to (95 / 100)"] by simp
qed

end
