(* ===== verification/Stream_Io.thy ===== *)
theory Stream_Io
  imports Telemetry
begin

text \<open>
  Connections as the workloads see them: the bytes the peer sends, the bytes written to it, and
  what happens when the peer's bytes run out (it closes, or stays silent). Operations on a
  connection thread it together with the run's counters, which keep what they counted when an
  operation fails.
\<close>

record io_stream =
  io_in :: bytes
  io_out :: bytes
  io_silent :: bool

datatype work_error =
    UnexpectedEof | Elapsed | NeverReturns
  | FirstTurnUnknown
  | HeadersTooLarge | ClosedBeforeMessage | ClosedBeforeBody | HttpErrorResponse bytes
  | ConnectRejected bytes | ConnectHeadersTooLarge | TunnelFailed work_error
  | TcpConnectFailed | TlsHandshakeFailed | Http2Failed bytes

type_synonym work = "io_stream \<times> counters"
type_synonym 'a action = "work \<Rightarrow> (work_error + 'a) \<times> work"

definition return_w :: "'a \<Rightarrow> 'a action" where
  "return_w a w = (Inr a, w)"

definition fail_w :: "work_error \<Rightarrow> 'a action" where
  "fail_w e w = (Inl e, w)"

definition bind_w :: "'a action \<Rightarrow> ('a \<Rightarrow> 'b action) \<Rightarrow> 'b action" where
  "bind_w m f w = (case m w of (Inl e, w) \<Rightarrow> (Inl e, w) | (Inr a, w) \<Rightarrow> f a w)"

text \<open>What a read returns when the peer's bytes have run out, under a timeout or without one.\<close>

definition starved :: "bool \<Rightarrow> io_stream \<Rightarrow> work_error" where
  "starved timed st = (if io_silent st then (if timed then Elapsed else NeverReturns) else UnexpectedEof)"

definition write_all :: "bytes \<Rightarrow> unit action" where
  "write_all bs w = (Inr (), (fst w)\<lparr>io_out := io_out (fst w) @ bs\<rparr>, snd w)"

definition count_w :: "(counters \<Rightarrow> counters) \<Rightarrow> unit action" where
  "count_w f w = (Inr (), fst w, f (snd w))"

definition add_tx :: "nat \<Rightarrow> counters \<Rightarrow> counters" where
  "add_tx n c = c\<lparr>ct_tx := ct_tx c + of_nat n\<rparr>"

definition add_rx :: "nat \<Rightarrow> counters \<Rightarrow> counters" where
  "add_rx n c = c\<lparr>ct_rx := ct_rx c + of_nat n\<rparr>"

definition transaction_completed :: "counters \<Rightarrow> counters" where
  "transaction_completed c = c\<lparr>ct_transactions := ct_transactions c + 1\<rparr>"

definition connection_established :: "counters \<Rightarrow> counters" where
  "connection_established c = c\<lparr>ct_established := ct_established c + 1\<rparr>"

definition push_http_latency :: "u64 \<Rightarrow> counters \<Rightarrow> counters" where
  "push_http_latency us c = c\<lparr>ct_http_latencies_us := ct_http_latencies_us c @ [us]\<rparr>"

definition read_exact :: "bool \<Rightarrow> nat \<Rightarrow> bytes action" where
  "read_exact timed n w =
     (let st = fst w
      in if n \<le> length (io_in st) then (Inr (take n (io_in st)), st\<lparr>io_in := drop n (io_in st)\<rparr>, snd w)
         else (Inl (starved timed st), st\<lparr>io_in := []\<rparr>, snd w))"

text \<open>
  A plain read into a buffer of \<open>cap\<close> bytes: what is available now, given by \<open>grant\<close> from the
  number of bytes still to come, is between one byte and the buffer; no byte when the peer closed.
\<close>

definition read_some :: "(nat \<Rightarrow> nat) \<Rightarrow> nat \<Rightarrow> bytes action" where
  "read_some grant cap w =
     (let st = fst w; n = min cap (max 1 (grant (length (io_in st))))
      in if io_in st = [] \<and> io_silent st then (Inl NeverReturns, w)
         else (Inr (take n (io_in st)), st\<lparr>io_in := drop n (io_in st)\<rparr>, snd w))"

text \<open>\<open>read_exact_count\<close>: the bytes are read in pieces of at most 64 KiB and dropped.\<close>

function read_exact_count :: "bool \<Rightarrow> nat \<Rightarrow> unit action" where
  "read_exact_count timed remaining w =
     (if remaining = 0 then (Inr (), w)
      else
        let sz = min remaining 65536
        in case read_exact timed sz w of
             (Inl e, w) \<Rightarrow> (Inl e, w)
           | (Inr _, w) \<Rightarrow> read_exact_count timed (remaining - sz) w)"
  by pat_completeness auto
termination
  by (relation "measure (\<lambda>(timed, remaining, w). remaining)") auto

declare read_exact_count.simps [simp del]

lemma bind_w_simps [simp]:
  "m w = (Inr a, w') \<Longrightarrow> bind_w m f w = f a w'"
  "m w = (Inl e, w') \<Longrightarrow> bind_w m f w = (Inl e, w')"
  by (simp_all add: bind_w_def)

lemma action_simps [simp]:
  "bind_w (write_all bs) f (st, c) = f () (st\<lparr>io_out := io_out st @ bs\<rparr>, c)"
  "bind_w (count_w g) f (st, c) = f () (st, g c)"
  by (simp_all add: bind_w_def write_all_def count_w_def)

lemma read_exact_ok:
  "length bs = n \<Longrightarrow> read_exact timed n (st\<lparr>io_in := bs @ rest\<rparr>, c) = (Inr bs, st\<lparr>io_in := rest\<rparr>, c)"
  by (simp add: read_exact_def)

lemma read_exact_count_ok:
  "n \<le> length (io_in st) \<Longrightarrow> read_exact_count timed n (st, c) = (Inr (), st\<lparr>io_in := drop n (io_in st)\<rparr>, c)"
proof (induction n arbitrary: st rule: less_induct)
  case (less n)
  show ?case
  proof (cases "n = 0")
    case True
    then show ?thesis by (simp add: read_exact_count.simps)
  next
    case False
    let ?k = "min n 65536"
    have k: "?k \<le> length (io_in st)" "n - ?k < n" "n - ?k \<le> length (drop ?k (io_in st))"
      using less.prems False by simp_all
    have "read_exact_count timed (n - ?k) (st\<lparr>io_in := drop ?k (io_in st)\<rparr>, c)
        = (Inr (), st\<lparr>io_in := drop (n - ?k) (drop ?k (io_in st))\<rparr>, c)"
      using less.IH [OF k(2), of "st\<lparr>io_in := drop ?k (io_in st)\<rparr>"] k(3) by simp
    then show ?thesis
      using False k(1) by (subst read_exact_count.simps) (simp add: read_exact_def Let_def)
  qed
qed

lemma read_exact_count_short:
  "length (io_in st) < n \<Longrightarrow>
     read_exact_count timed n (st, c) = (Inl (starved timed st), st\<lparr>io_in := []\<rparr>, c)"
proof (induction n arbitrary: st rule: less_induct)
  case (less n)
  let ?k = "min n 65536"
  show ?case
  proof (cases "?k \<le> length (io_in st)")
    case False
    then show ?thesis using less.prems
      by (subst read_exact_count.simps) (simp add: read_exact_def Let_def)
  next
    case True
    have "n - ?k < n" using less.prems by simp
    from less.IH [OF this, of "st\<lparr>io_in := drop ?k (io_in st)\<rparr>"] True less.prems
    show ?thesis
      by (subst read_exact_count.simps) (auto simp: read_exact_def Let_def starved_def)
  qed
qed

end
