(* ===== verification/Replay.thy ===== *)
theory Replay
  imports Domain Capture
begin

text \<open>
  Replay plans (\<open>crates/agent/src/replay.rs\<close>): the turns an agent replays from a capture, the
  check that a server can tell the flows apart by their first client turn, and the rewriting of
  captured HTTP/1.1 requests to the scenario's host and, towards a forward proxy, to absolute form.
\<close>

section \<open>Replacing invalid UTF-8\<close>

text \<open>
  \<open>String::from_utf8_lossy\<close>, on bytes. \<open>utf8_chunk\<close> looks at the next character: its length when
  it is valid, or the length of the invalid part that is replaced as one character.
\<close>

definition cont_byte :: "nat \<Rightarrow> nat \<Rightarrow> nat option \<Rightarrow> bool" where
  "cont_byte lo hi b = (case b of None \<Rightarrow> False | Some v \<Rightarrow> lo \<le> v \<and> v \<le> hi)"

definition byte_at :: "nat \<Rightarrow> bytes \<Rightarrow> nat option" where
  "byte_at i bs = (if i < length bs then Some (unat (bs ! i)) else None)"

definition utf8_chunk :: "u8 \<Rightarrow> bytes \<Rightarrow> bool \<times> nat" where
  "utf8_chunk b rest =
     (let v = unat b; b1 = byte_at 0 rest; b2 = byte_at 1 rest; b3 = byte_at 2 rest;
          second = (if v = 0xE0 then cont_byte 0xA0 0xBF b1 else if v = 0xED then cont_byte 0x80 0x9F b1
                    else if v = 0xF0 then cont_byte 0x90 0xBF b1 else if v = 0xF4 then cont_byte 0x80 0x8F b1
                    else cont_byte 0x80 0xBF b1);
          third = cont_byte 0x80 0xBF b2; fourth = cont_byte 0x80 0xBF b3
      in if v < 0x80 then (True, 1)
         else if 0xC2 \<le> v \<and> v \<le> 0xDF then (second, if second then 2 else 1)
         else if 0xE0 \<le> v \<and> v \<le> 0xEF then
           (if \<not> second then (False, 1) else if \<not> third then (False, 2) else (True, 3))
         else if 0xF0 \<le> v \<and> v \<le> 0xF4 then
           (if \<not> second then (False, 1) else if \<not> third then (False, 2)
            else if \<not> fourth then (False, 3) else (True, 4))
         else (False, 1))"

function utf8_lossy :: "bytes \<Rightarrow> bytes" where
  "utf8_lossy [] = []"
| "utf8_lossy (b # rest) =
     (let (valid, n) = utf8_chunk b rest
      in (if valid then take n (b # rest) else [0xEF, 0xBF, 0xBD]) @ utf8_lossy (drop (n - 1) rest))"
  by pat_completeness auto
termination
  by (relation "measure length") auto

lemma utf8_lossy_ascii: "\<forall>b\<in>set bs. unat b < 0x80 \<Longrightarrow> utf8_lossy bs = bs"
  by (induction bs) (simp_all add: utf8_chunk_def)

section \<open>Rewriting a request\<close>

datatype replay_role = ReplayClient | ReplayServer

text \<open>The request line's method, target and version (\<open>splitn(3)\<close> at spaces).\<close>

definition request_fields :: "bytes \<Rightarrow> (bytes \<times> bytes \<times> bytes) option" where
  "request_fields line =
     (case split_once 32 line of
        None \<Rightarrow> None
      | Some (method, rest) \<Rightarrow>
          (case split_once 32 rest of
             None \<Rightarrow> None
           | Some (target, version) \<Rightarrow> Some (method, target, version)))"

definition origin_path :: "bytes \<Rightarrow> bytes" where
  "origin_path target =
     (if starts_with target (bytes_of ''http://'') then
        (case position ((=) 47) (drop 7 target) of
           None \<Rightarrow> bytes_of ''/'' | Some i \<Rightarrow> drop (7 + i) target)
      else target)"

definition absolute_form :: "scenario \<Rightarrow> replay_role \<Rightarrow> bool" where
  "absolute_form s role \<longleftrightarrow> role = ReplayClient \<and> is_explicit_proxy s \<and> \<not> tls_enabled (sc_tls s)"

definition rewritten_target :: "scenario \<Rightarrow> replay_role \<Rightarrow> bytes \<Rightarrow> bytes" where
  "rewritten_target s role target =
     (if absolute_form s role
      then bytes_of ''http://'' @ bytes_of (target_addr s) @ utf8_lossy (origin_path target)
      else origin_path target)"

definition host_line :: "scenario \<Rightarrow> bytes" where
  "host_line s = bytes_of ''Host: '' @ bytes_of (rq_host (sc_request s)) @ crlf"

definition is_host_line :: "bytes \<Rightarrow> bool" where
  "is_host_line line \<longleftrightarrow> eq_ignore_ascii_case (hd (split_by ((=) 58) line)) (bytes_of ''host'')"

definition rewrite_line :: "scenario \<Rightarrow> bytes \<Rightarrow> bytes \<times> bool \<Rightarrow> bytes \<times> bool" where
  "rewrite_line s line0 acc =
     (let (output, replaced_host) = acc;
          line = (case strip_suffix line0 [13] of Some l \<Rightarrow> l | None \<Rightarrow> line0)
      in if line = [] then acc
         else if is_host_line line then (output @ host_line s, True)
         else (output @ line @ crlf, replaced_host))"

definition rewrite_http_request :: "bytes \<Rightarrow> scenario \<Rightarrow> replay_role \<Rightarrow> bytes" where
  "rewrite_http_request request s role =
     (case find_sub crlf2 request of
        None \<Rightarrow> request
      | Some p \<Rightarrow>
          (let header_end = p + 4; headers = take header_end request
           in case find_sub crlf headers of
                None \<Rightarrow> request
              | Some line_end \<Rightarrow>
                  (case request_fields (take line_end headers) of
                     None \<Rightarrow> request
                   | Some (method, target, version) \<Rightarrow>
                       (let start = method @ [32] @ rewritten_target s role target @ [32] @ version @ crlf;
                            (output, replaced_host) =
                              fold (rewrite_line s)
                                (split_by ((=) 10) (slice (line_end + 2) (header_end - 2) headers)) (start, False);
                            output = (if replaced_host then output else output @ host_line s)
                        in output @ crlf @ drop header_end request))))"

definition http_replay_turns :: "scenario \<Rightarrow> replay_role \<Rightarrow> http_transaction \<Rightarrow> replay_turn list" where
  "http_replay_turns s role t =
     [\<lparr>rt_direction = ClientToServer, rt_payload = rewrite_http_request (ht_request t) s role\<rparr>,
      \<lparr>rt_direction = ServerToClient, rt_payload = ht_response t\<rparr>]"

section \<open>The plan\<close>

type_synonym replay_flow = "replay_turn list"

datatype replay_error =
    CaptureFailed capture_error | NoSupportedFlows | NoHttpTransactions
  | FlowEmpty nat | FlowStartsWrong nat | FlowsAmbiguous nat nat

definition http2_replay_turns :: "http2_transaction \<Rightarrow> replay_turn list" where
  "http2_replay_turns t =
     [\<lparr>rt_direction = ClientToServer, rt_payload = h2t_request_body t\<rparr>,
      \<lparr>rt_direction = ServerToClient, rt_payload = h2t_response_body t\<rparr>]"

definition flow_turns :: "scenario \<Rightarrow> replay_role \<Rightarrow> reassembled_flow \<Rightarrow> replay_flow option" where
  "flow_turns s role f =
     (case sc_protocol s of
        Http1 \<Rightarrow>
          if rf_http_transactions f = [] then None
          else Some (concat (map (http_replay_turns s role) (rf_http_transactions f)))
      | Http2 \<Rightarrow>
          if rf_http2_transactions f = [] then None
          else Some (concat (map http2_replay_turns (rf_http2_transactions f)))
      | Tcp \<Rightarrow> Some (rf_turns f))"

text \<open>Two first payloads one of which begins with the other.\<close>

definition ambiguous_with :: "bytes \<Rightarrow> replay_flow \<Rightarrow> bool" where
  "ambiguous_with first other =
     (case other of
        [] \<Rightarrow> False
      | turn # _ \<Rightarrow> starts_with (rt_payload turn) first \<or> starts_with first (rt_payload turn))"

definition validate_flow :: "replay_flow list \<Rightarrow> nat \<Rightarrow> replay_error option" where
  "validate_flow flows index =
     (case flows ! index of
        [] \<Rightarrow> Some (FlowEmpty index)
      | first # _ \<Rightarrow>
          if rt_direction first \<noteq> ClientToServer \<or> rt_payload first = [] then Some (FlowStartsWrong index)
          else map_option (FlowsAmbiguous index)
                 (find (\<lambda>j. j \<noteq> index \<and> ambiguous_with (rt_payload first) (flows ! j)) [0..<length flows]))"

definition validate_flows :: "replay_flow list \<Rightarrow> replay_error + unit" where
  "validate_flows flows =
     (case find_map (validate_flow flows) [0..<length flows] of None \<Rightarrow> Inr () | Some e \<Rightarrow> Inl e)"

definition replay_plan_from_analysis :: "scenario \<Rightarrow> replay_role \<Rightarrow> capture_analysis \<Rightarrow> replay_error + replay_flow list" where
  "replay_plan_from_analysis s role a =
     (if ca_flows a = [] then Inl NoSupportedFlows
      else
        let flows = List.map_filter (flow_turns s role) (ca_flows a)
        in if flows = [] then Inl NoHttpTransactions
           else bind_res (validate_flows flows) (\<lambda>_. Inr flows))"

definition replay_plan_from_capture ::
    "'d hpack \<Rightarrow> 'd \<Rightarrow> bytes \<Rightarrow> scenario \<Rightarrow> replay_role \<Rightarrow> replay_error + replay_flow list" where
  "replay_plan_from_capture decode dec0 bs s role =
     (case analyze_capture decode dec0 bs of
        Inl e \<Rightarrow> Inl (CaptureFailed e)
      | Inr (_, a) \<Rightarrow> replay_plan_from_analysis s role a)"

section \<open>What a valid set of flows is\<close>

definition first_payload :: "replay_flow \<Rightarrow> bytes" where
  "first_payload f = rt_payload (hd f)"

definition flow_starts_ok :: "replay_flow \<Rightarrow> bool" where
  "flow_starts_ok f \<longleftrightarrow> f \<noteq> [] \<and> rt_direction (hd f) = ClientToServer \<and> first_payload f \<noteq> []"

definition distinguishable :: "replay_flow list \<Rightarrow> bool" where
  "distinguishable flows \<longleftrightarrow>
     (\<forall>f\<in>set flows. flow_starts_ok f)
   \<and> (\<forall>i<length flows. \<forall>j<length flows. i \<noteq> j \<longrightarrow> \<not> prefix (first_payload (flows ! i)) (first_payload (flows ! j)))"

lemma find_None: "find P xs = None \<longleftrightarrow> (\<forall>x\<in>set xs. \<not> P x)"
  by (induction xs) auto

lemma find_map_None: "find_map f xs = None \<longleftrightarrow> (\<forall>x\<in>set xs. f x = None)"
  by (induction xs) (auto split: option.splits)

lemma validate_flow_None:
  assumes "i < length flows"
  shows "validate_flow flows i = None \<longleftrightarrow> flow_starts_ok (flows ! i)
    \<and> (\<forall>j<length flows. j \<noteq> i \<longrightarrow> \<not> ambiguous_with (first_payload (flows ! i)) (flows ! j))"
proof (cases "flows ! i")
  case Nil
  then show ?thesis by (simp add: validate_flow_def flow_starts_ok_def)
next
  case (Cons t ts)
  then show ?thesis
    by (auto simp: validate_flow_def flow_starts_ok_def first_payload_def find_None)
qed

lemma ambiguous_with_iff:
  "flow_starts_ok f \<Longrightarrow> ambiguous_with p f \<longleftrightarrow> prefix p (first_payload f) \<or> prefix (first_payload f) p"
  by (cases f) (simp_all add: ambiguous_with_def flow_starts_ok_def first_payload_def starts_with_prefix)

lemma validate_flows_iff: "validate_flows flows = Inr () \<longleftrightarrow> distinguishable flows"
proof -
  have "validate_flows flows = Inr () \<longleftrightarrow> (\<forall>i<length flows. validate_flow flows i = None)"
  proof (cases "find_map (validate_flow flows) [0..<length flows]")
    case None
    then show ?thesis using find_map_None [of "validate_flow flows" "[0..<length flows]"]
      by (simp add: validate_flows_def)
  next
    case (Some e)
    with find_map_Some [OF Some] show ?thesis by (force simp: validate_flows_def)
  qed
  also have "\<dots> \<longleftrightarrow> (\<forall>f\<in>set flows. flow_starts_ok f) \<and> (\<forall>i<length flows. \<forall>j<length flows. j \<noteq> i \<longrightarrow>
      \<not> ambiguous_with (first_payload (flows ! i)) (flows ! j))"
    by (auto simp: validate_flow_None all_set_conv_all_nth)
  also have "\<dots> \<longleftrightarrow> distinguishable flows"
    unfolding distinguishable_def by (auto simp: ambiguous_with_iff)
  finally show ?thesis .
qed

end
