(* ===== verification/Workload_Tcp.thy ===== *)
theory Workload_Tcp
  imports Stream_Io Replay Artifact
begin

text \<open>
  Byte-stream workloads (\<open>crates/agent/src/workload/tcp.rs\<close>): a fixed exchange of payloads, and
  the two sides of the replay of a captured conversation, with the server's detection of the flow
  a client replays. \<open>lat\<close> gives the latency sampled for the n-th transaction.
\<close>

section \<open>The operations\<close>

definition tcp_transaction :: "prepared_payloads \<Rightarrow> unit action" where
  "tcp_transaction p =
     bind_w (write_all (pr_request p)) (\<lambda>_.
     bind_w (count_w (add_tx (length (pr_request p)))) (\<lambda>_.
     bind_w (read_exact_count True (length (pr_response p))) (\<lambda>_.
       count_w (add_rx (length (pr_response p))))))"

definition tcp_serve :: "prepared_payloads \<Rightarrow> unit action" where
  "tcp_serve p =
     bind_w (read_exact_count False (length (pr_request p))) (\<lambda>_.
     bind_w (count_w (add_rx (length (pr_request p)))) (\<lambda>_.
     bind_w (write_all (pr_response p)) (\<lambda>_.
       count_w (add_tx (length (pr_response p))))))"

text \<open>A completed HTTP/1.1 transaction; its latency is sampled when a request preceded it.\<close>

definition complete_replayed :: "(nat \<Rightarrow> u64) \<Rightarrow> bool \<Rightarrow> counters \<Rightarrow> counters" where
  "complete_replayed lat started c =
     (let c = transaction_completed c
      in if started then push_http_latency (lat (length (ct_http_latencies_us c))) c else c)"

fun replay_client :: "(nat \<Rightarrow> u64) \<Rightarrow> bool \<Rightarrow> bool \<Rightarrow> replay_turn list \<Rightarrow> unit action" where
  "replay_client lat http1 started [] = return_w ()"
| "replay_client lat http1 started (turn # turns) =
     (case rt_direction turn of
        ClientToServer \<Rightarrow>
          bind_w (write_all (rt_payload turn)) (\<lambda>_.
          bind_w (count_w (add_tx (length (rt_payload turn)))) (\<lambda>_.
            replay_client lat http1 (started \<or> http1) turns))
      | ServerToClient \<Rightarrow>
          bind_w (read_exact_count True (length (rt_payload turn))) (\<lambda>_.
          bind_w (count_w (add_rx (length (rt_payload turn)))) (\<lambda>_.
          bind_w (count_w (if http1 then complete_replayed lat started else id)) (\<lambda>_.
            replay_client lat http1 (started \<and> \<not> http1) turns))))"

fun replay_server :: "bool \<Rightarrow> replay_turn list \<Rightarrow> unit action" where
  "replay_server http1 [] = return_w ()"
| "replay_server http1 (turn # turns) =
     (case rt_direction turn of
        ClientToServer \<Rightarrow>
          bind_w (read_exact_count True (length (rt_payload turn))) (\<lambda>_.
          bind_w (count_w (add_rx (length (rt_payload turn)))) (\<lambda>_.
            replay_server http1 turns))
      | ServerToClient \<Rightarrow>
          bind_w (write_all (rt_payload turn)) (\<lambda>_.
          bind_w (count_w (add_tx (length (rt_payload turn)))) (\<lambda>_.
          bind_w (count_w (if http1 then transaction_completed else id)) (\<lambda>_.
            replay_server http1 turns))))"

text \<open>
  The server reads byte by byte and keeps the flows whose first payload starts with what it has
  received, until one is left and is received completely.
\<close>

function detect_loop :: "bool \<Rightarrow> replay_flow list \<Rightarrow> bytes \<Rightarrow> nat list \<Rightarrow> unit action" where
  "detect_loop http1 flows received candidates w =
     (case io_in (fst w) of
        [] \<Rightarrow> (Inl (starved True (fst w)), w)
      | byte # rest \<Rightarrow>
          (let w = ((fst w)\<lparr>io_in := rest\<rparr>, snd w);
               received = received @ [byte];
               candidates = filter (\<lambda>i. starts_with (first_payload (flows ! i)) received) candidates
           in if candidates = [] then (Inl FirstTurnUnknown, w)
              else if length candidates = 1 \<and> length (first_payload (flows ! hd candidates)) = length received
              then replay_server http1 (tl (flows ! hd candidates)) (fst w, add_rx (length received) (snd w))
              else detect_loop http1 flows received candidates w))"
  by pat_completeness auto
termination
  by (relation "measure (\<lambda>(http1, flows, received, candidates, w). length (io_in (fst w)))") auto

declare detect_loop.simps [simp del]

definition replay_server_detect :: "bool \<Rightarrow> replay_flow list \<Rightarrow> unit action" where
  "replay_server_detect http1 flows = detect_loop http1 flows [] [0..<length flows]"

section \<open>What a flow exchanges\<close>

definition sent_by :: "direction \<Rightarrow> replay_turn list \<Rightarrow> bytes" where
  "sent_by d turns = concat (map rt_payload (filter (\<lambda>t. rt_direction t = d) turns))"

lemma sent_by_simps [simp]:
  "sent_by d [] = []"
  "sent_by d (t # ts) = (if rt_direction t = d then rt_payload t @ sent_by d ts else sent_by d ts)"
  by (simp_all add: sent_by_def)

lemma add_tx_add: "add_tx m (add_tx n c) = add_tx (n + m) c"
  by (simp add: add_tx_def algebra_simps)

lemma add_rx_add: "add_rx m (add_rx n c) = add_rx (n + m) c"
  by (simp add: add_rx_def algebra_simps)

text \<open>The traffic a side accounts for: bytes in, bytes out.\<close>

definition traffic :: "counters \<Rightarrow> u64 \<times> u64" where
  "traffic c = (ct_tx c, ct_rx c)"

lemma traffic_simps [simp]:
  "traffic (add_tx n c) = (ct_tx c + of_nat n, ct_rx c)"
  "traffic (add_rx n c) = (ct_tx c, ct_rx c + of_nat n)"
  "traffic (transaction_completed c) = traffic c"
  "traffic (complete_replayed lat b c) = traffic c"
  by (simp_all add: traffic_def add_tx_def add_rx_def transaction_completed_def complete_replayed_def
      push_http_latency_def Let_def)

lemma read_count_then:
  "length bs = n \<Longrightarrow> io_in st = bs @ rest \<Longrightarrow>
     bind_w (read_exact_count timed n) f (st, c) = f () (st\<lparr>io_in := rest\<rparr>, c)"
  by (simp add: bind_w_def read_exact_count_ok)

lemma replay_server_run:
  "io_in st = sent_by ClientToServer turns @ rest \<Longrightarrow>
     \<exists>c'. replay_server http1 turns (st, c)
         = (Inr (), st\<lparr>io_in := rest, io_out := io_out st @ sent_by ServerToClient turns\<rparr>, c')
       \<and> ct_tx c' = ct_tx c + of_nat (length (sent_by ServerToClient turns))
       \<and> ct_rx c' = ct_rx c + of_nat (length (sent_by ClientToServer turns))"
proof (induction turns arbitrary: st c)
  case Nil
  then show ?case by (simp add: return_w_def)
next
  case (Cons turn turns)
  show ?case
  proof (cases "rt_direction turn")
    case ClientToServer
    have s: "replay_server http1 (turn # turns) (st, c) = replay_server http1 turns
        (st\<lparr>io_in := sent_by ClientToServer turns @ rest\<rparr>, add_rx (length (rt_payload turn)) c)"
      using Cons.prems ClientToServer by (simp add: read_count_then)
    from Cons.IH [of "st\<lparr>io_in := sent_by ClientToServer turns @ rest\<rparr>" "add_rx (length (rt_payload turn)) c"]
    show ?thesis unfolding s using ClientToServer by (auto simp: add_rx_def)
  next
    case ServerToClient
    let ?c = "(if http1 then transaction_completed else id) (add_tx (length (rt_payload turn)) c)"
    have s: "replay_server http1 (turn # turns) (st, c) = replay_server http1 turns
        (st\<lparr>io_out := io_out st @ rt_payload turn\<rparr>, ?c)"
      using ServerToClient by simp
    have t: "ct_tx ?c = ct_tx c + of_nat (length (rt_payload turn))" "ct_rx ?c = ct_rx c"
      by (simp_all add: add_tx_def transaction_completed_def)
    have "io_in (st\<lparr>io_out := io_out st @ rt_payload turn\<rparr>) = sent_by ClientToServer turns @ rest"
      using Cons.prems ServerToClient by simp
    from Cons.IH [OF this, of ?c] show ?thesis unfolding s using ServerToClient t
      by (auto simp: algebra_simps)
  qed
qed

lemma replay_client_run:
  "io_in st = sent_by ServerToClient turns @ rest \<Longrightarrow>
     \<exists>c'. replay_client lat http1 b turns (st, c)
         = (Inr (), st\<lparr>io_in := rest, io_out := io_out st @ sent_by ClientToServer turns\<rparr>, c')
       \<and> ct_tx c' = ct_tx c + of_nat (length (sent_by ClientToServer turns))
       \<and> ct_rx c' = ct_rx c + of_nat (length (sent_by ServerToClient turns))"
proof (induction turns arbitrary: st c b)
  case Nil
  then show ?case by (simp add: return_w_def)
next
  case (Cons turn turns)
  show ?case
  proof (cases "rt_direction turn")
    case ServerToClient
    let ?c = "(if http1 then complete_replayed lat b else id) (add_rx (length (rt_payload turn)) c)"
    have s: "replay_client lat http1 b (turn # turns) (st, c) = replay_client lat http1 (b \<and> \<not> http1) turns
        (st\<lparr>io_in := sent_by ServerToClient turns @ rest\<rparr>, ?c)"
      using Cons.prems ServerToClient by (simp add: read_count_then)
    have t: "ct_rx ?c = ct_rx c + of_nat (length (rt_payload turn))" "ct_tx ?c = ct_tx c"
      by (simp_all add: add_rx_def complete_replayed_def transaction_completed_def push_http_latency_def Let_def)
    from Cons.IH [of "st\<lparr>io_in := sent_by ServerToClient turns @ rest\<rparr>" "b \<and> \<not> http1" ?c]
    show ?thesis unfolding s using ServerToClient t by (auto simp: algebra_simps)
  next
    case ClientToServer
    let ?st = "st\<lparr>io_out := io_out st @ rt_payload turn\<rparr>"
    have s: "replay_client lat http1 b (turn # turns) (st, c)
        = replay_client lat http1 (b \<or> http1) turns (?st, add_tx (length (rt_payload turn)) c)"
      using ClientToServer by simp
    have "io_in ?st = sent_by ServerToClient turns @ rest" using Cons.prems ClientToServer by simp
    from Cons.IH [OF this, of "b \<or> http1" "add_tx (length (rt_payload turn)) c"]
    show ?thesis unfolding s using ClientToServer by (auto simp: add_tx_def)
  qed
qed

section \<open>Detection\<close>

lemma filter_eq_upt: "i < n \<Longrightarrow> filter (\<lambda>j. j = i) [0..<n] = [i]"
  by (induction n) (auto simp: less_Suc_eq)

lemma starts_with_take: "starts_with xs (take n xs)"
  by (simp add: starts_with_prefix take_is_prefix)

text \<open>
  While flow \<open>i\<close>'s first payload \<open>p\<close> arrives, \<open>i\<close> stays a candidate; when it has arrived, no other
  flow is one.
\<close>

lemma detect_loop_finds:
  assumes d: "distinguishable flows" and i: "i < length flows"
    and cand: "\<And>r. candidates r = filter (\<lambda>j. starts_with (first_payload (flows ! j)) r) [0..<length flows]"
  defines "p \<equiv> first_payload (flows ! i)"
  shows "n < length p \<Longrightarrow> io_in st = drop n p @ rest \<Longrightarrow>
     detect_loop http1 flows (take n p) (candidates (take n p)) (st, c)
     = replay_server http1 (tl (flows ! i)) (st\<lparr>io_in := rest\<rparr>, add_rx (length p) c)"
proof (induction "length p - n" arbitrary: n st)
  case 0
  then show ?case by simp
next
  case (Suc k)
  obtain byte tail where bt: "drop n p = byte # tail" using Suc.prems(1) by (cases "drop n p") auto
  have byte: "byte = p ! n" and tail: "tail = drop (Suc n) p"
    using bt Suc.prems(1) by (simp_all add: Cons_nth_drop_Suc [symmetric])
  have r: "take n p @ [byte] = take (Suc n) p" using Suc.prems(1) by (simp add: take_Suc_conv_app_nth byte)
  have "prefix (take n p) (take (Suc n) p)" by (simp add: take_is_prefix flip: r)
  then have keep: "starts_with xs (take (Suc n) p) \<Longrightarrow> starts_with xs (take n p)" for xs
    unfolding starts_with_prefix by (rule prefix_order.trans)
  have next_cand: "filter (\<lambda>j. starts_with (first_payload (flows ! j)) (take (Suc n) p)) (candidates (take n p))
      = candidates (take (Suc n) p)"
    unfolding cand filter_filter by (rule filter_cong) (auto intro: keep)
  have here: "i \<in> set (candidates (take (Suc n) p))"
    using i by (simp add: cand p_def starts_with_take)
  have step: "detect_loop http1 flows (take n p) (candidates (take n p)) (st, c) =
      (let cs = candidates (take (Suc n) p)
       in if length cs = 1 \<and> length (first_payload (flows ! hd cs)) = Suc n
          then replay_server http1 (tl (flows ! hd cs)) (st\<lparr>io_in := tail @ rest\<rparr>, add_rx (Suc n) c)
          else detect_loop http1 flows (take (Suc n) p) cs (st\<lparr>io_in := tail @ rest\<rparr>, c))"
    using Suc.prems bt here
    by (subst detect_loop.simps) (auto simp: r next_cand Let_def)
  have only: "candidates p = [i]"
  proof -
    have "starts_with (first_payload (flows ! j)) p \<longleftrightarrow> j = i" if "j < length flows" for j
      using d i that unfolding distinguishable_def starts_with_prefix p_def by auto
    then have "candidates p = filter (\<lambda>j. j = i) [0..<length flows]"
      unfolding cand by (intro filter_cong) auto
    then show ?thesis using i by (simp add: filter_eq_upt)
  qed
  show ?case
  proof (cases "Suc n = length p")
    case True
    then show ?thesis unfolding step using only tail by (simp add: p_def Let_def)
  next
    case False
    have ne: "\<not> (length (candidates (take (Suc n) p)) = 1
        \<and> length (first_payload (flows ! hd (candidates (take (Suc n) p)))) = Suc n)"
    proof
      assume a: "length (candidates (take (Suc n) p)) = 1
        \<and> length (first_payload (flows ! hd (candidates (take (Suc n) p)))) = Suc n"
      then have "candidates (take (Suc n) p) = [i]"
        using here by (auto simp: length_Suc_conv)
      with a show False using False by (simp add: p_def)
    qed
    have "k = length p - Suc n" using Suc.hyps(2) by simp
    moreover have "Suc n < length p" using False Suc.prems(1) by simp
    ultimately have "detect_loop http1 flows (take (Suc n) p) (candidates (take (Suc n) p))
        (st\<lparr>io_in := tail @ rest\<rparr>, c)
        = replay_server http1 (tl (flows ! i)) (st\<lparr>io_in := rest\<rparr>, add_rx (length p) c)"
      using Suc.hyps(1) [of "Suc n" "st\<lparr>io_in := tail @ rest\<rparr>"] tail by simp
    then show ?thesis unfolding step Let_def using ne by (simp only: if_False)
  qed
qed

lemma detect_run:
  assumes "distinguishable flows" and "i < length flows"
    and "io_in st = first_payload (flows ! i) @ rest"
  shows "replay_server_detect http1 flows (st, c)
    = replay_server http1 (tl (flows ! i)) (st\<lparr>io_in := rest\<rparr>, add_rx (length (first_payload (flows ! i))) c)"
proof -
  have "first_payload (flows ! i) \<noteq> []"
    using assms(1,2) by (simp add: distinguishable_def flow_starts_ok_def)
  moreover have "[0..<length flows] = filter (\<lambda>j. starts_with (first_payload (flows ! j)) []) [0..<length flows]"
    by (simp add: starts_with_def)
  ultimately show ?thesis
    unfolding replay_server_detect_def
    using detect_loop_finds [OF assms(1,2), of "\<lambda>r. filter (\<lambda>j. starts_with (first_payload (flows ! j)) r) [0..<length flows]"
        0 st rest http1 c] assms(3) by simp
qed

section \<open>Properties\<close>

text \<open>
  C2. The check an agent makes of a replay plan is exactly what detection needs: a plan is
  accepted precisely when every flow starts with a non-empty turn of the client and no flow's
  first turn is the beginning of another's.
\<close>

theorem replay_plan_check_exact:
  "validate_flows flows = Inr () \<longleftrightarrow>
     (\<forall>f\<in>set flows. flow_starts_ok f)
   \<and> (\<forall>i<length flows. \<forall>j<length flows. i \<noteq> j \<longrightarrow> \<not> prefix (first_payload (flows ! i)) (first_payload (flows ! j)))"
  using validate_flows_iff [of flows] by (simp add: distinguishable_def)

theorem replay_plan_check_exact_witness:
  "validate_flows [[\<lparr>rt_direction = ClientToServer, rt_payload = [1, 2]\<rparr>], [\<lparr>rt_direction = ClientToServer, rt_payload = [1, 3]\<rparr>]]
     = Inr ()"
  unfolding replay_plan_check_exact
  by (simp add: flow_starts_ok_def first_payload_def less_Suc_eq)

text \<open>
  C1. A replayed conversation reproduces the captured one. When both agents hold a plan that was
  accepted and the client replays any of its flows, the server, whatever else follows on the
  connection, finds that flow byte by byte and both sides run to completion: each receives exactly
  what the other's turns send, nothing further is consumed, and each counts these bytes.
\<close>

theorem replay_reproduces_conversation:
  assumes "validate_flows flows = Inr ()" and "i < length flows"
    and "io_in cst = sent_by ServerToClient (flows ! i) @ crest"
    and "io_in sst = sent_by ClientToServer (flows ! i) @ srest"
  shows "\<exists>cc sc.
      replay_client lat http1 False (flows ! i) (cst, c)
        = (Inr (), cst\<lparr>io_in := crest, io_out := io_out cst @ sent_by ClientToServer (flows ! i)\<rparr>, cc)
    \<and> replay_server_detect http1 flows (sst, s)
        = (Inr (), sst\<lparr>io_in := srest, io_out := io_out sst @ sent_by ServerToClient (flows ! i)\<rparr>, sc)
    \<and> ct_tx cc = ct_tx c + of_nat (length (sent_by ClientToServer (flows ! i)))
    \<and> ct_rx sc = ct_rx s + of_nat (length (sent_by ClientToServer (flows ! i)))
    \<and> ct_rx cc = ct_rx c + of_nat (length (sent_by ServerToClient (flows ! i)))
    \<and> ct_tx sc = ct_tx s + of_nat (length (sent_by ServerToClient (flows ! i)))"
proof -
  have d: "distinguishable flows" using assms(1) by (simp add: validate_flows_iff)
  then have "flow_starts_ok (flows ! i)" using assms(2) by (simp add: distinguishable_def)
  then obtain t ts where f: "flows ! i = t # ts" and t: "rt_direction t = ClientToServer"
    by (cases "flows ! i") (auto simp: flow_starts_ok_def)
  have p: "first_payload (flows ! i) = rt_payload t" by (simp add: f first_payload_def)
  obtain cc where cc: "replay_client lat http1 False (flows ! i) (cst, c)
      = (Inr (), cst\<lparr>io_in := crest, io_out := io_out cst @ sent_by ClientToServer (flows ! i)\<rparr>, cc)"
    "ct_tx cc = ct_tx c + of_nat (length (sent_by ClientToServer (flows ! i)))"
    "ct_rx cc = ct_rx c + of_nat (length (sent_by ServerToClient (flows ! i)))"
    using replay_client_run [OF assms(3)] by blast
  let ?st = "sst\<lparr>io_in := sent_by ClientToServer ts @ srest\<rparr>"
  have "io_in sst = first_payload (flows ! i) @ sent_by ClientToServer ts @ srest"
    using assms(4) t by (simp add: f first_payload_def)
  from detect_run [OF d assms(2) this]
  have det: "replay_server_detect http1 flows (sst, s)
      = replay_server http1 ts (?st, add_rx (length (rt_payload t)) s)" by (simp add: f p first_payload_def)
  obtain sc where sc: "replay_server http1 ts (?st, add_rx (length (rt_payload t)) s)
      = (Inr (), ?st\<lparr>io_in := srest, io_out := io_out ?st @ sent_by ServerToClient ts\<rparr>, sc)"
    "ct_tx sc = ct_tx (add_rx (length (rt_payload t)) s) + of_nat (length (sent_by ServerToClient ts))"
    "ct_rx sc = ct_rx (add_rx (length (rt_payload t)) s) + of_nat (length (sent_by ClientToServer ts))"
    using replay_server_run [of ?st ts srest http1 "add_rx (length (rt_payload t)) s"] by auto
  have "ct_tx sc = ct_tx s + of_nat (length (sent_by ServerToClient (flows ! i)))"
    "ct_rx sc = ct_rx s + of_nat (length (sent_by ClientToServer (flows ! i)))"
    using sc(2,3) t by (simp_all add: f add_rx_def)
  with cc sc(1) det t show ?thesis by (simp add: f)
qed

definition example_flows :: "replay_flow list" where
  "example_flows =
     [[\<lparr>rt_direction = ClientToServer, rt_payload = [1, 2]\<rparr>, \<lparr>rt_direction = ServerToClient, rt_payload = [9]\<rparr>],
      [\<lparr>rt_direction = ClientToServer, rt_payload = [1, 3]\<rparr>, \<lparr>rt_direction = ServerToClient, rt_payload = [8]\<rparr>]]"

theorem replay_reproduces_conversation_witness:
  "fst (replay_server_detect False example_flows
     (\<lparr>io_in = [1, 3, 5], io_out = [], io_silent = True\<rparr>, counters_default 0)) = Inr ()"
proof -
  have "validate_flows example_flows = Inr ()" by (simp add: example_flows_def, code_simp)
  from replay_reproduces_conversation [OF this, of 1 "\<lparr>io_in = [8], io_out = [], io_silent = True\<rparr>" "[]"
      "\<lparr>io_in = [1, 3, 5], io_out = [], io_silent = True\<rparr>" "[5]" "\<lambda>_. 0" False "counters_default 0" "counters_default 0"]
  show ?thesis by (auto simp: example_flows_def)
qed

text \<open>
  HTTP/2 captures of requests without a body cannot be replayed: the plan of an HTTP/2
  scenario consists of the bodies alone, so a flow whose first request has an empty body is
  refused, although the capture is one the control plane accepts for the scenario.
\<close>

theorem http2_bodyless_capture_refused:
  assumes "sc_protocol s = Http2" and "ca_flows a = [f]" and "rf_http2_transactions f = t # ts"
    and "h2t_request_body t = []"
  shows "replay_plan_from_analysis s role a = Inl (FlowStartsWrong 0)"
  using assms
  by (simp add: replay_plan_from_analysis_def List.map_filter_simps flow_turns_def http2_replay_turns_def
      validate_flows_def validate_flow_def)

definition example_h2_flow :: reassembled_flow where
  "example_h2_flow =
     \<lparr>rf_key = \<lparr>fk_client = \<lparr>en_address = [], en_port = 1\<rparr>, fk_server = \<lparr>en_address = [], en_port = 2\<rparr>\<rparr>,
      rf_client_to_server = [1], rf_server_to_client = [2], rf_retransmitted_bytes = 0, rf_turns = [],
      rf_http_transactions = [], rf_http2_transactions =
        [\<lparr>h2t_method = bytes_of ''GET'', h2t_path = bytes_of ''/'', h2t_authority = [], h2t_status = bytes_of ''200'',
          h2t_request_body = [], h2t_response_body = [7]\<rparr>]\<rparr>"

theorem http2_bodyless_capture_refused_witness:
  "replay_plan_from_analysis ((scenario_default 1 2)\<lparr>sc_protocol := Http2\<rparr>) ReplayClient
     \<lparr>ca_packet_count = 1, ca_captured_bytes = 1, ca_flows = [example_h2_flow], ca_exclusions = exclusions_default\<rparr>
   = Inl (FlowStartsWrong 0)"
  by (rule http2_bodyless_capture_refused [of _ _ example_h2_flow]) (simp add: example_h2_flow_def)+

end
