(* ===== verification/Messages.thy ===== *)
theory Messages
  imports Artifact Agent_Net
begin

text \<open>
  The messages between the control plane and the agents (\<open>crates/proto/proto/agent.proto\<close>, from
  which the build generates the structures), with the fields the sources use. A role is the
  enumeration's number: 0 unspecified, 1 client, 2 server. JSON texts are strings that the
  packages parse and print.
\<close>

section \<open>From control to agent\<close>

record prepare_run =
  pr_run_id :: string
  pr_scenario_json :: string
  pr_command_id :: string
  pr_endpoint_role :: int
  pr_target_addr :: string
  pr_interface_name :: string
  pr_namespace :: string
  pr_source_ips :: "string list"

record start_run_msg =
  st_run_id :: string
  st_start_unix_ms :: int
  st_command_id :: string
  st_endpoint_role :: int

record stop_run_msg =
  sp_run_id :: string
  sp_command_id :: string
  sp_endpoint_role :: int

record set_paused_msg =
  sd_run_id :: string
  sd_paused :: bool
  sd_command_id :: string
  sd_endpoint_role :: int

record preflight_run =
  pf_scenario_json :: string
  pf_command_id :: string
  pf_endpoint_role :: int

record wire_endpoint =
  we_node_id :: string
  we_interface_name :: string
  we_start_cidr :: string
  we_count :: u32

record wire_draft =
  wf_id :: string
  wf_name :: string
  wf_client_endpoint :: "wire_endpoint option"
  wf_server_endpoint :: "wire_endpoint option"
  wf_mtu :: u32
  wf_diagnostic_port :: u32
  wf_path_probe_enabled :: bool
  wf_provisioning :: string
  wf_allow_virtual_interfaces :: bool

datatype command_action =
    PlanAction (pa_revision: string) (pa_draft: "wire_draft option")
  | StageAction "network_plan option"
  | CommitAction | RollbackAction | TeardownAction | ReconcileAction

record network_command =
  nc_command_id :: string
  nc_operation_id :: string
  nc_lease_expires_unix_ms :: int
  nc_action :: "command_action option"

datatype control_message =
    Prepare prepare_run | Start start_run_msg | Stop stop_run_msg | SetPaused set_paused_msg
  | Chunk artifact_chunk | Network network_command | Preflight preflight_run

section \<open>From agent to control\<close>

record agent_hello =
  hl_node_id :: string
  hl_hostname :: string
  hl_instance_id :: string
  hl_inventory :: "node_inventory option"

record command_ack =
  ca_command_id :: string
  ca_run_id :: string
  ca_phase :: string
  ca_ok :: bool
  ca_error :: string

record network_progress =
  ng_command_id :: string
  ng_operation_id :: string
  ng_stage :: string
  ng_ok :: bool
  ng_plan :: "network_plan option"
  ng_error :: string

record agent_event =
  ev_run_id :: string
  ev_level :: string
  ev_message :: string
  ev_endpoint_role :: int

record telemetry_msg =
  tm_run_id :: string
  tm_metrics_json :: string
  tm_endpoint_role :: int

datatype agent_message =
    Hello agent_hello | Heartbeat | CommandAck command_ack | NetworkProgress network_progress
  | StatusMsg string | TelemetryMsg telemetry_msg | EventMsg agent_event

end
