(* ===== verification/Wire.thy ===== *)
theory Wire
  imports Messages
begin

text \<open>
  The conversions at the borders of the processes: network profiles between the domain and the
  protocol (\<open>crates/proto/src/conversions.rs\<close>), and plans between the protocol and the JSON that
  the control plane stores and answers with (\<open>crates/control/src/wire.rs\<close>). A JSON value is what
  \<open>serde_json\<close> makes of a text; an object is an association list in the order of its keys.
\<close>

section \<open>Profiles\<close>

datatype conversion_error =
    InvalidProfileId | MissingEndpoint string | InvalidDiagnosticPort u32 | InvalidProvisioning string

definition endpoint_to_wire :: "endpoint_profile \<Rightarrow> wire_endpoint" where
  "endpoint_to_wire e =
     \<lparr>we_node_id = ep_node_id e, we_interface_name = ep_interface_name e,
      we_start_cidr = ep_start_cidr e, we_count = ep_count e\<rparr>"

definition endpoint_from_wire :: "wire_endpoint \<Rightarrow> endpoint_profile" where
  "endpoint_from_wire e =
     \<lparr>ep_node_id = we_node_id e, ep_interface_name = we_interface_name e,
      ep_start_cidr = we_start_cidr e, ep_count = we_count e\<rparr>"

definition network_draft_to_wire :: "(uuid \<Rightarrow> string) \<Rightarrow> network_profile_draft \<Rightarrow> wire_draft" where
  "network_draft_to_wire show_uuid d =
     \<lparr>wf_id = show_uuid (np_id d), wf_name = np_name d,
      wf_client_endpoint = Some (endpoint_to_wire (np_client_endpoint d)),
      wf_server_endpoint = Some (endpoint_to_wire (np_server_endpoint d)),
      wf_mtu = np_mtu d, wf_diagnostic_port = ucast (np_diagnostic_port d),
      wf_path_probe_enabled = np_path_probe_enabled d,
      wf_provisioning = (case np_provisioning d of
         ManagedNamespace \<Rightarrow> ''managed_namespace'' | OperatorManaged \<Rightarrow> ''operator_managed''),
      wf_allow_virtual_interfaces = np_allow_virtual_interfaces d\<rparr>"

definition provisioning_from_wire :: "string \<Rightarrow> conversion_error + network_provisioning" where
  "provisioning_from_wire p =
     (if p = [] \<or> p = ''managed_namespace'' then Inr ManagedNamespace
      else if p = ''operator_managed'' then Inr OperatorManaged
      else Inl (InvalidProvisioning p))"

definition network_draft_from_wire :: "(string \<Rightarrow> uuid option) \<Rightarrow> wire_draft \<Rightarrow> conversion_error + network_profile_draft" where
  "network_draft_from_wire parse_uuid v =
     bind_res (ok_or InvalidProfileId (parse_uuid (wf_id v))) (\<lambda>i.
     bind_res (ok_or (MissingEndpoint ''client'') (wf_client_endpoint v)) (\<lambda>c.
     bind_res (ok_or (MissingEndpoint ''server'') (wf_server_endpoint v)) (\<lambda>s.
     bind_res (if unat (wf_diagnostic_port v) < 2 ^ 16 then Inr (ucast (wf_diagnostic_port v))
               else Inl (InvalidDiagnosticPort (wf_diagnostic_port v))) (\<lambda>port.
     bind_res (provisioning_from_wire (wf_provisioning v)) (\<lambda>p.
       Inr \<lparr>np_id = i, np_name = wf_name v, np_provisioning = p,
            np_allow_virtual_interfaces = wf_allow_virtual_interfaces v,
            np_client_endpoint = endpoint_from_wire c, np_server_endpoint = endpoint_from_wire s,
            np_mtu = wf_mtu v, np_diagnostic_port = port, np_path_probe_enabled = wf_path_probe_enabled v\<rparr>)))))"

section \<open>JSON\<close>

datatype json =
    JNull | JBool bool | JNumber int | JString string | JArray "json list" | JObject "(string \<times> json) list"

text \<open>Indexing by a name gives null for a missing key and for a value that is not an object.\<close>

definition json_get :: "json \<Rightarrow> string \<Rightarrow> json" where
  "json_get v name =
     (case v of JObject members \<Rightarrow> (case map_of members name of None \<Rightarrow> JNull | Some x \<Rightarrow> x) | _ \<Rightarrow> JNull)"

definition as_str :: "json \<Rightarrow> string option" where
  "as_str v = (case v of JString s \<Rightarrow> Some s | _ \<Rightarrow> None)"

definition as_array :: "json \<Rightarrow> json list option" where
  "as_array v = (case v of JArray xs \<Rightarrow> Some xs | _ \<Rightarrow> None)"

definition as_object :: "json \<Rightarrow> (string \<times> json) list option" where
  "as_object v = (case v of JObject fs \<Rightarrow> Some fs | _ \<Rightarrow> None)"

definition string_field :: "json \<Rightarrow> string \<Rightarrow> string" where
  "string_field v name = (case as_str (json_get v name) of None \<Rightarrow> [] | Some s \<Rightarrow> s)"

definition array_items :: "json \<Rightarrow> string \<Rightarrow> json list" where
  "array_items v name = (case as_array (json_get v name) of None \<Rightarrow> [] | Some xs \<Rightarrow> xs)"

definition string_array :: "json \<Rightarrow> string \<Rightarrow> string list" where
  "string_array v name = List.map_filter as_str (array_items v name)"

definition json_strings :: "string list \<Rightarrow> json" where "json_strings xs = JArray (map JString xs)"

section \<open>Plans\<close>

definition command_to_json :: "command_spec \<Rightarrow> json" where
  "command_to_json c = JObject [(''program'', JString (cs_program c)), (''args'', json_strings (cs_args c))]"

definition json_to_command :: "json \<Rightarrow> command_spec" where
  "json_to_command v = \<lparr>cs_program = string_field v ''program'', cs_args = string_array v ''args''\<rparr>"

definition endpoint_to_json :: "endpoint_plan \<Rightarrow> json" where
  "endpoint_to_json e =
     JObject [(''role'', JString (el_role e)), (''namespace'', JString (el_namespace e)),
       (''interface'', JString (el_interface e)), (''addresses'', json_strings (el_addresses e))]"

definition json_to_endpoint :: "json \<Rightarrow> endpoint_plan" where
  "json_to_endpoint v =
     \<lparr>el_role = string_field v ''role'', el_namespace = string_field v ''namespace'',
      el_interface = string_field v ''interface'', el_addresses = string_array v ''addresses''\<rparr>"

definition plan_to_json :: "network_plan \<Rightarrow> json" where
  "plan_to_json p =
     JObject [(''profile_revision_id'', JString (nl_profile_revision_id p)), (''node_id'', JString (nl_node_id p)),
       (''inventory_fingerprint'', JString (nl_inventory_fingerprint p)),
       (''endpoints'', JArray (map endpoint_to_json (nl_endpoints p))),
       (''semantic_changes'', json_strings (nl_semantic_changes p)),
       (''commands'', JArray (map command_to_json (nl_commands p))),
       (''rollback_commands'', JArray (map command_to_json (nl_rollback_commands p))),
       (''warnings'', json_strings (nl_warnings p))]"

datatype wire_error = RevisionMissing | PlanListMissing string | DraftInvalid | UnknownNetworkAction string

definition plan_commands :: "json \<Rightarrow> string \<Rightarrow> wire_error + command_spec list" where
  "plan_commands v name =
     bind_res (ok_or (PlanListMissing name) (as_array (json_get v name))) (\<lambda>xs. Inr (map json_to_command xs))"

text \<open>The inventory of a node; the entries of a map are those the parameter lists.\<close>

definition optional :: "('a \<Rightarrow> json) \<Rightarrow> 'a option \<Rightarrow> json" where
  "optional f x = (case x of None \<Rightarrow> JNull | Some v \<Rightarrow> f v)"

definition flags_to_json :: "((string \<Rightarrow> bool option) \<Rightarrow> (string \<times> bool) list) \<Rightarrow> (string \<Rightarrow> bool option) \<Rightarrow> json" where
  "flags_to_json entries m = JObject (map (\<lambda>(k, b). (k, JBool b)) (entries m))"

definition interface_to_json :: "((string \<Rightarrow> bool option) \<Rightarrow> (string \<times> bool) list) \<Rightarrow> interface_inventory \<Rightarrow> json" where
  "interface_to_json entries v = JObject
     [(''name'', JString (ii_name v)), (''kind'', optional JString (ii_kind v)), (''mac'', optional JString (ii_mac v)),
      (''mtu'', optional (\<lambda>n. JNumber (uint n)) (ii_mtu v)), (''state'', optional JString (ii_state v)),
      (''master'', optional JString (ii_master v)), (''addresses'', json_strings (ii_addresses v)),
      (''link_up'', JBool (ii_link_up v)), (''offloads'', flags_to_json entries (ii_offloads v))]"

definition inventory_to_json :: "((string \<Rightarrow> bool option) \<Rightarrow> (string \<times> bool) list) \<Rightarrow> node_inventory \<Rightarrow> json" where
  "inventory_to_json entries v = JObject
     [(''interfaces'', JArray (map (interface_to_json entries) (ni_interfaces v))),
      (''capabilities'', flags_to_json entries (ni_capabilities v)),
      (''protected_interfaces'', json_strings (ni_protected_interfaces v)),
      (''fingerprint'', JString (ni_fingerprint v))]"

definition json_to_plan :: "json \<Rightarrow> wire_error + network_plan" where
  "json_to_plan v =
     bind_res (plan_commands v ''commands'') (\<lambda>cs.
     bind_res (plan_commands v ''rollback_commands'') (\<lambda>rs.
       Inr \<lparr>nl_profile_revision_id = string_field v ''profile_revision_id'', nl_node_id = string_field v ''node_id'',
            nl_inventory_fingerprint = string_field v ''inventory_fingerprint'',
            nl_endpoints = map json_to_endpoint (array_items v ''endpoints''),
            nl_semantic_changes = string_array v ''semantic_changes'', nl_commands = cs,
            nl_rollback_commands = rs, nl_warnings = string_array v ''warnings''\<rparr>))"

text \<open>\<open>parse_draft\<close> is the derived deserializer of a profile.\<close>

definition network_action :: "(uuid \<Rightarrow> string) \<Rightarrow> (json \<Rightarrow> network_profile_draft option) \<Rightarrow> string \<Rightarrow> json
    \<Rightarrow> wire_error + command_action" where
  "network_action show_uuid parse_draft action payload =
     (if action = ''plan'' then
        bind_res (ok_or RevisionMissing (as_str (json_get payload ''profile_revision_id''))) (\<lambda>r.
        bind_res (ok_or DraftInvalid (parse_draft (json_get payload ''draft''))) (\<lambda>d.
          Inr (PlanAction r (Some (network_draft_to_wire show_uuid d)))))
      else if action = ''stage'' then bind_res (json_to_plan payload) (\<lambda>p. Inr (StageAction (Some p)))
      else if action = ''commit'' then Inr CommitAction
      else if action = ''rollback'' then Inr RollbackAction
      else if action = ''teardown'' then Inr TeardownAction
      else if action = ''reconcile'' then Inr ReconcileAction
      else Inl (UnknownNetworkAction action))"

section \<open>Round trips\<close>

lemma map_filter_strings [simp]: "List.map_filter as_str (map JString xs) = xs"
  by (induction xs) (simp_all add: List.map_filter_simps as_str_def)

lemma command_json [simp]: "json_to_command (command_to_json c) = c"
  by (simp add: json_to_command_def command_to_json_def string_field_def string_array_def array_items_def
      json_get_def as_str_def [of "JString _"] as_array_def json_strings_def)

lemma endpoint_json [simp]: "json_to_endpoint (endpoint_to_json e) = e"
  by (simp add: json_to_endpoint_def endpoint_to_json_def string_field_def string_array_def array_items_def
      json_get_def as_str_def [of "JString _"] as_array_def json_strings_def)

lemma plan_json [simp]: "json_to_plan (plan_to_json p) = Inr p"
  by (simp add: json_to_plan_def plan_to_json_def plan_commands_def string_field_def string_array_def array_items_def
      json_get_def as_str_def [of "JString _"] as_array_def json_strings_def ok_or_def comp_def)

lemma endpoint_wire [simp]: "endpoint_from_wire (endpoint_to_wire e) = e"
  by (simp add: endpoint_from_wire_def endpoint_to_wire_def)

lemma port_nat: "unat (ucast (p :: u16) :: u32) = unat p"
  using unsigned_less [of p, where ?'a = nat] by (simp add: unsigned_ucast_eq take_bit_nat_eq_self)

lemma port_fits: "unat (ucast (p :: u16) :: u32) < 2 ^ 16"
  unfolding port_nat using unsigned_less [of p, where ?'a = nat] by simp

lemma port_back: "ucast (ucast (p :: u16) :: u32) = p"
proof -
  have "ucast (ucast p :: u32) = (of_nat (unat p) :: u16)"
    unfolding port_nat [symmetric] by simp
  then show ?thesis by simp
qed

lemma draft_wire:
  assumes "parse_uuid (show_uuid (np_id d)) = Some (np_id d)"
  shows "network_draft_from_wire parse_uuid (network_draft_to_wire show_uuid d) = Inr d"
  using assms port_fits [of "np_diagnostic_port d"]
  by (cases "np_provisioning d")
    (simp_all add: network_draft_from_wire_def network_draft_to_wire_def provisioning_from_wire_def ok_or_def port_back)

text \<open>
  C40. Nothing is lost between the processes. A profile that the control plane sends with a plan
  action is the profile the agent decodes, and the plan the agent answers with is, after being
  stored and sent back as JSON, exactly the plan that the agent is told to stage.
\<close>

theorem network_actions_round_trip:
  assumes "parse_uuid (show_uuid (np_id d)) = Some (np_id d)" and "parse_draft draft_json = Some d"
  shows "(\<exists>v. network_action show_uuid parse_draft ''plan''
        (JObject [(''profile_revision_id'', JString r), (''draft'', draft_json)]) = Inr (PlanAction r (Some v))
      \<and> network_draft_from_wire parse_uuid v = Inr d)
    \<and> network_action show_uuid parse_draft ''stage'' (plan_to_json p) = Inr (StageAction (Some p))"
  using assms draft_wire [of parse_uuid show_uuid d]
  by (simp add: network_action_def json_get_def as_str_def ok_or_def)

theorem network_actions_round_trip_witness:
  "\<exists>v. network_action (\<lambda>u. ''u'') (\<lambda>j. Some (network_profile_default 1)) ''plan''
        (JObject [(''profile_revision_id'', JString ''r''), (''draft'', JNull)]) = Inr (PlanAction ''r'' (Some v))
      \<and> network_draft_from_wire (\<lambda>t. Some 1) v = Inr (network_profile_default 1)"
proof -
  have "(Some 1 :: uuid option) = Some (np_id (network_profile_default 1))" by (simp add: network_profile_default_def)
  from network_actions_round_trip [of "\<lambda>t. Some 1" "\<lambda>u. ''u''" "network_profile_default 1"
      "\<lambda>j. Some (network_profile_default 1)" JNull, OF this refl]
  show ?thesis by (rule conjunct1)
qed

end
