(* ===== verification/Control_State.thy ===== *)
theory Control_State
  imports Wire "HOL-Library.AList"
begin

text \<open>
  The state of the control plane (\<open>AppState\<close> and \<open>AgentSession\<close> in \<open>crates/control/src/state.rs\<close>),
  the tables of its database with the statements of \<open>repository/\<close>, and the operations its handlers
  are composed of. A handler is an action on the state that returns a value or an error and keeps
  what it changed before the error. What comes from outside (random identifiers, whether a
  statement or a send succeeds, what an agent answers, clocks, the order in which a hash set is
  traversed) is a \<open>world\<close>, read at a counter of the operations made so far.
\<close>

section \<open>Errors\<close>

text \<open>One constructor for each error the handlers report; the HTTP status is \<open>error_kind\<close>.\<close>

datatype api_kind = BadRequest | Conflict | NotFound | Internal

datatype api_error =
    DatabaseError | InvalidScenario validation_error | InvalidProfile validation_error
  | PayloadArtifactIdMissing payload_direction | PayloadArtifactMissing payload_direction
  | NotPayloadArtifact payload_direction | ArtifactSizeChanged payload_direction
  | CaptureIdMissing | CaptureMissing | NotPcapArtifact | NoReplayableFlows protocol
  | RunAlreadyActive | RevisionNotFound | RevisionNotPrepared | AgentNotConnected int
  | InvalidServerPool | InvalidClientPool
  | ArtifactMissing | ArtifactKindUnsupported | ArtifactTooLarge | ArtifactOpenFailed
  | ArtifactShorter | ChannelClosedInTransfer
  | ChannelClosed | AckChannelClosed | AckTimedOut | CommandRejected string string
  | RunNotActive | ParticipantDisconnected string
  | NodeOffline string | NetworkFailed string string | NetworkTimedOut string | UnknownAction string
  | PlanPartMissing string | ProfileNotFound | PlanResponseEmpty | NetworkPlanNotFound
  | PlanTokenUsed | PlanTokenInvalid | PlanExpired | ApplyDuringRun | TeardownDuringRun
  | PlanMissingNode string | PlanDetailMissing | ArchiveDuringRun | RevisionStillPrepared

fun error_kind :: "api_error \<Rightarrow> api_kind" where
  "error_kind RunAlreadyActive = Conflict"
| "error_kind RevisionNotPrepared = Conflict"
| "error_kind PlanTokenUsed = Conflict"
| "error_kind PlanExpired = Conflict"
| "error_kind ApplyDuringRun = Conflict"
| "error_kind TeardownDuringRun = Conflict"
| "error_kind ArchiveDuringRun = Conflict"
| "error_kind RevisionStillPrepared = Conflict"
| "error_kind ProfileNotFound = NotFound"
| "error_kind NetworkPlanNotFound = NotFound"
| "error_kind DatabaseError = Internal"
| "error_kind ArtifactOpenFailed = Internal"
| "error_kind ArtifactShorter = Internal"
| "error_kind ChannelClosedInTransfer = Internal"
| "error_kind ChannelClosed = Internal"
| "error_kind AckChannelClosed = Internal"
| "error_kind AckTimedOut = Internal"
| "error_kind (CommandRejected a e) = Internal"
| "error_kind (ParticipantDisconnected a) = Internal"
| "error_kind (NetworkFailed n e) = Internal"
| "error_kind (NetworkTimedOut n) = Internal"
| "error_kind (UnknownAction a) = Internal"
| "error_kind (PlanPartMissing p) = Internal"
| "error_kind PlanResponseEmpty = Internal"
| "error_kind (PlanMissingNode n) = Internal"
| "error_kind PlanDetailMissing = Internal"
| "error_kind e = BadRequest"

section \<open>The database\<close>

text \<open>The error column of a run: the message of an error, or a reason in words.\<close>

datatype run_note = NoError | ErrorMessage api_error | Reason string

record run_row =
  rr_scenario_id :: string
  rr_scenario_json :: string
  rr_run_name :: string
  rr_status :: string
  rr_started_at :: "int option"
  rr_finished_at :: "int option"
  rr_error :: run_note

record run_event =
  re_run_id :: string
  re_source :: string
  re_agent_id :: "string option"
  re_stage :: string
  re_status :: string

record participant =
  pt_instance_id :: string
  pt_role :: int
  pt_phase :: string
  pt_last_command_id :: string

record artifact_record =
  ar_kind :: string
  ar_sha256 :: string
  ar_size_bytes :: u64
  ar_path :: string
  ar_analysis :: "string \<Rightarrow> u64 option"

record revision_row =
  rv_profile_id :: uuid
  rv_revision :: nat
  rv_sha256 :: string
  rv_body :: network_profile_draft
  rv_status :: string

record profile_row =
  pw_draft :: network_profile_draft
  pw_status :: string
  pw_archived :: bool

record operation_row =
  ow_revision_id :: uuid
  ow_kind :: string
  ow_status :: string
  ow_token_hash :: "string option"
  ow_expires_at :: int
  ow_detail :: json

record database =
  db_runs :: "string \<Rightarrow> run_row option"
  db_run_events :: "run_event list"
  db_participants :: "string \<times> string \<Rightarrow> participant option"
  db_artifacts :: "uuid \<Rightarrow> artifact_record option"
  db_revisions :: "uuid \<Rightarrow> revision_row option"
  db_revision_ids :: "uuid list"
  db_profiles :: "uuid \<Rightarrow> profile_row option"
  db_operations :: "uuid \<Rightarrow> operation_row option"
  db_events :: "(string \<times> string \<times> string) list"
  db_network_events :: "(string \<times> string \<times> string \<times> string) list"
  db_samples :: "(string \<times> string \<times> int \<times> int \<times> string) list"
  db_scenarios :: "(uuid \<times> string \<times> string) list"

section \<open>The state\<close>

text \<open>
  Hash sets are lists without repetitions, and the hash map of the sessions is an association list
  with one entry for each node: their order stands for the arbitrary order they are traversed in.
\<close>

record agent_session =
  ag_instance_id :: string
  ag_generation :: uuid
  ag_role :: int
  ag_hostname :: string
  ag_interfaces :: "string list"
  ag_inventory :: json
  ag_last_seen_ms :: int

datatype broadcast =
    RunStarted uuid | RunState uuid string | RunFinished uuid string
  | AgentEventSent string agent_event | MetricsSent string int | NetworkProgressSent string network_progress

record app_state =
  ap_agents :: "(string \<times> agent_session) list"
  ap_active_run :: "uuid option"
  ap_run_agents :: "uuid \<Rightarrow> string list option"
  ap_completed_agents :: "uuid \<Rightarrow> string list option"
  ap_expected_endpoints :: "uuid \<Rightarrow> string list option"
  ap_pending_acks :: "string list"
  ap_pending_network :: "string list"
  ap_db :: database
  ap_sent :: "(uuid \<times> control_message) list"
  ap_events :: "broadcast list"
  ap_tick :: nat

datatype ack_reply = Acked string bool string | AckDropped | AckTimeout

datatype network_reply = Progressed network_progress | NetworkTimeout

record world =
  wd_show_uuid :: "uuid \<Rightarrow> string"
  wd_parse_uuid :: "string \<Rightarrow> uuid option"
  wd_fresh :: "nat \<Rightarrow> uuid"
  wd_db :: "nat \<Rightarrow> bool"
  wd_send :: "nat \<Rightarrow> bool"
  wd_ack :: "nat \<Rightarrow> ack_reply"
  wd_network :: "nat \<Rightarrow> network_reply"
  wd_now :: "nat \<Rightarrow> int"
  wd_set_order :: "string list \<Rightarrow> string list"
  wd_id_order :: "uuid list \<Rightarrow> uuid list"
  wd_scenario_json :: "scenario \<Rightarrow> string"
  wd_default_name :: "string \<Rightarrow> int \<Rightarrow> string"
  wd_file :: "string \<Rightarrow> bytes option"
  wd_read :: "nat \<Rightarrow> nat \<Rightarrow> nat"
  wd_sha256 :: "string \<Rightarrow> string"
  wd_draft_json :: "network_profile_draft \<Rightarrow> string"
  wd_draft_value :: "network_profile_draft \<Rightarrow> json"
  wd_parse_draft :: "json \<Rightarrow> network_profile_draft option"
  wd_error_text :: "api_error \<Rightarrow> string"
  wd_metrics :: "string \<Rightarrow> int option"
  wd_parse_ip :: "string \<Rightarrow> ip_addr option"
  wd_parse_scenario :: "string \<Rightarrow> scenario option"
  wd_entries :: "(string \<Rightarrow> bool option) \<Rightarrow> (string \<times> bool) list"

type_synonym 'a ctl = "app_state \<Rightarrow> (api_error + 'a) \<times> app_state"

definition ret_c :: "'a \<Rightarrow> 'a ctl" where "ret_c x s = (Inr x, s)"

definition fail_c :: "api_error \<Rightarrow> 'a ctl" where "fail_c e s = (Inl e, s)"

definition bind_c :: "'a ctl \<Rightarrow> ('a \<Rightarrow> 'b ctl) \<Rightarrow> 'b ctl" where
  "bind_c m f s = (case m s of (Inl e, s) \<Rightarrow> (Inl e, s) | (Inr x, s) \<Rightarrow> f x s)"

definition then_c :: "'a ctl \<Rightarrow> 'b ctl \<Rightarrow> 'b ctl" where "then_c m n = bind_c m (\<lambda>_. n)"

text \<open>Run an action and look at its result; drop an action's result (\<open>let _ =\<close>).\<close>

definition catch_c :: "'a ctl \<Rightarrow> (api_error + 'a) ctl" where
  "catch_c m s = (case m s of (r, s) \<Rightarrow> (Inr r, s))"

definition ignore_c :: "'a ctl \<Rightarrow> unit ctl" where
  "ignore_c m s = (Inr (), snd (m s))"

definition get_c :: "(app_state \<Rightarrow> 'a) \<Rightarrow> 'a ctl" where "get_c f s = (Inr (f s), s)"

definition modify_c :: "(app_state \<Rightarrow> app_state) \<Rightarrow> unit ctl" where "modify_c f s = (Inr (), f s)"

definition guard_c :: "bool \<Rightarrow> api_error \<Rightarrow> unit ctl" where
  "guard_c ok e s = (if ok then (Inr (), s) else (Inl e, s))"

definition option_c :: "api_error \<Rightarrow> 'a option \<Rightarrow> 'a ctl" where
  "option_c e x s = (case x of None \<Rightarrow> (Inl e, s) | Some v \<Rightarrow> (Inr v, s))"

definition lift_c :: "api_error + 'a \<Rightarrow> 'a ctl" where "lift_c r s = (r, s)"

text \<open>A reading of the world, and the statements on the database.\<close>

definition ask_c :: "(nat \<Rightarrow> 'a) \<Rightarrow> 'a ctl" where
  "ask_c f s = (Inr (f (ap_tick s)), s\<lparr>ap_tick := Suc (ap_tick s)\<rparr>)"

definition db_exec :: "world \<Rightarrow> (database \<Rightarrow> database) \<Rightarrow> unit ctl" where
  "db_exec w f s =
     (let s' = s\<lparr>ap_tick := Suc (ap_tick s)\<rparr>
      in if wd_db w (ap_tick s) then (Inr (), s'\<lparr>ap_db := f (ap_db s)\<rparr>) else (Inl DatabaseError, s'))"

definition db_query :: "world \<Rightarrow> (database \<Rightarrow> 'a) \<Rightarrow> 'a ctl" where
  "db_query w f s =
     (let s' = s\<lparr>ap_tick := Suc (ap_tick s)\<rparr>
      in if wd_db w (ap_tick s) then (Inr (f (ap_db s)), s') else (Inl DatabaseError, s'))"

text \<open>A send on an agent's channel: lost with an error when the receiver is gone.\<close>

definition send_c :: "world \<Rightarrow> agent_session \<Rightarrow> control_message \<Rightarrow> bool ctl" where
  "send_c w agent m s =
     (let s' = s\<lparr>ap_tick := Suc (ap_tick s)\<rparr>
      in if wd_send w (ap_tick s) then (Inr True, s'\<lparr>ap_sent := ap_sent s @ [(ag_generation agent, m)]\<rparr>)
         else (Inr False, s'))"

definition broadcast_c :: "broadcast \<Rightarrow> unit ctl" where
  "broadcast_c b = modify_c (\<lambda>s. s\<lparr>ap_events := ap_events s @ [b]\<rparr>)"

fun each_c :: "('a \<Rightarrow> unit ctl) \<Rightarrow> 'a list \<Rightarrow> unit ctl" where
  "each_c f [] = ret_c ()"
| "each_c f (x # xs) = then_c (f x) (each_c f xs)"

section \<open>Statements on runs\<close>

definition update_run :: "string \<Rightarrow> (run_row \<Rightarrow> run_row) \<Rightarrow> database \<Rightarrow> database" where
  "update_run run_id f d =
     (case db_runs d run_id of None \<Rightarrow> d | Some r \<Rightarrow> d\<lparr>db_runs := (db_runs d)(run_id \<mapsto> f r)\<rparr>)"

text \<open>The insertion of a run whose identifier exists violates the primary key.\<close>

definition runs_create :: "world \<Rightarrow> string \<Rightarrow> string \<Rightarrow> string \<Rightarrow> string \<Rightarrow> unit ctl" where
  "runs_create w run_id scenario_id scenario_json name =
     bind_c (db_query w (\<lambda>d. db_runs d run_id)) (\<lambda>old. case old of
       Some _ \<Rightarrow> fail_c DatabaseError
     | None \<Rightarrow> modify_c (\<lambda>s. s\<lparr>ap_db := (ap_db s)\<lparr>db_runs := (db_runs (ap_db s))(run_id \<mapsto>
         \<lparr>rr_scenario_id = scenario_id, rr_scenario_json = scenario_json, rr_run_name = name,
          rr_status = ''preparing'', rr_started_at = None, rr_finished_at = None, rr_error = NoError\<rparr>)\<rparr>\<rparr>))"

definition runs_mark_running :: "world \<Rightarrow> string \<Rightarrow> int \<Rightarrow> unit ctl" where
  "runs_mark_running w run_id started =
     db_exec w (update_run run_id (\<lambda>r. r\<lparr>rr_status := ''running'', rr_started_at := Some started\<rparr>))"

definition runs_set_status :: "world \<Rightarrow> string \<Rightarrow> string \<Rightarrow> unit ctl" where
  "runs_set_status w run_id status = db_exec w (update_run run_id (\<lambda>r. r\<lparr>rr_status := status\<rparr>))"

definition runs_finish :: "world \<Rightarrow> string \<Rightarrow> string \<Rightarrow> run_note \<Rightarrow> unit ctl" where
  "runs_finish w run_id status err s =
     db_exec w (update_run run_id (\<lambda>r. r\<lparr>rr_status := status, rr_finished_at := Some (wd_now w (ap_tick s)),
       rr_error := err\<rparr>)) s"

definition begin_participant_command :: "world \<Rightarrow> string \<Rightarrow> string \<Rightarrow> agent_session \<Rightarrow> string \<Rightarrow> string \<Rightarrow> unit ctl" where
  "begin_participant_command w run_id agent_id agent phase command_id =
     db_exec w (\<lambda>d. d\<lparr>db_participants := (db_participants d)((run_id, agent_id) \<mapsto>
       (case db_participants d (run_id, agent_id) of
          None \<Rightarrow> \<lparr>pt_instance_id = ag_instance_id agent, pt_role = ag_role agent, pt_phase = phase,
                   pt_last_command_id = command_id\<rparr>
        | Some p \<Rightarrow> p\<lparr>pt_instance_id := ag_instance_id agent, pt_phase := phase,
                       pt_last_command_id := command_id\<rparr>))\<rparr>)"

definition acknowledge_participant_command :: "world \<Rightarrow> string \<Rightarrow> string \<Rightarrow> string \<Rightarrow> unit ctl" where
  "acknowledge_participant_command w run_id agent_id phase =
     db_exec w (\<lambda>d. case db_participants d (run_id, agent_id) of
       None \<Rightarrow> d
     | Some p \<Rightarrow> d\<lparr>db_participants := (db_participants d)((run_id, agent_id) \<mapsto> p\<lparr>pt_phase := phase @ ''_acked''\<rparr>)\<rparr>)"

definition append_run_event :: "world \<Rightarrow> string \<Rightarrow> string \<Rightarrow> string option \<Rightarrow> string \<Rightarrow> string \<Rightarrow> unit ctl" where
  "append_run_event w run_id source agent_id stage status =
     db_exec w (\<lambda>d. d\<lparr>db_run_events := db_run_events d @
       [\<lparr>re_run_id = run_id, re_source = source, re_agent_id = agent_id, re_stage = stage, re_status = status\<rparr>]\<rparr>)"

definition artifacts_find :: "world \<Rightarrow> uuid \<Rightarrow> artifact_record option ctl" where
  "artifacts_find w i = db_query w (\<lambda>d. db_artifacts d i)"

section \<open>Reasoning about handlers\<close>

text \<open>A world in which the database works and every channel is open.\<close>

definition reliable :: "world \<Rightarrow> bool" where
  "reliable w \<longleftrightarrow> (\<forall>n. wd_db w n \<and> wd_send w n)"

lemma reliableD: "reliable w \<Longrightarrow> wd_db w n" "reliable w \<Longrightarrow> wd_send w n"
  by (simp_all add: reliable_def)

lemma bind_c_Inr: "bind_c m f s = (Inr y, s') \<longleftrightarrow> (\<exists>x s1. m s = (Inr x, s1) \<and> f x s1 = (Inr y, s'))"
  by (auto simp: bind_c_def split: prod.splits sum.splits)

lemma bind_c_Inl:
  "bind_c m f s = (Inl e, s') \<longleftrightarrow> m s = (Inl e, s') \<or> (\<exists>x s1. m s = (Inr x, s1) \<and> f x s1 = (Inl e, s'))"
  by (auto simp: bind_c_def split: prod.splits sum.splits)

text \<open>
  A relation between states that is reflexive and transitive is kept by a handler when each of its
  parts keeps it.
\<close>

definition keeps :: "(app_state \<Rightarrow> app_state \<Rightarrow> bool) \<Rightarrow> 'a ctl \<Rightarrow> bool" where
  "keeps R m \<longleftrightarrow> (\<forall>s. R s (snd (m s)))"

lemma keepsD: "keeps R m \<Longrightarrow> m s = (r, s') \<Longrightarrow> R s s'"
  by (metis keeps_def snd_conv)

locale handler_relation =
  fixes R :: "app_state \<Rightarrow> app_state \<Rightarrow> bool"
  assumes related_refl: "R s s" and related_trans: "R s1 s2 \<Longrightarrow> R s2 s3 \<Longrightarrow> R s1 s3"
begin

lemma keeps_pure: "keeps R (ret_c x)" "keeps R (fail_c e)" "keeps R (get_c f)" "keeps R (guard_c b e)"
  "keeps R (option_c e o')" "keeps R (lift_c r)"
  by (simp_all add: keeps_def ret_c_def fail_c_def get_c_def guard_c_def option_c_def lift_c_def related_refl
      split: option.split)

lemma keeps_bind: "keeps R m \<Longrightarrow> (\<And>x. keeps R (f x)) \<Longrightarrow> keeps R (bind_c m f)"
  unfolding keeps_def bind_c_def
  by (auto split: prod.split sum.split intro: related_trans) (metis related_trans snd_conv)+

lemma keeps_then: "keeps R m \<Longrightarrow> keeps R n \<Longrightarrow> keeps R (then_c m n)"
  unfolding then_c_def by (rule keeps_bind)

lemma keeps_catch: "keeps R m \<Longrightarrow> keeps R (catch_c m)" "keeps R m \<Longrightarrow> keeps R (ignore_c m)"
  by (simp_all add: keeps_def catch_c_def ignore_c_def split_beta)

lemma keeps_each: "(\<And>x. keeps R (f x)) \<Longrightarrow> keeps R (each_c f xs)"
  by (induction xs) (auto intro: keeps_pure keeps_then)

lemma keeps_if: "keeps R m \<Longrightarrow> keeps R n \<Longrightarrow> keeps R (if b then m else n)" by simp

lemma keeps_option: "keeps R m \<Longrightarrow> (\<And>x. keeps R (f x)) \<Longrightarrow> keeps R (case o' of None \<Rightarrow> m | Some x \<Rightarrow> f x)"
  by (cases o') simp_all

lemma keeps_sum: "(\<And>x. keeps R (f x)) \<Longrightarrow> (\<And>x. keeps R (g x)) \<Longrightarrow> keeps R (case r of Inl x \<Rightarrow> f x | Inr x \<Rightarrow> g x)"
  by (cases r) simp_all

lemma keeps_prod: "(\<And>x y. keeps R (f x y)) \<Longrightarrow> keeps R (case p of (x, y) \<Rightarrow> f x y)"
  by (cases p) simp

lemmas keeps_rules = keeps_pure keeps_bind keeps_then keeps_catch keeps_each keeps_if keeps_option keeps_sum keeps_prod

end

section \<open>What leaves the bookkeeping of runs alone\<close>

definition same_book :: "app_state \<Rightarrow> app_state \<Rightarrow> bool" where
  "same_book s s' \<longleftrightarrow> ap_active_run s' = ap_active_run s \<and> ap_run_agents s' = ap_run_agents s
     \<and> ap_completed_agents s' = ap_completed_agents s \<and> ap_expected_endpoints s' = ap_expected_endpoints s"

interpretation book: handler_relation same_book
  by unfold_locales (simp_all add: same_book_def)

lemma book_primitives:
  "keeps same_book (ask_c f)" "keeps same_book (db_exec w g)" "keeps same_book (db_query w q)"
  "keeps same_book (send_c w a m)" "keeps same_book (broadcast_c b)"
  "keeps same_book (runs_create w i1 i2 i3 i4)" "keeps same_book (runs_finish w i1 i2 nt)"
  "keeps same_book (runs_mark_running w i1 started)" "keeps same_book (runs_set_status w i1 i2)"
  "keeps same_book (begin_participant_command w i1 i2 a i3 i4)"
  "keeps same_book (acknowledge_participant_command w i1 i2 i3)"
  "keeps same_book (append_run_event w i1 i2 ag i3 i4)" "keeps same_book (artifacts_find w u)"
proof -
  show a: "keeps same_book (ask_c f)" "keeps same_book (db_exec w g)" "keeps same_book (db_query w q)"
    "keeps same_book (send_c w a m)" "keeps same_book (broadcast_c b)" for f :: "nat \<Rightarrow> 'x" and g and q :: "database \<Rightarrow> 'y" and a m b
    by (auto simp: keeps_def same_book_def ask_c_def db_exec_def db_query_def send_c_def broadcast_c_def
        modify_c_def Let_def)
  show "keeps same_book (runs_create w i1 i2 i3 i4)"
    unfolding runs_create_def
    by (intro book.keeps_rules a) (simp add: keeps_def same_book_def modify_c_def)
  show "keeps same_book (runs_finish w i1 i2 nt)"
    by (auto simp: keeps_def same_book_def runs_finish_def db_exec_def Let_def)
  show "keeps same_book (runs_mark_running w i1 started)" "keeps same_book (runs_set_status w i1 i2)"
    "keeps same_book (begin_participant_command w i1 i2 a i3 i4)"
    "keeps same_book (acknowledge_participant_command w i1 i2 i3)"
    "keeps same_book (append_run_event w i1 i2 ag i3 i4)" "keeps same_book (artifacts_find w u)" for a
    unfolding runs_mark_running_def runs_set_status_def begin_participant_command_def
      acknowledge_participant_command_def append_run_event_def artifacts_find_def by (rule a)+
qed

lemmas book_rules = book.keeps_rules book_primitives

end
