(* ===== verification/Orchestration.thy ===== *)
theory Orchestration
  imports Control_State
begin

text \<open>
  The life of a run in the control plane (\<open>crates/control/src/orchestration.rs\<close>): starting it on
  a client and a server agent, pausing and stopping it, and finishing it. A handler that holds the
  lock on the active run, as \<open>start_run\<close> does from its first look at it to its end, is one step;
  \<open>set_run_paused\<close>, which does not, is composed of two.
\<close>

section \<open>Where a scenario runs\<close>

type_synonym endpoint_runtime = "string \<times> string \<times> string \<times> string list"

definition record_run_event :: "world \<Rightarrow> uuid \<Rightarrow> string \<Rightarrow> string option \<Rightarrow> string \<Rightarrow> string \<Rightarrow> unit ctl" where
  "record_run_event w run_id source agent_id stage status =
     append_run_event w (wd_show_uuid w run_id) source agent_id stage status"

definition scenario_nodes :: "world \<Rightarrow> scenario \<Rightarrow> (string \<times> string \<times> bool) ctl" where
  "scenario_nodes w s =
     (case sc_path s of
        ExplicitProxy cn _ sn _ _ _ \<Rightarrow> ret_c (cn, sn, True)
      | ManagedDirect revision _ \<Rightarrow>
          bind_c (db_query w (\<lambda>d. db_revisions d revision)) (\<lambda>row.
          bind_c (option_c RevisionNotFound row) (\<lambda>r.
            ret_c (ep_node_id (np_client_endpoint (rv_body r)), ep_node_id (np_server_endpoint (rv_body r)),
                   rv_status r = ''prepared''))))"

definition managed_namespace :: "string \<Rightarrow> network_profile_draft \<Rightarrow> string \<Rightarrow> string" where
  "managed_namespace revision d role =
     (if np_provisioning d = ManagedNamespace then ''pt-'' @ take 8 revision @ ''-'' @ role else [])"

definition managed_runtime :: "string \<Rightarrow> network_profile_draft \<Rightarrow> u16 \<Rightarrow> api_error + (endpoint_runtime \<times> endpoint_runtime)" where
  "managed_runtime revision d port =
     bind_res (ok_or InvalidServerPool (split_once CHR ''/'' (ep_start_cidr (np_server_endpoint d)))) (\<lambda>(address, _).
     bind_res (ok_or InvalidClientPool (split_once CHR ''/'' (ep_start_cidr (np_client_endpoint d)))) (\<lambda>(start, _).
     bind_res (ok_or InvalidClientPool (parse_ipv4 start)) (\<lambda>start.
       let target = address @ '':'' @ show_nat (unat port);
           sources = map (\<lambda>n. show_ipv4 (start + of_nat n)) [0..<unat (ep_count (np_client_endpoint d))]
       in Inr ((target, ep_interface_name (np_client_endpoint d), managed_namespace revision d ''client'', sources),
               (target, ep_interface_name (np_server_endpoint d), managed_namespace revision d ''server'', [])))))"

definition scenario_runtime :: "world \<Rightarrow> scenario \<Rightarrow> (endpoint_runtime \<times> endpoint_runtime) ctl" where
  "scenario_runtime w s =
     (case sc_path s of
        ExplicitProxy _ cip _ sip port _ \<Rightarrow>
          let target = show_ip sip @ '':'' @ show_nat (unat port)
          in ret_c ((target, [], [], [show_ip cip]), (target, [], [], []))
      | ManagedDirect revision port \<Rightarrow>
          bind_c (db_query w (\<lambda>d. db_revisions d revision)) (\<lambda>row.
          bind_c (option_c DatabaseError row) (\<lambda>r.
            lift_c (managed_runtime (wd_show_uuid w revision) (rv_body r) port))))"

section \<open>Artifacts\<close>

definition validate_payload_artifact :: "world \<Rightarrow> payload_direction \<times> payload_profile \<Rightarrow> unit ctl" where
  "validate_payload_artifact w x =
     (let (dir, p) = x
      in if pp_kind p \<noteq> PkFile then ret_c ()
         else
           bind_c (option_c (PayloadArtifactIdMissing dir) (pp_artifact_id p)) (\<lambda>i.
           bind_c (artifacts_find w i) (\<lambda>found.
           bind_c (option_c (PayloadArtifactMissing dir) found) (\<lambda>a.
           then_c (guard_c (ar_kind a = ''payload'') (NotPayloadArtifact dir))
             (guard_c (ar_size_bytes a = pp_size_bytes p) (ArtifactSizeChanged dir))))))"

definition flow_count_key :: "protocol \<Rightarrow> string" where
  "flow_count_key p =
     (case p of Http1 \<Rightarrow> ''http_flow_count'' | Http2 \<Rightarrow> ''http2_flow_count'' | Tcp \<Rightarrow> ''supported_flow_count'')"

definition validate_capture_artifact :: "world \<Rightarrow> scenario \<Rightarrow> unit ctl" where
  "validate_capture_artifact w s =
     (if sc_payload_mode s \<noteq> CaptureReplay then ret_c ()
      else
        bind_c (option_c CaptureIdMissing (sc_capture_artifact_id s)) (\<lambda>i.
        bind_c (artifacts_find w i) (\<lambda>found.
        bind_c (option_c CaptureMissing found) (\<lambda>a.
        then_c (guard_c (ar_kind a = ''pcap'') NotPcapArtifact)
          (guard_c ((case ar_analysis a (flow_count_key (sc_protocol s)) of None \<Rightarrow> 0 | Some n \<Rightarrow> n) \<noteq> 0)
             (NoReplayableFlows (sc_protocol s)))))))"

definition validate_artifacts :: "world \<Rightarrow> scenario \<Rightarrow> unit ctl" where
  "validate_artifacts w s =
     then_c (each_c (validate_payload_artifact w)
               [(RequestDir, sc_request_payload s), (ResponseDir, sc_response_payload s)])
       (validate_capture_artifact w s)"

text \<open>The set of artifacts a scenario needs, without repetitions.\<close>

definition needed_artifacts :: "scenario \<Rightarrow> uuid list" where
  "needed_artifacts s =
     remdups (List.map_filter pp_artifact_id
        (filter (\<lambda>p. pp_kind p = PkFile) [sc_request_payload s, sc_response_payload s])
      @ (case sc_capture_artifact_id s of
           Some i \<Rightarrow> if sc_payload_mode s = CaptureReplay then [i] else [] | None \<Rightarrow> []))"

definition send_chunk :: "world \<Rightarrow> agent_session \<Rightarrow> artifact_chunk \<Rightarrow> unit ctl" where
  "send_chunk w agent c = bind_c (send_c w agent (Chunk c)) (\<lambda>ok. guard_c ok ChannelClosedInTransfer)"

definition send_one_artifact :: "world \<Rightarrow> agent_session \<Rightarrow> uuid \<Rightarrow> unit ctl" where
  "send_one_artifact w agent i =
     bind_c (artifacts_find w i) (\<lambda>found.
     bind_c (option_c ArtifactMissing found) (\<lambda>a.
     then_c (guard_c (ar_kind a = ''payload'' \<or> ar_kind a = ''pcap'') ArtifactKindUnsupported) (
     then_c (guard_c (unat (ar_size_bytes a) \<le> (if ar_kind a = ''pcap'' then 512 * 1024 * 1024 else 64 * 1024 * 1024))
               ArtifactTooLarge) (
     bind_c (option_c ArtifactOpenFailed (wd_file w (ar_path a))) (\<lambda>content.
     bind_c (get_c ap_tick) (\<lambda>tick.
       let (chunks, err) = send_loop (wd_show_uuid w) (wd_read w tick)
             \<lparr>sa_id = i, sa_kind = ar_kind a, sa_size = ar_size_bytes a, sa_sha256 = ar_sha256 a\<rparr> content 0
       in then_c (each_c (send_chunk w agent) chunks) (guard_c (err = None) ArtifactShorter)))))))"

definition send_artifacts :: "world \<Rightarrow> agent_session \<Rightarrow> uuid list \<Rightarrow> unit ctl" where
  "send_artifacts w agent ids = each_c (send_one_artifact w agent) (wd_id_order w ids)"

section \<open>Commands\<close>

fun with_command_id :: "control_message \<Rightarrow> string \<Rightarrow> control_message" where
  "with_command_id (Prepare v) i = Prepare (v\<lparr>pr_command_id := i\<rparr>)"
| "with_command_id (Start v) i = Start (v\<lparr>st_command_id := i\<rparr>)"
| "with_command_id (Stop v) i = Stop (v\<lparr>sp_command_id := i\<rparr>)"
| "with_command_id (SetPaused v) i = SetPaused (v\<lparr>sd_command_id := i\<rparr>)"
| "with_command_id m i = m"

definition add_pending_ack :: "string \<Rightarrow> unit ctl" where
  "add_pending_ack i = modify_c (\<lambda>s. s\<lparr>ap_pending_acks := i # ap_pending_acks s\<rparr>)"

definition remove_pending_ack :: "string \<Rightarrow> unit ctl" where
  "remove_pending_ack i = modify_c (\<lambda>s. s\<lparr>ap_pending_acks := removeAll i (ap_pending_acks s)\<rparr>)"

text \<open>
  An acknowledgement that arrives has been taken out of the pending ones by the agent's stream.
\<close>

definition await_ack :: "world \<Rightarrow> string \<Rightarrow> uuid \<Rightarrow> string \<Rightarrow> string \<Rightarrow> unit ctl" where
  "await_ack w agent_id run_id phase command_id =
     bind_c (ask_c (wd_ack w)) (\<lambda>reply. case reply of
       AckDropped \<Rightarrow> then_c (record_run_event w run_id ''control'' (Some agent_id) phase ''failed'')
         (fail_c AckChannelClosed)
     | AckTimeout \<Rightarrow> then_c (remove_pending_ack command_id)
         (then_c (record_run_event w run_id ''control'' (Some agent_id) phase ''timeout'') (fail_c AckTimedOut))
     | Acked who ok err \<Rightarrow> then_c (remove_pending_ack command_id)
         (if \<not> ok then then_c (record_run_event w run_id ''agent'' (Some agent_id) phase ''failed'')
            (fail_c (CommandRejected who err))
          else then_c (acknowledge_participant_command w (wd_show_uuid w run_id) agent_id phase)
            (record_run_event w run_id ''agent'' (Some agent_id) phase ''acknowledged'')))"

definition announce_command :: "world \<Rightarrow> string \<Rightarrow> agent_session \<Rightarrow> uuid \<Rightarrow> string \<Rightarrow> string ctl" where
  "announce_command w agent_id agent run_id phase =
     bind_c (ask_c (\<lambda>n. wd_show_uuid w (wd_fresh w n))) (\<lambda>command_id.
     then_c (add_pending_ack command_id) (
     then_c (begin_participant_command w (wd_show_uuid w run_id) agent_id agent phase command_id) (
     then_c (record_run_event w run_id ''control'' (Some agent_id) phase ''sent'') (ret_c command_id))))"

definition channel_closed :: "world \<Rightarrow> string \<Rightarrow> uuid \<Rightarrow> string \<Rightarrow> string \<Rightarrow> unit ctl" where
  "channel_closed w agent_id run_id phase command_id =
     then_c (remove_pending_ack command_id)
       (then_c (record_run_event w run_id ''control'' (Some agent_id) phase ''failed'') (fail_c ChannelClosed))"

definition command_agent :: "world \<Rightarrow> string \<Rightarrow> agent_session \<Rightarrow> uuid \<Rightarrow> string \<Rightarrow> control_message \<Rightarrow> unit ctl" where
  "command_agent w agent_id agent run_id phase message =
     bind_c (announce_command w agent_id agent run_id phase) (\<lambda>command_id.
     bind_c (send_c w agent (with_command_id message command_id)) (\<lambda>sent.
       if sent then await_ack w agent_id run_id phase command_id
       else channel_closed w agent_id run_id phase command_id))"

section \<open>Starting a run\<close>

definition stop_message :: "string \<Rightarrow> string \<Rightarrow> control_message" where
  "stop_message run_id command_id = Stop \<lparr>sp_run_id = run_id, sp_command_id = command_id, sp_endpoint_role = 0\<rparr>"

definition stop_agents :: "world \<Rightarrow> uuid \<Rightarrow> agent_session list \<Rightarrow> unit ctl" where
  "stop_agents w run_id agents =
     each_c (\<lambda>a. bind_c (ask_c (\<lambda>n. wd_show_uuid w (wd_fresh w n))) (\<lambda>i.
       ignore_c (send_c w a (stop_message (wd_show_uuid w run_id) i)))) agents"

text \<open>An agent that is connected and has been heard of in the last fifteen seconds.\<close>

definition online :: "int \<Rightarrow> string \<Rightarrow> int \<Rightarrow> agent_session ctl" where
  "online now agent_id role =
     bind_c (get_c (\<lambda>s. map_of (ap_agents s) agent_id)) (\<lambda>found.
       option_c (AgentNotConnected role)
         (case found of Some a \<Rightarrow> if now - 15000 \<le> ag_last_seen_ms a then Some a else None | None \<Rightarrow> None))"

definition prepare_message :: "string \<Rightarrow> string \<Rightarrow> int \<Rightarrow> endpoint_runtime \<Rightarrow> control_message" where
  "prepare_message run_id scenario_json role r =
     (let (target, ifc, ns, sources) = r
      in Prepare \<lparr>pr_run_id = run_id, pr_scenario_json = scenario_json, pr_command_id = [],
           pr_endpoint_role = role, pr_target_addr = target, pr_interface_name = ifc,
           pr_namespace = ns, pr_source_ips = sources\<rparr>)"

definition start_message :: "string \<Rightarrow> int \<Rightarrow> int \<Rightarrow> control_message" where
  "start_message run_id start_ms role =
     Start \<lparr>st_run_id = run_id, st_start_unix_ms = start_ms, st_command_id = [], st_endpoint_role = role\<rparr>"

definition prepare_agents :: "world \<Rightarrow> uuid \<Rightarrow> string \<Rightarrow> uuid list \<Rightarrow> string \<times> agent_session \<times> endpoint_runtime
    \<Rightarrow> string \<times> agent_session \<times> endpoint_runtime \<Rightarrow> unit ctl" where
  "prepare_agents w run_id json ids c v =
     (let (client_id, client, client_rt) = c; (server_id, server, server_rt) = v; r = wd_show_uuid w run_id
      in then_c (send_artifacts w client ids) (
         then_c (if client_id \<noteq> server_id then send_artifacts w server ids else ret_c ()) (
         then_c (command_agent w client_id client run_id ''prepare'' (prepare_message r json 1 client_rt))
           (command_agent w server_id server run_id ''prepare'' (prepare_message r json 2 server_rt)))))"

definition start_agents :: "world \<Rightarrow> uuid \<Rightarrow> int \<Rightarrow> string \<times> agent_session \<Rightarrow> string \<times> agent_session \<Rightarrow> unit ctl" where
  "start_agents w run_id start_ms c v =
     (let (client_id, client) = c; (server_id, server) = v; r = wd_show_uuid w run_id
      in then_c (command_agent w client_id client run_id ''start'' (start_message r start_ms 1))
           (command_agent w server_id server run_id ''start'' (start_message r start_ms 2)))"

text \<open>The row and the event of a run that could not be prepared or started; the error is passed on.\<close>

definition run_failed :: "world \<Rightarrow> uuid \<Rightarrow> string \<Rightarrow> api_error \<Rightarrow> 'a ctl" where
  "run_failed w run_id stage e =
     then_c (runs_finish w (wd_show_uuid w run_id) ''failed'' (ErrorMessage e)) (
     then_c (record_run_event w run_id ''control'' None stage ''failed'') (fail_c e))"

definition run_name :: "world \<Rightarrow> scenario \<Rightarrow> string option \<Rightarrow> int \<Rightarrow> string" where
  "run_name w s requested now =
     (case map_option str_trim requested of
        Some n \<Rightarrow> if n \<noteq> [] then n else wd_default_name w (sc_name s) now
      | None \<Rightarrow> wd_default_name w (sc_name s) now)"

text \<open>The run becomes the active one, with its agents and the endpoints that must complete it.\<close>

definition endpoint_key :: "string \<Rightarrow> int \<Rightarrow> string" where
  "endpoint_key agent_id role = agent_id @ '':'' @ (if 0 \<le> role then show_nat (nat role) else CHR ''-'' # show_nat (nat (- role)))"

definition activate_run :: "uuid \<Rightarrow> string \<Rightarrow> string \<Rightarrow> unit ctl" where
  "activate_run run_id client_id server_id =
     modify_c (\<lambda>s. s\<lparr>ap_active_run := Some run_id,
       ap_run_agents := (ap_run_agents s)(run_id \<mapsto> remdups [client_id, server_id]),
       ap_expected_endpoints := (ap_expected_endpoints s)(run_id \<mapsto> [endpoint_key client_id 1, endpoint_key server_id 2])\<rparr>)"

definition launch_run :: "world \<Rightarrow> scenario \<Rightarrow> uuid \<Rightarrow> string \<Rightarrow> int \<Rightarrow> uuid list \<Rightarrow> string \<times> agent_session \<times> endpoint_runtime
    \<Rightarrow> string \<times> agent_session \<times> endpoint_runtime \<Rightarrow> uuid ctl" where
  "launch_run w s run_id json started ids c v =
     (let (client_id, client, _) = c; (server_id, server, _) = v; r = wd_show_uuid w run_id
      in bind_c (catch_c (prepare_agents w run_id json ids c v)) (\<lambda>prepared. case prepared of
           Inl e \<Rightarrow> run_failed w run_id ''prepare'' e
         | Inr _ \<Rightarrow>
             bind_c (ask_c (wd_now w)) (\<lambda>now.
             bind_c (catch_c (start_agents w run_id (now + 1000) (client_id, client) (server_id, server))) (\<lambda>running.
               case running of
                 Inl e \<Rightarrow> then_c (stop_agents w run_id [client, server]) (run_failed w run_id ''start'' e)
               | Inr _ \<Rightarrow>
                   then_c (runs_mark_running w r started) (
                   then_c (record_run_event w run_id ''control'' None ''run'' ''running'') (
                   then_c (activate_run run_id client_id server_id) (
                   then_c (broadcast_c (RunStarted run_id)) (ret_c run_id))))))))"

definition start_run :: "world \<Rightarrow> scenario \<Rightarrow> string option \<Rightarrow> uuid ctl" where
  "start_run w s requested =
     bind_c (lift_c (case scenario_validate s of Inl e \<Rightarrow> Inl (InvalidScenario e) | Inr u \<Rightarrow> Inr u)) (\<lambda>_.
     then_c (validate_artifacts w s) (
     bind_c (get_c ap_active_run) (\<lambda>active.
     then_c (guard_c (active = None) RunAlreadyActive) (
     bind_c (scenario_nodes w s) (\<lambda>(client_id, server_id, ready).
     then_c (guard_c ready RevisionNotPrepared) (
     bind_c (ask_c (wd_now w)) (\<lambda>now.
     bind_c (online now client_id 1) (\<lambda>client.
     bind_c (online now server_id 2) (\<lambda>server.
     bind_c (ask_c (wd_fresh w)) (\<lambda>run_id.
     bind_c (scenario_runtime w s) (\<lambda>(client_rt, server_rt).
     bind_c (ask_c (wd_now w)) (\<lambda>started.
     then_c (runs_create w (wd_show_uuid w run_id) (wd_show_uuid w (sc_id s)) (wd_scenario_json w s)
               (run_name w s requested started)) (
     then_c (record_run_event w run_id ''control'' None ''prepare'' ''started'')
       (launch_run w s run_id (wd_scenario_json w s) started (needed_artifacts s)
         (client_id, client, client_rt) (server_id, server, server_rt)))))))))))))))"

section \<open>Finishing, stopping and pausing\<close>

definition finish_run :: "world \<Rightarrow> uuid \<Rightarrow> string \<Rightarrow> run_note \<Rightarrow> unit ctl" where
  "finish_run w run_id status err =
     then_c (runs_finish w (wd_show_uuid w run_id) status err) (
     then_c (record_run_event w run_id ''control'' None ''finish'' status) (
     then_c (modify_c (\<lambda>s. s\<lparr>ap_active_run := (if ap_active_run s = Some run_id then None else ap_active_run s),
               ap_run_agents := (ap_run_agents s)(run_id := None),
               ap_completed_agents := (ap_completed_agents s)(run_id := None),
               ap_expected_endpoints := (ap_expected_endpoints s)(run_id := None)\<rparr>))
       (broadcast_c (RunFinished run_id status))))"

definition participants_of :: "world \<Rightarrow> uuid \<Rightarrow> app_state \<Rightarrow> string list" where
  "participants_of w run_id s =
     (case ap_run_agents s run_id of None \<Rightarrow> [] | Some ids \<Rightarrow> wd_set_order w ids)"

definition stop_participant :: "world \<Rightarrow> uuid \<Rightarrow> (string \<Rightarrow> agent_session option) \<Rightarrow> string \<Rightarrow> unit ctl" where
  "stop_participant w run_id agents agent_id =
     (case agents agent_id of
        None \<Rightarrow> ret_c ()
      | Some a \<Rightarrow> ignore_c (command_agent w agent_id a run_id ''stop'' (stop_message (wd_show_uuid w run_id) [])))"

definition stop_participants :: "world \<Rightarrow> uuid \<Rightarrow> unit ctl" where
  "stop_participants w run_id =
     bind_c (get_c ap_active_run) (\<lambda>active.
     then_c (guard_c (active = Some run_id) RunNotActive) (
     bind_c (get_c (\<lambda>s. map_of (ap_agents s))) (\<lambda>agents.
     bind_c (get_c (participants_of w run_id)) (\<lambda>ids.
       each_c (stop_participant w run_id agents) ids))))"

definition stop_run :: "world \<Rightarrow> uuid \<Rightarrow> unit ctl" where
  "stop_run w run_id = then_c (stop_participants w run_id) (finish_run w run_id ''cancelled'' NoError)"

definition pause_message :: "string \<Rightarrow> bool \<Rightarrow> control_message" where
  "pause_message run_id paused =
     SetPaused \<lparr>sd_run_id = run_id, sd_paused = paused, sd_command_id = [], sd_endpoint_role = 0\<rparr>"

definition pause_participants :: "world \<Rightarrow> uuid \<Rightarrow> bool \<Rightarrow> unit ctl" where
  "pause_participants w run_id paused =
     bind_c (get_c ap_active_run) (\<lambda>active.
     then_c (guard_c (active = Some run_id) RunNotActive) (
     bind_c (get_c (\<lambda>s. map_of (ap_agents s))) (\<lambda>agents.
     bind_c (get_c (participants_of w run_id)) (\<lambda>ids.
       each_c (\<lambda>i. bind_c (option_c (ParticipantDisconnected i) (agents i)) (\<lambda>a.
         command_agent w i a run_id (if paused then ''pause'' else ''resume'')
           (pause_message (wd_show_uuid w run_id) paused))) ids))))"

definition pause_status :: "bool \<Rightarrow> string" where
  "pause_status paused = (if paused then ''paused'' else ''running'')"

definition pause_recorded :: "world \<Rightarrow> uuid \<Rightarrow> bool \<Rightarrow> string ctl" where
  "pause_recorded w run_id paused =
     then_c (runs_set_status w (wd_show_uuid w run_id) (pause_status paused)) (
     then_c (record_run_event w run_id ''control'' None (if paused then ''pause'' else ''resume'') (pause_status paused)) (
     then_c (broadcast_c (RunState run_id (pause_status paused))) (ret_c (pause_status paused))))"

definition set_run_paused :: "world \<Rightarrow> uuid \<Rightarrow> bool \<Rightarrow> string ctl" where
  "set_run_paused w run_id paused =
     then_c (pause_participants w run_id paused) (pause_recorded w run_id paused)"

section \<open>What leaves the bookkeeping alone\<close>

lemma book_pending: "keeps same_book (add_pending_ack i)" "keeps same_book (remove_pending_ack i)"
  by (simp_all add: keeps_def same_book_def add_pending_ack_def remove_pending_ack_def modify_c_def)

lemma book_command_agent: "keeps same_book (command_agent w agent_id agent run_id phase message)"
proof -
  have reply: "keeps same_book (case r of Acked who ok err \<Rightarrow> f who ok err | AckDropped \<Rightarrow> g | AckTimeout \<Rightarrow> h)"
    if "\<And>who ok err. keeps same_book (f who ok err)" "keeps same_book g" "keeps same_book h" for r f g h
    using that by (cases r) simp_all
  have await: "keeps same_book (await_ack w agent_id run_id phase command_id)" for command_id
    unfolding await_ack_def record_run_event_def by (intro reply book_rules book_pending)
  show ?thesis
    unfolding command_agent_def announce_command_def channel_closed_def record_run_event_def
    by (intro await book_rules book_pending)
qed

lemma book_send_artifacts: "keeps same_book (send_artifacts w agent ids)"
  unfolding send_artifacts_def send_one_artifact_def send_chunk_def Let_def by (intro book_rules)

lemma book_stop_agents: "keeps same_book (stop_agents w run_id agents)"
  unfolding stop_agents_def by (intro book_rules)

lemma book_validate_artifacts: "keeps same_book (validate_artifacts w s)"
  unfolding validate_artifacts_def validate_payload_artifact_def validate_capture_artifact_def Let_def
  by (intro book_rules)

lemma book_scenario: "keeps same_book (scenario_nodes w s)" "keeps same_book (scenario_runtime w s)"
proof -
  have path: "keeps same_book (case p of ManagedDirect a b \<Rightarrow> f a b | ExplicitProxy c1 c2 c3 c4 c5 c6 \<Rightarrow> g c1 c2 c3 c4 c5 c6)"
    if "\<And>a b. keeps same_book (f a b)" "\<And>c1 c2 c3 c4 c5 c6. keeps same_book (g c1 c2 c3 c4 c5 c6)" for p f g
    using that by (cases p) simp_all
  show "keeps same_book (scenario_nodes w s)"
    unfolding scenario_nodes_def by (intro path book_rules)
  show "keeps same_book (scenario_runtime w s)"
    unfolding scenario_runtime_def Let_def by (intro path book_rules)
qed

lemma book_prepare_agents: "keeps same_book (prepare_agents w run_id json ids c v)"
  unfolding prepare_agents_def Let_def split_beta
  by (intro book_rules book_send_artifacts book_command_agent)

lemma book_start_agents: "keeps same_book (start_agents w run_id ms c v)"
  unfolding start_agents_def Let_def split_beta by (intro book_rules book_command_agent)

lemma book_run_failed: "keeps same_book (run_failed w run_id stage e)"
  unfolding run_failed_def record_run_event_def by (intro book_rules)

lemma book_pause: "keeps same_book (pause_participants w run_id paused)" "keeps same_book (pause_recorded w run_id paused)"
  unfolding pause_participants_def pause_recorded_def record_run_event_def
  by (intro book_rules book_command_agent)+

lemma book_stop_participants: "keeps same_book (stop_participants w run_id)"
  unfolding stop_participants_def stop_participant_def by (intro book_rules book_command_agent)

lemmas book_operations = book_pending book_command_agent book_send_artifacts book_stop_agents
  book_validate_artifacts book_scenario book_prepare_agents book_start_agents book_run_failed book_pause
  book_stop_participants

end
