(* ===== verification/Agent_Stream.thy ===== *)
theory Agent_Stream
  imports Orchestration
begin

text \<open>
  The stream of an agent in the control plane (\<open>agent_stream\<close> and \<open>schedule_disconnect_failure\<close> in
  \<open>crates/control/src/main.rs\<close>): a session begins with a hello, its messages are handled one by
  one, and its end fails the run the agent takes part in once the grace period is over. With the
  operations on runs these are the steps of the control plane.
\<close>

section \<open>A session\<close>

text \<open>A session that says hello replaces the node's earlier one; its generation tells them apart.\<close>

definition open_session :: "world \<Rightarrow> agent_hello \<Rightarrow> node_inventory \<Rightarrow> uuid ctl" where
  "open_session w h inventory =
     bind_c (ask_c (wd_fresh w)) (\<lambda>generation.
     bind_c (ask_c (wd_now w)) (\<lambda>now.
     then_c (modify_c (\<lambda>s. s\<lparr>ap_agents := AList.update (hl_node_id h)
         \<lparr>ag_instance_id = hl_instance_id h, ag_generation = generation, ag_role = 0,
          ag_hostname = hl_hostname h, ag_interfaces = map ii_name (ni_interfaces inventory),
          ag_inventory = inventory_to_json (wd_entries w) inventory,
          ag_last_seen_ms = now\<rparr> (ap_agents s)\<rparr>))
       (ret_c generation)))"

datatype hello_error = HelloRequired | FirstNotHello | InventoryRequired

definition agent_hello_of :: "agent_message option \<Rightarrow> hello_error + (agent_hello \<times> node_inventory)" where
  "agent_hello_of m =
     (case m of
        None \<Rightarrow> Inl HelloRequired
      | Some (Hello h) \<Rightarrow>
          (case hl_inventory h of None \<Rightarrow> Inl InventoryRequired | Some nv \<Rightarrow> Inr (h, nv))
      | Some _ \<Rightarrow> Inl FirstNotHello)"

definition heartbeat :: "world \<Rightarrow> string \<Rightarrow> uuid \<Rightarrow> unit ctl" where
  "heartbeat w agent_id generation =
     bind_c (ask_c (wd_now w)) (\<lambda>now. modify_c (\<lambda>s.
       case map_of (ap_agents s) agent_id of
         None \<Rightarrow> s
       | Some a \<Rightarrow> if ag_generation a = generation
           then s\<lparr>ap_agents := AList.update agent_id (a\<lparr>ag_last_seen_ms := now\<rparr>) (ap_agents s)\<rparr> else s))"

definition network_progressed :: "world \<Rightarrow> string \<Rightarrow> network_progress \<Rightarrow> unit ctl" where
  "network_progressed w agent_id p =
     then_c (ignore_c (db_exec w (\<lambda>d. d\<lparr>db_network_events := db_network_events d @
        [(ng_operation_id p, agent_id, ng_stage p, if ng_ok p then ''completed'' else ''failed'')]\<rparr>))) (
     then_c (modify_c (\<lambda>s. s\<lparr>ap_pending_network := removeAll (ng_command_id p) (ap_pending_network s)\<rparr>))
       (broadcast_c (NetworkProgressSent agent_id p)))"

definition telemetry_received :: "world \<Rightarrow> string \<Rightarrow> telemetry_msg \<Rightarrow> unit ctl" where
  "telemetry_received w agent_id t =
     (case wd_metrics w (tm_metrics_json t) of
        None \<Rightarrow> ret_c ()
      | Some unix_ms \<Rightarrow>
          then_c (ignore_c (db_exec w (\<lambda>d. d\<lparr>db_samples := db_samples d @
             [(tm_run_id t, agent_id, tm_endpoint_role t, unix_ms, tm_metrics_json t)]\<rparr>)))
            (broadcast_c (MetricsSent agent_id (tm_endpoint_role t))))"

definition stop_everyone :: "world \<Rightarrow> uuid \<Rightarrow> unit ctl" where
  "stop_everyone w run_id =
     bind_c (get_c ap_agents) (\<lambda>agents. stop_agents w run_id (map snd agents))"

text \<open>
  Events that end the active run. The lock on the active run is released before the run is
  finished, so what is decided under it, the run to finish, its status and the reason, is returned
  and \<open>finish_task\<close> does the rest.
\<close>

type_synonym finish_order = "(uuid \<times> string \<times> run_note) option"

definition finish_task :: "world \<Rightarrow> finish_order \<Rightarrow> unit ctl" where
  "finish_task w o' = (case o' of None \<Rightarrow> ret_c () | Some (run_id, status, nt) \<Rightarrow> ignore_c (finish_run w run_id status nt))"

definition fail_active_run :: "world \<Rightarrow> agent_event \<Rightarrow> finish_order ctl" where
  "fail_active_run w e =
     bind_c (get_c ap_active_run) (\<lambda>active.
       case wd_parse_uuid w (ev_run_id e) of
         None \<Rightarrow> ret_c None
       | Some run_id \<Rightarrow>
           if ev_level e = ''error'' \<and> active = Some run_id then
             then_c (stop_everyone w run_id)
               (ret_c (Some (run_id, ''failed'', Reason (''endpoint_worker_failed: '' @ ev_message e))))
           else ret_c None)"

definition all_completed :: "string list \<Rightarrow> string list option \<Rightarrow> bool" where
  "all_completed expected done =
     (expected \<noteq> [] \<and> (case done of None \<Rightarrow> False | Some items \<Rightarrow> list_all (\<lambda>x. x \<in> set items) expected))"

definition complete_endpoint :: "world \<Rightarrow> string \<Rightarrow> agent_event \<Rightarrow> finish_order ctl" where
  "complete_endpoint w agent_id e =
     bind_c (get_c ap_active_run) (\<lambda>active.
       case wd_parse_uuid w (ev_run_id e) of
         None \<Rightarrow> ret_c None
       | Some run_id \<Rightarrow>
           if ev_message e = ''run_completed'' \<and> active = Some run_id then
             bind_c (get_c (\<lambda>s. case ap_expected_endpoints s run_id of None \<Rightarrow> [] | Some x \<Rightarrow> x)) (\<lambda>expected.
             then_c (modify_c (\<lambda>s. s\<lparr>ap_completed_agents := (ap_completed_agents s)(run_id \<mapsto>
                List.insert (endpoint_key agent_id (ev_endpoint_role e))
                  (case ap_completed_agents s run_id of None \<Rightarrow> [] | Some x \<Rightarrow> x))\<rparr>)) (
             bind_c (get_c (\<lambda>s. ap_completed_agents s run_id)) (\<lambda>items.
               if all_completed expected items then ret_c (Some (run_id, ''completed'', NoError))
               else ret_c None)))
           else ret_c None)"

definition agent_event_received :: "world \<Rightarrow> string \<Rightarrow> agent_event \<Rightarrow> unit ctl" where
  "agent_event_received w agent_id e =
     then_c (ignore_c (db_exec w (\<lambda>d. d\<lparr>db_events := db_events d @ [(ev_run_id e, ev_level e, ev_message e)]\<rparr>))) (
     then_c (ignore_c (append_run_event w (ev_run_id e) ''agent'' (Some agent_id) ''agent_event'' (ev_level e))) (
     then_c (bind_c (fail_active_run w e) (finish_task w)) (
     then_c (bind_c (complete_endpoint w agent_id e) (finish_task w))
       (broadcast_c (AgentEventSent agent_id e)))))"

definition handle_message :: "world \<Rightarrow> string \<Rightarrow> uuid \<Rightarrow> agent_message \<Rightarrow> unit ctl" where
  "handle_message w agent_id generation m =
     (case m of
        Heartbeat \<Rightarrow> heartbeat w agent_id generation
      | CommandAck ack \<Rightarrow> remove_pending_ack (ca_command_id ack)
      | NetworkProgress p \<Rightarrow> network_progressed w agent_id p
      | StatusMsg _ \<Rightarrow> ret_c ()
      | TelemetryMsg t \<Rightarrow> telemetry_received w agent_id t
      | EventMsg e \<Rightarrow> agent_event_received w agent_id e
      | Hello _ \<Rightarrow> ret_c ())"

section \<open>The end of a session\<close>

text \<open>The run that a lost agent takes part in is degraded; what is returned is that run.\<close>

definition schedule_disconnect_failure :: "world \<Rightarrow> string \<Rightarrow> uuid option ctl" where
  "schedule_disconnect_failure w agent_id =
     bind_c (get_c (\<lambda>s. (ap_active_run s, ap_run_agents s))) (\<lambda>(active, run_agents). case active of
       None \<Rightarrow> ret_c None
     | Some run_id \<Rightarrow>
         if \<not> (case run_agents run_id of None \<Rightarrow> False | Some ids \<Rightarrow> agent_id \<in> set ids) then ret_c None
         else then_c (ignore_c (db_exec w (update_run (wd_show_uuid w run_id)
                (\<lambda>r. r\<lparr>rr_status := ''degraded'',
                   rr_error := Reason (agent_id @ '' disconnected; waiting for reconnect grace'')\<rparr>)))) (
              then_c (broadcast_c (RunState run_id ''degraded'')) (ret_c (Some run_id))))"

definition close_session :: "world \<Rightarrow> string \<Rightarrow> uuid \<Rightarrow> uuid option ctl" where
  "close_session w agent_id generation =
     bind_c (get_c (\<lambda>s. map_of (ap_agents s) agent_id)) (\<lambda>found. case found of
       Some a \<Rightarrow>
         if ag_generation a = generation then
           then_c (modify_c (\<lambda>s. s\<lparr>ap_agents := AList.delete agent_id (ap_agents s)\<rparr>))
             (schedule_disconnect_failure w agent_id)
         else ret_c None
     | None \<Rightarrow> ret_c None)"

text \<open>What happens when the grace period of a lost agent is over.\<close>

definition grace_expired :: "world \<Rightarrow> string \<Rightarrow> uuid \<Rightarrow> finish_order ctl" where
  "grace_expired w agent_id run_id =
     bind_c (get_c ap_active_run) (\<lambda>active.
       if active \<noteq> Some run_id then ret_c None
       else
         bind_c (get_c (\<lambda>s. map_of (ap_agents s) agent_id)) (\<lambda>found.
         then_c (stop_everyone w run_id)
           (ret_c (Some (run_id, ''failed'',
              Reason ((if found \<noteq> None then ''agent_reconnected_no_resume'' else ''agent_disconnected'')
                 @ '': '' @ agent_id))))))"

section \<open>The steps of the control plane\<close>

text \<open>
  The handlers run concurrently. One that looks at the active run under its lock and acts later
  leaves a task behind, and the tasks are carried out in any order, at any time.
\<close>

datatype task =
    FinishTask finish_order | PauseTask uuid bool | GraceTask string uuid

inductive control_step :: "world \<Rightarrow> app_state \<times> task list \<Rightarrow> app_state \<times> task list \<Rightarrow> bool" for w where
  Start_Run: "start_run w sc name s = (r, s') \<Longrightarrow> control_step w (s, ts) (s', ts)"
| Stop_Run: "stop_participants w run_id s = (Inr u, s') \<Longrightarrow>
    control_step w (s, ts) (s', FinishTask (Some (run_id, ''cancelled'', NoError)) # ts)"
| Pause_Run: "pause_participants w run_id paused s = (Inr u, s') \<Longrightarrow>
    control_step w (s, ts) (s', PauseTask run_id paused # ts)"
| Pause_Refused: "pause_participants w run_id paused s = (Inl e, s') \<Longrightarrow> control_step w (s, ts) (s', ts)"
| Connect: "open_session w h nv s = (r, s') \<Longrightarrow> control_step w (s, ts) (s', ts)"
| Receive: "(\<And>e. m \<noteq> EventMsg e) \<Longrightarrow> handle_message w agent_id generation m s = (r, s') \<Longrightarrow>
    control_step w (s, ts) (s', ts)"
| Receive_Error: "fail_active_run w e s = (Inr o', s') \<Longrightarrow> control_step w (s, ts) (s', FinishTask o' # ts)"
| Receive_Completed: "complete_endpoint w agent_id e s = (Inr o', s') \<Longrightarrow>
    control_step w (s, ts) (s', FinishTask o' # ts)"
| Disconnect: "close_session w agent_id generation s = (Inr run, s') \<Longrightarrow>
    control_step w (s, ts) (s', (case run of None \<Rightarrow> ts | Some run_id \<Rightarrow> GraceTask agent_id run_id # ts))"
| Finish: "FinishTask o' \<in> set ts \<Longrightarrow> finish_task w o' s = (r, s') \<Longrightarrow>
    control_step w (s, ts) (s', remove1 (FinishTask o') ts)"
| Pause: "PauseTask run_id paused \<in> set ts \<Longrightarrow> pause_recorded w run_id paused s = (r, s') \<Longrightarrow>
    control_step w (s, ts) (s', remove1 (PauseTask run_id paused) ts)"
| Grace: "GraceTask agent_id run_id \<in> set ts \<Longrightarrow> grace_expired w agent_id run_id s = (Inr o', s') \<Longrightarrow>
    control_step w (s, ts) (s', FinishTask o' # remove1 (GraceTask agent_id run_id) ts)"

inductive_cases control_stepE: "control_step w x x'"

inductive control_reachable :: "world \<Rightarrow> app_state \<times> task list \<Rightarrow> app_state \<times> task list \<Rightarrow> bool" for w x where
  start: "control_reachable w x x"
| step: "control_reachable w x y \<Longrightarrow> control_step w y z \<Longrightarrow> control_reachable w x z"

end
