(* ===== verification/Run_Bookkeeping.thy ===== *)
theory Run_Bookkeeping
  imports Agent_Stream
begin

text \<open>
  The bookkeeping of the active run: the maps that record its agents and endpoints are those of
  the active run and of no other, through every interleaving of the control plane's handlers.
\<close>

section \<open>What a start and a finish do to the bookkeeping\<close>

definition launched :: "app_state \<Rightarrow> app_state \<Rightarrow> bool" where
  "launched s s' \<longleftrightarrow> same_book s s' \<or>
     (\<exists>run_id c v. ap_active_run s' = Some run_id
        \<and> ap_run_agents s' = (ap_run_agents s)(run_id \<mapsto> remdups [c, v])
        \<and> ap_expected_endpoints s' = (ap_expected_endpoints s)(run_id \<mapsto> [endpoint_key c 1, endpoint_key v 2])
        \<and> ap_completed_agents s' = ap_completed_agents s)"

lemma launched_after_book: "same_book s s1 \<Longrightarrow> launched s1 s' \<Longrightarrow> launched s s'"
  by (auto simp: launched_def same_book_def)

lemma launched_before_book: "launched s s1 \<Longrightarrow> same_book s1 s' \<Longrightarrow> launched s s'"
  unfolding launched_def same_book_def by metis

lemma book_launched: "keeps same_book m \<Longrightarrow> keeps launched m"
  by (simp add: keeps_def launched_def)

lemma launched_bind:
  assumes "keeps same_book m" and "\<And>x. keeps launched (f x)"
  shows "keeps launched (bind_c m f)"
  using assms unfolding keeps_def bind_c_def
  by (auto split: prod.split sum.split intro: launched_after_book)
    (metis launched_after_book launched_def snd_conv)+

lemma launched_then: "keeps same_book m \<Longrightarrow> keeps launched n \<Longrightarrow> keeps launched (then_c m n)"
  unfolding then_c_def by (rule launched_bind)

lemma launched_activate:
  assumes "keeps same_book m"
  shows "keeps launched (then_c (activate_run run_id c v) m)"
  unfolding keeps_def
proof
  fix s
  let ?s = "snd (activate_run run_id c v s)"
  have "launched s ?s"
    by (auto simp: launched_def activate_run_def modify_c_def)
  moreover have "snd (then_c (activate_run run_id c v) m s) = snd (m ?s)"
    by (simp add: then_c_def bind_c_def activate_run_def modify_c_def)
  moreover have "same_book ?s (snd (m ?s))" using assms by (simp add: keeps_def)
  ultimately show "launched s (snd (then_c (activate_run run_id c v) m s))" by (simp add: launched_before_book)
qed

lemma launched_sum: "(\<And>x. keeps launched (f x)) \<Longrightarrow> (\<And>x. keeps launched (g x)) \<Longrightarrow>
    keeps launched (case r of Inl x \<Rightarrow> f x | Inr x \<Rightarrow> g x)"
  by (cases r) simp_all

lemma launched_prod: "(\<And>x y. keeps launched (f x y)) \<Longrightarrow> keeps launched (case p of (x, y) \<Rightarrow> f x y)"
  by (cases p) simp

lemma launch_run_launched: "keeps launched (launch_run w s run_id json started ids c v)"
  unfolding launch_run_def Let_def record_run_event_def
  by (intro launched_prod launched_bind launched_sum launched_then launched_activate book_rules book_operations
      book_launched [OF book_run_failed] book_launched [OF book.keeps_then])

lemma start_run_launched: "keeps launched (start_run w sc name)"
  unfolding start_run_def online_def record_run_event_def
  by (intro launched_prod launched_bind launched_then launch_run_launched book_rules book_operations)

lemma start_run_busy:
  assumes "ap_active_run s = Some u" and "start_run w sc name s = (r, s')"
  shows "r \<noteq> Inr run_id" and "same_book s s'"
proof -
  define rest where "rest = (bind_c (scenario_nodes w sc) (\<lambda>(client_id, server_id, ready).
     then_c (guard_c ready RevisionNotPrepared) (
     bind_c (ask_c (wd_now w)) (\<lambda>now.
     bind_c (online now client_id 1) (\<lambda>client.
     bind_c (online now server_id 2) (\<lambda>server.
     bind_c (ask_c (wd_fresh w)) (\<lambda>run_id.
     bind_c (scenario_runtime w sc) (\<lambda>(client_rt, server_rt).
     bind_c (ask_c (wd_now w)) (\<lambda>started.
     then_c (runs_create w (wd_show_uuid w run_id) (wd_show_uuid w (sc_id sc)) (wd_scenario_json w sc)
               (run_name w sc name started)) (
     then_c (record_run_event w run_id ''control'' None ''prepare'' ''started'')
       (launch_run w sc run_id (wd_scenario_json w sc) started (needed_artifacts sc)
         (client_id, client, client_rt) (server_id, server, server_rt))))))))))))"
  have run: "bind_c (lift_c (case scenario_validate sc of Inl e \<Rightarrow> Inl (InvalidScenario e) | Inr u \<Rightarrow> Inr u)) (\<lambda>_.
     then_c (validate_artifacts w sc) (
     bind_c (get_c ap_active_run) (\<lambda>active. then_c (guard_c (active = None) RunAlreadyActive) rest))) s = (r, s')"
    using assms(2) unfolding start_run_def rest_def .
  obtain r1 s1 where v: "validate_artifacts w sc s = (r1, s1)" by (cases "validate_artifacts w sc s")
  have b: "same_book s s1" by (rule keepsD [OF book_validate_artifacts v])
  then have "ap_active_run s1 = Some u" using assms(1) by (simp add: same_book_def)
  then have "(\<exists>e. r = Inl e) \<and> (s' = s \<or> s' = s1)"
    using run v
    by (auto simp: bind_c_def then_c_def lift_c_def get_c_def guard_c_def split: sum.splits)
  then show "r \<noteq> Inr run_id" and "same_book s s'" using b book.related_refl by auto
qed

definition finished :: "app_state \<Rightarrow> uuid \<Rightarrow> app_state \<Rightarrow> bool" where
  "finished s run_id s' \<longleftrightarrow>
     ap_active_run s' = (if ap_active_run s = Some run_id then None else ap_active_run s)
   \<and> ap_run_agents s' = (ap_run_agents s)(run_id := None)
   \<and> ap_completed_agents s' = (ap_completed_agents s)(run_id := None)
   \<and> ap_expected_endpoints s' = (ap_expected_endpoints s)(run_id := None)"

lemma finish_run_book:
  assumes "finish_run w run_id status nt s = (r, s')"
  shows "if r = Inr () then finished s run_id s' else same_book s s'"
proof -
  let ?m = "then_c (runs_finish w (wd_show_uuid w run_id) status nt) (record_run_event w run_id ''control'' None ''finish'' status)"
  obtain r1 s1 where m: "?m s = (r1, s1)" by (cases "?m s")
  have "keeps same_book ?m" unfolding record_run_event_def by (intro book_rules)
  then have b: "same_book s s1" using m by (rule keepsD)
  have "finish_run w run_id status nt s = (case r1 of Inl e \<Rightarrow> (Inl e, s1) | Inr _ \<Rightarrow>
      then_c (modify_c (\<lambda>s. s\<lparr>ap_active_run := (if ap_active_run s = Some run_id then None else ap_active_run s),
               ap_run_agents := (ap_run_agents s)(run_id := None),
               ap_completed_agents := (ap_completed_agents s)(run_id := None),
               ap_expected_endpoints := (ap_expected_endpoints s)(run_id := None)\<rparr>))
       (broadcast_c (RunFinished run_id status)) s1)"
    using m by (auto simp: finish_run_def then_c_def bind_c_def split: prod.splits sum.splits)
  then show ?thesis
    using assms b
    by (cases r1) (auto simp: then_c_def bind_c_def modify_c_def broadcast_c_def finished_def same_book_def)
qed

section \<open>The invariant\<close>

definition book_inv :: "app_state \<Rightarrow> bool" where
  "book_inv s \<longleftrightarrow>
     dom (ap_run_agents s) = set_option (ap_active_run s)
   \<and> dom (ap_expected_endpoints s) = set_option (ap_active_run s)
   \<and> dom (ap_completed_agents s) \<subseteq> set_option (ap_active_run s)"

lemma book_inv_same: "same_book s s' \<Longrightarrow> book_inv s \<Longrightarrow> book_inv s'"
  by (simp add: same_book_def book_inv_def)

lemma book_inv_finished: "finished s run_id s' \<Longrightarrow> book_inv s \<Longrightarrow> book_inv s'"
  by (cases "ap_active_run s") (auto simp: finished_def book_inv_def)

lemma book_inv_launched:
  "launched s s' \<Longrightarrow> ap_active_run s = None \<Longrightarrow> book_inv s \<Longrightarrow> book_inv s'"
  by (auto simp: launched_def book_inv_def same_book_def split: if_splits)

lemma start_run_inv:
  assumes "book_inv s" and "start_run w sc name s = (r, s')"
  shows "book_inv s'"
proof (cases "ap_active_run s")
  case None
  then show ?thesis using book_inv_launched [OF keepsD [OF start_run_launched assms(2)]] assms(1) by blast
next
  case (Some u)
  then show ?thesis using start_run_busy(2) [OF Some assms(2)] assms(1) by (simp add: book_inv_same)
qed

lemma finish_task_inv:
  assumes "book_inv s" and "finish_task w o' s = (r, s')"
  shows "book_inv s'"
proof (cases o')
  case None
  then show ?thesis using assms by (simp add: finish_task_def ret_c_def)
next
  case (Some x)
  obtain run_id status nt where x: "x = (run_id, status, nt)" by (cases x)
  obtain r1 s1 where f: "finish_run w run_id status nt s = (r1, s1)" by (cases "finish_run w run_id status nt s")
  have "s' = s1" using assms(2) f by (simp add: finish_task_def Some x ignore_c_def)
  then show ?thesis
    using finish_run_book [OF f] assms(1) book_inv_finished book_inv_same by (auto split: if_splits)
qed

lemma complete_endpoint_book:
  assumes "complete_endpoint w agent_id e s = (r, s')"
  shows "same_book s s' \<or> (\<exists>run_id items. ap_active_run s = Some run_id \<and> ap_active_run s' = Some run_id
    \<and> ap_run_agents s' = ap_run_agents s \<and> ap_expected_endpoints s' = ap_expected_endpoints s
    \<and> ap_completed_agents s' = (ap_completed_agents s)(run_id \<mapsto> items))"
  using assms
  by (auto simp: complete_endpoint_def bind_c_def then_c_def get_c_def modify_c_def ret_c_def same_book_def
      split: option.splits if_splits)

lemma book_handlers:
  "keeps same_book (open_session w h nv)" "keeps same_book (heartbeat w agent_id generation)"
  "keeps same_book (network_progressed w agent_id p)" "keeps same_book (telemetry_received w agent_id t)"
  "keeps same_book (close_session w agent_id generation)" "keeps same_book (fail_active_run w e)"
  "keeps same_book (grace_expired w agent_id run_id)"
proof -
  have agents: "keeps same_book (modify_c (\<lambda>s. s\<lparr>ap_agents := f s\<rparr>))"
    and net: "keeps same_book (modify_c (\<lambda>s. s\<lparr>ap_pending_network := g s\<rparr>))" for f g
    by (simp_all add: keeps_def modify_c_def same_book_def)
  have beat: "keeps same_book (modify_c (\<lambda>s. case map_of (ap_agents s) agent_id of None \<Rightarrow> s
      | Some a \<Rightarrow> if c a then s\<lparr>ap_agents := h a s\<rparr> else s))" for c h
    by (simp add: keeps_def modify_c_def same_book_def split: option.split)
  show "keeps same_book (open_session w h nv)" unfolding open_session_def by (intro book_rules agents)
  show "keeps same_book (heartbeat w agent_id generation)" unfolding heartbeat_def by (intro book_rules beat)
  show "keeps same_book (network_progressed w agent_id p)" unfolding network_progressed_def by (intro book_rules net)
  show "keeps same_book (telemetry_received w agent_id t)" unfolding telemetry_received_def by (intro book_rules)
  show "keeps same_book (close_session w agent_id generation)"
    unfolding close_session_def schedule_disconnect_failure_def by (intro book_rules agents)
  show "keeps same_book (fail_active_run w e)"
    unfolding fail_active_run_def stop_everyone_def by (intro book_rules book_operations)
  show "keeps same_book (grace_expired w agent_id run_id)"
    unfolding grace_expired_def stop_everyone_def by (intro book_rules book_operations)
qed

lemma book_messages:
  assumes "\<And>e. m \<noteq> EventMsg e"
  shows "keeps same_book (handle_message w agent_id generation m)"
proof (cases m)
  case (EventMsg e)
  with assms show ?thesis by blast
qed (simp_all add: handle_message_def book_handlers book_pending book.keeps_pure)

lemmas book_keep_steps = keepsD [OF book_stop_participants] keepsD [OF book_pause(1)] keepsD [OF book_pause(2)]
  keepsD [OF book_handlers(1)] keepsD [OF book_handlers(5)] keepsD [OF book_handlers(6)] keepsD [OF book_handlers(7)]

lemma control_step_inv:
  assumes "control_step w (s, ts) (s', ts')" and "book_inv s"
  shows "book_inv s'"
  using assms(1)
proof (cases rule: control_step.cases)
  case (Start_Run sc name r)
  then show ?thesis using start_run_inv assms(2) by blast
next
  case (Receive m agent_id generation r)
  then show ?thesis using keepsD [OF book_messages] book_inv_same assms(2) by blast
next
  case (Receive_Completed agent_id e o')
  from complete_endpoint_book [OF Receive_Completed(2)] show ?thesis
  proof (elim disjE exE conjE)
    assume "same_book s s'"
    then show ?thesis using assms(2) by (rule book_inv_same)
  qed (use assms(2) in \<open>simp add: book_inv_def\<close>)
next
  case (Finish o' r)
  then show ?thesis using finish_task_inv assms(2) by blast
qed (rule book_inv_same [OF _ assms(2)], erule book_keep_steps)+

lemma control_reachable_inv: "control_reachable w x x' \<Longrightarrow> book_inv (fst x) \<Longrightarrow> book_inv (fst x')"
proof (induction rule: control_reachable.induct)
  case (step x' x'')
  then show ?case using control_step_inv [of w "fst x'" "snd x'" "fst x''" "snd x''"] by simp
qed

section \<open>Properties\<close>

text \<open>
  A control plane with one connected agent, on which everything outside succeeds, and a scenario
  it can run.
\<close>

definition example_world :: world where
  "example_world =
     \<lparr>wd_show_uuid = (\<lambda>u. if u = 1 then ''1'' else ''0''), wd_parse_uuid = (\<lambda>t. if t = ''1'' then Some 1 else None),
      wd_fresh = (\<lambda>n. 1), wd_db = (\<lambda>n. True), wd_send = (\<lambda>n. True), wd_ack = (\<lambda>n. Acked ''n'' True []),
      wd_network = (\<lambda>n. NetworkTimeout), wd_now = (\<lambda>n. 0), wd_set_order = (\<lambda>x. x), wd_id_order = (\<lambda>x. x),
      wd_scenario_json = (\<lambda>s. []), wd_default_name = (\<lambda>s n. s), wd_file = (\<lambda>p. None),
      wd_read = (\<lambda>t n. n), wd_sha256 = (\<lambda>x. x), wd_draft_json = (\<lambda>d. []),
      wd_draft_value = (\<lambda>d. JNull), wd_parse_draft = (\<lambda>j. Some (network_profile_default 1)), wd_error_text = (\<lambda>e. []), wd_metrics = (\<lambda>t. None),
      wd_parse_ip = (\<lambda>t. None), wd_parse_scenario = (\<lambda>t. None), wd_entries = (\<lambda>m. [])\<rparr>"

definition empty_database :: database where
  "empty_database =
     \<lparr>db_runs = Map.empty, db_run_events = [], db_participants = Map.empty, db_artifacts = Map.empty,
      db_revisions = Map.empty, db_revision_ids = [], db_profiles = Map.empty, db_operations = Map.empty, db_events = [],
      db_network_events = [], db_samples = [], db_scenarios = []\<rparr>"

definition example_session :: agent_session where
  "example_session = \<lparr>ag_instance_id = ''i'', ag_generation = 7, ag_role = 0, ag_hostname = ''h'',
     ag_interfaces = [], ag_inventory = JNull, ag_last_seen_ms = 0\<rparr>"

definition example_control :: app_state where
  "example_control =
     \<lparr>ap_agents = [(''n'', example_session)], ap_active_run = None, ap_run_agents = Map.empty,
      ap_completed_agents = Map.empty, ap_expected_endpoints = Map.empty, ap_pending_acks = [],
      ap_pending_network = [], ap_db = empty_database, ap_sent = [], ap_events = [], ap_tick = 0\<rparr>"

definition example_scenario :: scenario where
  "example_scenario = (scenario_default 3 4)\<lparr>sc_path := ExplicitProxy ''n'' (V4 0) ''n'' (V4 0) 80 ''p:1''\<rparr>"

lemmas handler_defs = bind_c_def then_c_def ret_c_def fail_c_def get_c_def modify_c_def guard_c_def option_c_def
  lift_c_def ask_c_def catch_c_def ignore_c_def db_exec_def db_query_def send_c_def broadcast_c_def Let_def

lemma example_scenario_valid: "scenario_validate example_scenario = Inr ()" by code_simp

lemma example_started:
  "\<exists>s. start_run example_world example_scenario None example_control = (Inr 1, s) \<and> ap_active_run s = Some 1"
  unfolding start_run_def example_scenario_valid
  by (simp add: handler_defs example_world_def example_scenario_def example_control_def empty_database_def
      example_session_def scenario_nodes_def scenario_runtime_def validate_artifacts_def
      validate_payload_artifact_def validate_capture_artifact_def scenario_default_def payload_fixed_def
      online_def needed_artifacts_def runs_create_def record_run_event_def append_run_event_def
      launch_run_def prepare_agents_def start_agents_def command_agent_def announce_command_def await_ack_def send_artifacts_def
      add_pending_ack_def remove_pending_ack_def begin_participant_command_def acknowledge_participant_command_def
      artifacts_find_def prepare_message_def start_message_def runs_mark_running_def update_run_def
      activate_run_def List.map_filter_simps)

end
