(* ===== verification/Run_Start.thy ===== *)
theory Run_Start
  imports Run_Bookkeeping
begin

text \<open>
  What a start of a run sends and leaves behind: on success the artifacts, then the two
  preparations and the two starts, in this order; on failure no active run and a failed row.
\<close>

section \<open>Messages sent\<close>

definition extends :: "(uuid \<times> control_message) list \<Rightarrow> app_state \<Rightarrow> app_state \<Rightarrow> bool" where
  "extends M s s' \<longleftrightarrow> same_book s s' \<and> ap_agents s' = ap_agents s
     \<and> db_runs (ap_db s') = db_runs (ap_db s) \<and> db_revisions (ap_db s') = db_revisions (ap_db s)
     \<and> ap_sent s' = ap_sent s @ M"

definition emits :: "(uuid \<times> control_message) set \<Rightarrow> app_state \<Rightarrow> app_state \<Rightarrow> bool" where
  "emits A s s' \<longleftrightarrow> (\<exists>M. extends M s s' \<and> set M \<subseteq> A)"

lemma extends_refl [simp]: "extends [] s s" by (simp add: extends_def same_book_def)

lemma extends_trans: "extends M s s1 \<Longrightarrow> extends N s1 s2 \<Longrightarrow> extends (M @ N) s s2"
  by (auto simp: extends_def same_book_def)

interpretation emits: handler_relation "emits A" for A
proof
  show "emits A s s" for s unfolding emits_def by (intro exI [of _ "[]"]) simp
next
  fix s1 s2 s3 assume "emits A s1 s2" "emits A s2 s3"
  then obtain M N where "extends M s1 s2" "extends N s2 s3" "set M \<subseteq> A" "set N \<subseteq> A" by (auto simp: emits_def)
  then show "emits A s1 s3" unfolding emits_def using extends_trans by (intro exI [of _ "M @ N"]) auto
qed

lemma emits_empty: "emits {} s s' \<longleftrightarrow> extends [] s s'"
  by (auto simp: emits_def)

lemma emits_silent: "extends [] s s' \<Longrightarrow> emits A s s'"
  unfolding emits_def by (intro exI [of _ "[]"]) simp

lemma silent_primitives:
  "keeps (emits A) (ask_c f)" "keeps (emits A) (db_query w q)" "keeps (emits A) (append_run_event w i1 i2 ag i3 i4)"
  "keeps (emits A) (begin_participant_command w i1 i2 a i3 i4)"
  "keeps (emits A) (acknowledge_participant_command w i1 i2 i3)"
  "keeps (emits A) (add_pending_ack i)" "keeps (emits A) (remove_pending_ack i)"
  "keeps (emits A) (artifacts_find w u)" "keeps (emits A) (broadcast_c b)"
proof -
  have db: "keeps (emits A) (db_exec w g)" if "\<And>d. db_runs (g d) = db_runs d" "\<And>d. db_revisions (g d) = db_revisions d" for g
    using that by (auto simp: keeps_def db_exec_def Let_def extends_def same_book_def intro!: emits_silent)
  show q: "keeps (emits A) (ask_c f)" "keeps (emits A) (db_query w q)" for f :: "nat \<Rightarrow> 'x" and q :: "database \<Rightarrow> 'y"
    by (auto simp: keeps_def ask_c_def db_query_def Let_def extends_def same_book_def intro!: emits_silent)
  show "keeps (emits A) (append_run_event w i1 i2 ag i3 i4)"
    unfolding append_run_event_def by (intro db) simp_all
  show "keeps (emits A) (begin_participant_command w i1 i2 a i3 i4)"
    unfolding begin_participant_command_def by (intro db) simp_all
  show "keeps (emits A) (acknowledge_participant_command w i1 i2 i3)"
    unfolding acknowledge_participant_command_def by (intro db) (simp_all split: option.split)
  show "keeps (emits A) (add_pending_ack i)" "keeps (emits A) (remove_pending_ack i)"
    "keeps (emits A) (broadcast_c b)"
    by (auto simp: keeps_def add_pending_ack_def remove_pending_ack_def broadcast_c_def modify_c_def
        extends_def same_book_def intro!: emits_silent)
  show "keeps (emits A) (artifacts_find w u)" unfolding artifacts_find_def by (rule q)
qed

lemmas emits_rules = emits.keeps_rules silent_primitives

lemma send_c_extends:
  assumes "send_c w agent m s = (r, s')"
  shows "if r = Inr True then extends [(ag_generation agent, m)] s s' else r = Inr False \<and> extends [] s s'"
  using assms by (auto simp: send_c_def Let_def extends_def same_book_def split: if_splits)

lemma emits_send: "(ag_generation agent, m) \<in> A \<Longrightarrow> keeps (emits A) (send_c w agent m)"
  unfolding keeps_def
proof
  fix s assume m: "(ag_generation agent, m) \<in> A"
  obtain r s' where "send_c w agent m s = (r, s')" by (cases "send_c w agent m s")
  then show "emits A s (snd (send_c w agent m s))"
    using send_c_extends [of w agent m s r s'] m
    by (auto simp: emits_def split: if_splits intro: exI [of _ "[]"])
qed

text \<open>A bind whose first part sends nothing.\<close>

lemma silent_bindE:
  assumes "keeps (emits {}) m" and "bind_c m f s = (r, s')"
  obtains (err) e where "r = Inl e" and "extends [] s s'"
  | (ok) x s1 where "m s = (Inr x, s1)" and "extends [] s s1" and "f x s1 = (r, s')"
proof -
  obtain r1 s1 where m: "m s = (r1, s1)" by (cases "m s")
  then have "extends [] s s1" using assms(1) by (simp add: keeps_def emits_empty [symmetric]) (metis snd_conv)
  then show thesis using assms(2) m err ok by (cases r1) (auto simp: bind_c_def)
qed

lemma silent_after: "extends [] s s1 \<Longrightarrow> extends M s1 s' \<Longrightarrow> extends M s s'"
  using extends_trans [of "[]" s s1 M s'] by simp

lemma await_ack_silent: "keeps (emits A) (await_ack w agent_id run_id phase command_id)"
proof -
  have reply: "keeps R (case r of Acked who ok err \<Rightarrow> f who ok err | AckDropped \<Rightarrow> g | AckTimeout \<Rightarrow> h)"
    if "\<And>who ok err. keeps R (f who ok err)" "keeps R g" "keeps R h" for R r f g h
    using that by (cases r) simp_all
  show ?thesis
    unfolding await_ack_def record_run_event_def by (intro reply emits_rules)
qed

lemma keeps_silent: "keeps (emits {}) m \<Longrightarrow> m s = (r, s') \<Longrightarrow> extends [] s s'"
  by (metis keepsD emits_empty)

lemma announce_command_silent: "keeps (emits A) (announce_command w agent_id agent run_id phase)"
  unfolding announce_command_def record_run_event_def by (intro emits_rules)

lemma channel_closed_silent: "keeps (emits A) (channel_closed w agent_id run_id phase command_id)"
  unfolding channel_closed_def record_run_event_def by (intro emits_rules)

lemma channel_closed_fails: "channel_closed w agent_id run_id phase i s = (r, s') \<Longrightarrow> \<exists>e. r = Inl e"
  by (auto simp: channel_closed_def then_c_def bind_c_def fail_c_def split: prod.splits sum.splits)

text \<open>A command sends at most its one message, and exactly that one when it succeeds.\<close>

lemma command_agent_extends:
  assumes "command_agent w agent_id agent run_id phase message s = (r, s')"
  obtains (sent) i where "extends [(ag_generation agent, with_command_id message i)] s s'"
  | (unsent) e where "r = Inl e" and "extends [] s s'"
proof (rule silent_bindE [OF announce_command_silent assms [unfolded command_agent_def]])
  fix i s1
  assume e1: "extends [] s s1"
    and b: "bind_c (send_c w agent (with_command_id message i))
      (\<lambda>sent. if sent then await_ack w agent_id run_id phase i else channel_closed w agent_id run_id phase i) s1 = (r, s')"
  obtain r2 s2 where m: "send_c w agent (with_command_id message i) s1 = (r2, s2)"
    by (cases "send_c w agent (with_command_id message i) s1")
  note send = send_c_extends [OF m]
  show thesis
  proof (cases "r2 = Inr True")
    case True
    then have "await_ack w agent_id run_id phase i s2 = (r, s')" using b m by (simp add: bind_c_def)
    then have e3: "extends [] s2 s'" by (rule keeps_silent [OF await_ack_silent])
    have e2: "extends [(ag_generation agent, with_command_id message i)] s1 s2" using send True by simp
    show thesis
      using extends_trans [OF silent_after [OF e1 e2] e3] by (intro sent [of i]) simp
  next
    case False
    then have "channel_closed w agent_id run_id phase i s2 = (r, s')" "extends [] s1 s2"
      using b m send by (simp_all add: bind_c_def)
    then show thesis
      using e1 unsent channel_closed_fails keeps_silent [OF channel_closed_silent] by (metis silent_after)
  qed
qed (use unsent in blast)


lemma command_agent_sends:
  assumes "command_agent w agent_id agent run_id phase message s = (Inr u, s')"
  obtains i where "extends [(ag_generation agent, with_command_id message i)] s s'"
  using assms by (rule command_agent_extends) simp_all

definition chunks_only :: "uuid list \<Rightarrow> (uuid \<times> control_message) list \<Rightarrow> bool" where
  "chunks_only gens M \<longleftrightarrow> list_all (\<lambda>(g, m). g \<in> set gens \<and> (case m of Chunk c \<Rightarrow> True | _ \<Rightarrow> False)) M"

lemma chunks_only_append [simp]: "chunks_only gens (M @ N) \<longleftrightarrow> chunks_only gens M \<and> chunks_only gens N"
  by (simp add: chunks_only_def)

lemma chunks_only_Nil [simp]: "chunks_only gens []" by (simp add: chunks_only_def)

lemma emits_chunks:
  "emits {(g, Chunk c) |c. True} s s' \<Longrightarrow> g \<in> set gens \<Longrightarrow> \<exists>M. extends M s s' \<and> chunks_only gens M"
  unfolding emits_def chunks_only_def list_all_iff by (elim exE conjE, rule exI, rule conjI, assumption) auto

lemma send_artifacts_emits: "keeps (emits {(ag_generation agent, Chunk c) |c. True}) (send_artifacts w agent ids)"
proof -
  have chunk: "keeps (emits {(ag_generation agent, Chunk c) |c. True}) (send_c w agent (Chunk c))" for c
    by (rule emits_send) auto
  show ?thesis
    unfolding send_artifacts_def send_one_artifact_def send_chunk_def Let_def by (intro emits_rules chunk)
qed

lemma send_artifacts_sends:
  assumes "send_artifacts w agent ids s = (r, s')" and "ag_generation agent \<in> set gens"
  obtains M where "extends M s s'" and "chunks_only gens M"
  using emits_chunks [OF keepsD [OF send_artifacts_emits assms(1)] assms(2)] by blast

lemma then_c_Inr: "then_c m n s = (Inr y, s') \<longleftrightarrow> (\<exists>x s1. m s = (Inr x, s1) \<and> n s1 = (Inr y, s'))"
  by (simp add: then_c_def bind_c_Inr)

text \<open>What a preparation and a start that succeed send.\<close>

lemma prepare_agents_sends:
  assumes "prepare_agents w run_id json ids (client_id, client, client_rt) (server_id, server, server_rt) s = (Inr u, s')"
  obtains M i1 i2 where "chunks_only [ag_generation client, ag_generation server] M"
    and "extends (M @ [(ag_generation client, with_command_id (prepare_message (wd_show_uuid w run_id) json 1 client_rt) i1),
                       (ag_generation server, with_command_id (prepare_message (wd_show_uuid w run_id) json 2 server_rt) i2)]) s s'"
proof -
  let ?gens = "[ag_generation client, ag_generation server]"
  obtain s1 s2 s3 u1 u2 u3
    where a: "send_artifacts w client ids s = (Inr u1, s1)"
      and b: "(if client_id \<noteq> server_id then send_artifacts w server ids else ret_c ()) s1 = (Inr u2, s2)"
      and c: "command_agent w client_id client run_id ''prepare''
                (prepare_message (wd_show_uuid w run_id) json 1 client_rt) s2 = (Inr u3, s3)"
      and d: "command_agent w server_id server run_id ''prepare''
                (prepare_message (wd_show_uuid w run_id) json 2 server_rt) s3 = (Inr u, s')"
    using assms unfolding prepare_agents_def Let_def prod.case then_c_Inr by blast
  obtain M where M: "extends M s s1" "chunks_only ?gens M" using a by (rule send_artifacts_sends [where gens = ?gens]) simp_all
  obtain N where N: "extends N s1 s2" "chunks_only ?gens N"
  proof (cases "client_id = server_id")
    case True
    then show thesis using b that [of "[]"] by (simp add: ret_c_def)
  next
    case False
    then have "send_artifacts w server ids s1 = (Inr u2, s2)" using b by simp
    then show thesis by (rule send_artifacts_sends [where gens = ?gens]) (use that in auto)
  qed
  obtain i1 where c1: "extends [(ag_generation client, with_command_id (prepare_message (wd_show_uuid w run_id) json 1 client_rt) i1)] s2 s3"
    using c by (rule command_agent_sends)
  obtain i2 where c2: "extends [(ag_generation server, with_command_id (prepare_message (wd_show_uuid w run_id) json 2 server_rt) i2)] s3 s'"
    using d by (rule command_agent_sends)
  show thesis
    using extends_trans [OF extends_trans [OF M(1) N(1)] extends_trans [OF c1 c2]] M(2) N(2)
    by (intro that [of "M @ N" i1 i2]) simp_all
qed

lemma start_agents_sends:
  assumes "start_agents w run_id ms (client_id, client) (server_id, server) s = (Inr u, s')"
  obtains i1 i2 where
    "extends [(ag_generation client, with_command_id (start_message (wd_show_uuid w run_id) ms 1) i1),
              (ag_generation server, with_command_id (start_message (wd_show_uuid w run_id) ms 2) i2)] s s'"
proof -
  obtain s1 u1
    where c: "command_agent w client_id client run_id ''start'' (start_message (wd_show_uuid w run_id) ms 1) s = (Inr u1, s1)"
      and d: "command_agent w server_id server run_id ''start'' (start_message (wd_show_uuid w run_id) ms 2) s1 = (Inr u, s')"
    using assms unfolding start_agents_def Let_def prod.case then_c_Inr by blast
  obtain i1 where c1: "extends [(ag_generation client, with_command_id (start_message (wd_show_uuid w run_id) ms 1) i1)] s s1"
    using c by (rule command_agent_sends)
  obtain i2 where c2: "extends [(ag_generation server, with_command_id (start_message (wd_show_uuid w run_id) ms 2) i2)] s1 s'"
    using d by (rule command_agent_sends)
  show thesis using extends_trans [OF c1 c2] by (intro that [of i1 i2]) simp
qed


section \<open>The outcome of a start\<close>

definition launch_messages :: "string \<Rightarrow> string \<Rightarrow> int \<Rightarrow> uuid \<times> endpoint_runtime \<Rightarrow> uuid \<times> endpoint_runtime
    \<Rightarrow> string \<times> string \<times> string \<times> string \<Rightarrow> (uuid \<times> control_message) list" where
  "launch_messages run_id json ms c v ids =
     (let (i1, i2, i3, i4) = ids in
      [(fst c, with_command_id (prepare_message run_id json 1 (snd c)) i1),
       (fst v, with_command_id (prepare_message run_id json 2 (snd v)) i2),
       (fst c, with_command_id (start_message run_id ms 1) i3),
       (fst v, with_command_id (start_message run_id ms 2) i4)])"

definition run_status :: "app_state \<Rightarrow> string \<Rightarrow> string option" where
  "run_status s run_id = map_option rr_status (db_runs (ap_db s) run_id)"

lemma run_failed_fails: "run_failed w run_id stage e s \<noteq> (Inr x, s')"
  by (auto simp: run_failed_def then_c_Inr fail_c_def)

lemma catch_c_eq: "catch_c m s = (Inr r, s') \<longleftrightarrow> m s = (r, s')"
  by (auto simp: catch_c_def split: prod.splits)

text \<open>The last statements of a start: the row, the event, the bookkeeping and the broadcast.\<close>

definition set_running :: "world \<Rightarrow> uuid \<Rightarrow> string \<Rightarrow> string \<Rightarrow> int \<Rightarrow> uuid ctl" where
  "set_running w run_id client_id server_id started =
     then_c (runs_mark_running w (wd_show_uuid w run_id) started) (
     then_c (record_run_event w run_id ''control'' None ''run'' ''running'') (
     then_c (activate_run run_id client_id server_id) (
     then_c (broadcast_c (RunStarted run_id)) (ret_c run_id))))"

lemma set_running_outcome:
  assumes "set_running w run_id client_id server_id started s = (Inr x, s')"
  shows "x = run_id" "ap_active_run s' = Some run_id" "ap_sent s' = ap_sent s" "ap_agents s' = ap_agents s"
    "run_status s (wd_show_uuid w run_id) \<noteq> None \<Longrightarrow> run_status s' (wd_show_uuid w run_id) = Some ''running''"
  using assms
  by (auto simp: set_running_def then_c_Inr runs_mark_running_def record_run_event_def append_run_event_def
      db_exec_def Let_def activate_run_def modify_c_def broadcast_c_def ret_c_def run_status_def update_run_def
      split: if_splits option.splits)

lemma launch_run_outcome:
  assumes "launch_run w sc run_id json started ids (client_id, client, client_rt) (server_id, server, server_rt) s = (Inr x, s')"
  shows "x = run_id \<and> ap_active_run s' = Some run_id
    \<and> (\<exists>M ms is. chunks_only [ag_generation client, ag_generation server] M
        \<and> ap_sent s' = ap_sent s @ M @ launch_messages (wd_show_uuid w run_id) json ms
             (ag_generation client, client_rt) (ag_generation server, server_rt) is)
    \<and> (run_status s (wd_show_uuid w run_id) \<noteq> None \<longrightarrow> run_status s' (wd_show_uuid w run_id) = Some ''running'')"
proof -
  let ?c = "(client_id, client, client_rt)" and ?v = "(server_id, server, server_rt)"
  obtain p s1 where p: "prepare_agents w run_id json ids ?c ?v s = (p, s1)" by (cases "prepare_agents w run_id json ids ?c ?v s")
  from assms obtain u now s2 q s3 where prepared: "p = Inr u"
    and now: "ask_c (wd_now w) s1 = (Inr now, s2)"
    and q: "start_agents w run_id (now + 1000) (client_id, client) (server_id, server) s2 = (q, s3)"
    and rest: "(case q of Inl e \<Rightarrow> then_c (stop_agents w run_id [client, server]) (run_failed w run_id ''start'' e)
       | Inr _ \<Rightarrow> set_running w run_id client_id server_id started) s3 = (Inr x, s')"
    unfolding launch_run_def Let_def prod.case bind_c_Inr catch_c_eq p set_running_def [symmetric]
    by (cases p) (auto simp: run_failed_fails bind_c_Inr catch_c_eq)
  obtain u' where started: "q = Inr u'" and run: "set_running w run_id client_id server_id started s3 = (Inr x, s')"
    using rest by (cases q) (auto simp: then_c_Inr run_failed_fails)
  obtain M i1 i2 where M: "chunks_only [ag_generation client, ag_generation server] M"
    and e1: "extends (M @ [(ag_generation client, with_command_id (prepare_message (wd_show_uuid w run_id) json 1 client_rt) i1),
                       (ag_generation server, with_command_id (prepare_message (wd_show_uuid w run_id) json 2 server_rt) i2)]) s s1"
    using p unfolding prepared by (rule prepare_agents_sends)
  obtain i3 i4 where e2:
    "extends [(ag_generation client, with_command_id (start_message (wd_show_uuid w run_id) (now + 1000) 1) i3),
              (ag_generation server, with_command_id (start_message (wd_show_uuid w run_id) (now + 1000) 2) i4)] s2 s3"
    using q unfolding started by (rule start_agents_sends)
  have s2: "s2 = s1\<lparr>ap_tick := Suc (ap_tick s1)\<rparr>" using now by (auto simp: ask_c_def)
  have sent: "ap_sent s' = ap_sent s @ M @ launch_messages (wd_show_uuid w run_id) json (now + 1000)
             (ag_generation client, client_rt) (ag_generation server, server_rt) (i1, i2, i3, i4)"
    using e1 e2 set_running_outcome(3) [OF run] by (simp add: extends_def s2 launch_messages_def)
  have "run_status s3 r = run_status s r" for r
    using e1 e2 by (simp add: extends_def s2 run_status_def)
  then show ?thesis
    using set_running_outcome [OF run] M sent by metis
qed


lemma validate_artifacts_silent: "keeps (emits A) (validate_artifacts w s)"
  unfolding validate_artifacts_def validate_payload_artifact_def validate_capture_artifact_def Let_def
  by (intro emits_rules)

lemma scenario_silent: "keeps (emits A) (scenario_nodes w s)" "keeps (emits A) (scenario_runtime w s)"
proof -
  have path: "keeps R (case p of ManagedDirect a b \<Rightarrow> f a b | ExplicitProxy c1 c2 c3 c4 c5 c6 \<Rightarrow> g c1 c2 c3 c4 c5 c6)"
    if "\<And>a b. keeps R (f a b)" "\<And>c1 c2 c3 c4 c5 c6. keeps R (g c1 c2 c3 c4 c5 c6)" for R p f g
    using that by (cases p) simp_all
  show "keeps (emits A) (scenario_nodes w s)" unfolding scenario_nodes_def by (intro path emits_rules)
  show "keeps (emits A) (scenario_runtime w s)"
    unfolding scenario_runtime_def Let_def by (intro path emits_rules)
qed

lemma online_silent: "keeps (emits A) (online now agent_id role)"
  unfolding online_def by (intro emits_rules)

lemma online_connected:
  "online now agent_id role s = (Inr a, s') \<Longrightarrow> map_of (ap_agents s) agent_id = Some a \<and> now - 15000 \<le> ag_last_seen_ms a"
  by (auto simp: online_def bind_c_Inr get_c_def option_c_def split: option.splits if_splits)

text \<open>The nodes a scenario names, directly or through the revision it refers to.\<close>

definition named_nodes :: "app_state \<Rightarrow> scenario \<Rightarrow> (string \<times> string) option" where
  "named_nodes s sc =
     (case sc_path sc of
        ExplicitProxy cn _ sn _ _ _ \<Rightarrow> Some (cn, sn)
      | ManagedDirect revision _ \<Rightarrow>
          (case db_revisions (ap_db s) revision of
             None \<Rightarrow> None
           | Some r \<Rightarrow> if rv_status r = ''prepared'' then
               Some (ep_node_id (np_client_endpoint (rv_body r)), ep_node_id (np_server_endpoint (rv_body r))) else None))"

lemma scenario_nodes_named:
  "scenario_nodes w sc s = (Inr (c, v, ready), s') \<Longrightarrow> ready \<Longrightarrow> named_nodes s sc = Some (c, v)"
  by (auto simp: scenario_nodes_def named_nodes_def ret_c_def bind_c_Inr db_query_def Let_def option_c_def
      split: scenario_path.splits option.splits if_splits)

definition named_runtime :: "world \<Rightarrow> app_state \<Rightarrow> scenario \<Rightarrow> (endpoint_runtime \<times> endpoint_runtime) option" where
  "named_runtime w s sc =
     (case sc_path sc of
        ExplicitProxy _ cip _ sip port _ \<Rightarrow>
          Some ((show_ip sip @ '':'' @ show_nat (unat port), [], [], [show_ip cip]),
                (show_ip sip @ '':'' @ show_nat (unat port), [], [], []))
      | ManagedDirect revision port \<Rightarrow>
          (case db_revisions (ap_db s) revision of
             None \<Rightarrow> None
           | Some r \<Rightarrow> (case managed_runtime (wd_show_uuid w revision) (rv_body r) port of Inl e \<Rightarrow> None | Inr x \<Rightarrow> Some x)))"

lemma scenario_runtime_named:
  "scenario_runtime w sc s = (Inr x, s') \<Longrightarrow> named_runtime w s sc = Some x"
  by (auto simp: scenario_runtime_def named_runtime_def ret_c_def bind_c_Inr db_query_def Let_def option_c_def lift_c_def
      split: scenario_path.splits option.splits if_splits)

lemma named_runtime_extends: "extends M s s' \<Longrightarrow> named_runtime w s' sc = named_runtime w s sc"
  by (cases "sc_path sc") (simp_all add: named_runtime_def extends_def)

lemma named_nodes_extends: "extends M s s' \<Longrightarrow> named_nodes s' sc = named_nodes s sc"
  by (cases "sc_path sc") (simp_all add: named_nodes_def extends_def)

lemma runs_create_row:
  "runs_create w i si sj nm s = (Inr u, s') \<Longrightarrow>
     same_book s s' \<and> ap_agents s' = ap_agents s \<and> ap_sent s' = ap_sent s
   \<and> run_status s i = None \<and> run_status s' i = Some ''preparing'' \<and> (\<forall>r. r \<noteq> i \<longrightarrow> run_status s' r = run_status s r)"
  by (auto simp: runs_create_def bind_c_Inr db_query_def Let_def fail_c_def modify_c_def same_book_def run_status_def
      split: option.splits if_splits)

text \<open>The first part of a start, up to the creation of the run's row.\<close>

lemma start_run_prefix:
  assumes "start_run w sc name s = (Inr x, s')"
  obtains client_id server_id client server crt vrt run_id started s1 where
    "scenario_validate sc = Inr ()" and "ap_active_run s = None"
    and "named_nodes s sc = Some (client_id, server_id)" and "named_runtime w s sc = Some (crt, vrt)"
    and "map_of (ap_agents s) client_id = Some client" and "map_of (ap_agents s) server_id = Some server"
    and "ap_sent s1 = ap_sent s" and "run_status s1 (wd_show_uuid w run_id) = Some ''preparing''"
    and "run_status s (wd_show_uuid w run_id) = None"
    and "launch_run w sc run_id (wd_scenario_json w sc) started (needed_artifacts sc)
      (client_id, client, crt) (server_id, server, vrt) s1 = (Inr x, s')"
proof -
  obtain u0 t0 u1 t1 t2 u2 n t3 where valid: "(case scenario_validate sc of Inl e \<Rightarrow> Inl (InvalidScenario e) | Inr u \<Rightarrow> Inr u) = Inr u0"
    and a1: "validate_artifacts w sc s = (Inr u1, t1)"
    and idle: "guard_c (ap_active_run t1 = None) RunAlreadyActive t1 = (Inr u2, t2)"
    and a3: "scenario_nodes w sc t2 = (Inr n, t3)"
    and rest: "(case n of (client_id, server_id, ready) \<Rightarrow>
     then_c (guard_c ready RevisionNotPrepared) (
     bind_c (ask_c (wd_now w)) (\<lambda>now.
     bind_c (online now client_id 1) (\<lambda>client.
     bind_c (online now server_id 2) (\<lambda>server.
     bind_c (ask_c (wd_fresh w)) (\<lambda>run_id.
     bind_c (scenario_runtime w sc) (\<lambda>(client_rt, server_rt).
     bind_c (ask_c (wd_now w)) (\<lambda>started.
     then_c (runs_create w (wd_show_uuid w run_id) (wd_show_uuid w (sc_id sc)) (wd_scenario_json w sc)
               (run_name w sc name started)) (
     then_c (record_run_event w run_id ''control'' None ''prepare'' ''started'')
       (launch_run w sc run_id (wd_scenario_json w sc) started (needed_artifacts sc)
         (client_id, client, client_rt) (server_id, server, server_rt))))))))))) t3 = (Inr x, s')"
    using assms unfolding start_run_def
    by (auto simp: bind_c_Inr then_c_Inr lift_c_def get_c_def)
  obtain c v ready where n: "n = (c, v, ready)" by (cases n)
  obtain t4 t5 t6 t7 t8 t9 t10 t11 now client server run_id crt vrt started u3 u4 u5
    where ready: "guard_c ready RevisionNotPrepared t3 = (Inr u3, t4)"
      and b1: "ask_c (wd_now w) t4 = (Inr now, t5)"
      and b2: "online now c 1 t5 = (Inr client, t6)"
      and b3: "online now v 2 t6 = (Inr server, t7)"
      and b4: "ask_c (wd_fresh w) t7 = (Inr run_id, t8)"
      and b5: "scenario_runtime w sc t8 = (Inr (crt, vrt), t9)"
      and b6: "ask_c (wd_now w) t9 = (Inr started, t10)"
      and b7: "runs_create w (wd_show_uuid w run_id) (wd_show_uuid w (sc_id sc)) (wd_scenario_json w sc)
               (run_name w sc name started) t10 = (Inr u4, t11)"
      and b8: "then_c (record_run_event w run_id ''control'' None ''prepare'' ''started'')
       (launch_run w sc run_id (wd_scenario_json w sc) started (needed_artifacts sc)
         (c, client, crt) (v, server, vrt)) t11 = (Inr x, s')"
    using rest unfolding n prod.case
    by (auto simp: bind_c_Inr then_c_Inr [of "guard_c _ _"] then_c_Inr [of "runs_create _ _ _ _ _"])
  obtain t12 u6 where b9: "record_run_event w run_id ''control'' None ''prepare'' ''started'' t11 = (Inr u6, t12)"
    and launch: "launch_run w sc run_id (wd_scenario_json w sc) started (needed_artifacts sc)
         (c, client, crt) (v, server, vrt) t12 = (Inr x, s')"
    using b8 by (auto simp: then_c_Inr)
  have ready: "ready" "t4 = t3" and idle: "ap_active_run t1 = None" "t2 = t1"
    using ready idle by (auto simp: guard_c_def split: if_splits)
  have e1: "extends [] s t1" by (rule keeps_silent [OF validate_artifacts_silent a1])
  have e3: "extends [] t1 t3" using a3 unfolding idle(2) by (rule keeps_silent [OF scenario_silent(1)])
  have e5: "extends [] t4 t5" by (rule keeps_silent [OF silent_primitives(1) b1])
  have e6: "extends [] t5 t6" by (rule keeps_silent [OF online_silent b2])
  have e7: "extends [] t6 t7" by (rule keeps_silent [OF online_silent b3])
  have e8: "extends [] t7 t8" by (rule keeps_silent [OF silent_primitives(1) b4])
  have e9: "extends [] t8 t9" by (rule keeps_silent [OF scenario_silent(2) b5])
  have e10: "extends [] t9 t10" by (rule keeps_silent [OF silent_primitives(1) b6])
  have e12: "extends [] t11 t12"
    using b9 unfolding record_run_event_def by (rule keeps_silent [OF silent_primitives(3)])
  note facts = e1 e3 e5 e6 e7 e8 e9 e10 e12 runs_create_row [OF b7] online_connected [OF b2] online_connected [OF b3]
  show thesis
  proof (rule that [OF _ _ _ _ _ _ _ _ _ launch])
    show "scenario_validate sc = Inr ()" using valid by (simp split: sum.splits)
    show "ap_active_run s = None" using e1 idle by (simp add: extends_def same_book_def)
    show "named_nodes s sc = Some (c, v)"
      using scenario_nodes_named [OF a3 [unfolded n] ready(1)] idle named_nodes_extends [OF e1] by simp
    show "named_runtime w s sc = Some (crt, vrt)"
      using scenario_runtime_named [OF b5] named_runtime_extends [OF e1] named_runtime_extends [OF e3]
        named_runtime_extends [OF e5] named_runtime_extends [OF e6] named_runtime_extends [OF e7]
        named_runtime_extends [OF e8] unfolding ready(2) by simp
    show "map_of (ap_agents s) c = Some client" "map_of (ap_agents s) v = Some server"
      using facts unfolding ready(2) by (simp_all add: extends_def)
    show "ap_sent t12 = ap_sent s" "run_status t12 (wd_show_uuid w run_id) = Some ''preparing''"
      "run_status s (wd_show_uuid w run_id) = None"
      using facts unfolding ready(2) by (simp_all add: extends_def run_status_def)
  qed
qed


section \<open>Starts that fail\<close>

text \<open>With a database that works, a failed start leaves the row of its run as failed, or no row.\<close>

definition run_row_failed :: "app_state \<Rightarrow> app_state \<Rightarrow> bool" where
  "run_row_failed s s' \<longleftrightarrow> same_book s s' \<and>
     (\<forall>i. run_status s' i = run_status s i \<or> run_status s i = None \<and> run_status s' i = Some ''failed'')"

lemma run_row_failed_silent: "emits A s s' \<Longrightarrow> run_row_failed s s'"
  by (auto simp: emits_def extends_def run_row_failed_def run_status_def)

lemma run_failed_row:
  assumes "\<And>n. wd_db w n" and "run_failed w run_id stage e s = (r, s')"
  shows "same_book s s' \<and> (\<forall>i. run_status s' i =
    (if i = wd_show_uuid w run_id \<and> run_status s i \<noteq> None then Some ''failed'' else run_status s i))"
  using assms(2)
  by (auto simp: run_failed_def then_c_def bind_c_def runs_finish_def record_run_event_def append_run_event_def
      db_exec_def Let_def assms(1) fail_c_def run_status_def update_run_def same_book_def split: option.splits)

lemma set_running_total:
  assumes "\<And>n. wd_db w n"
  shows "set_running w run_id c v started s \<noteq> (Inl e, s')"
  by (simp add: set_running_def then_c_def bind_c_def runs_mark_running_def record_run_event_def
      append_run_event_def db_exec_def Let_def assms activate_run_def modify_c_def broadcast_c_def ret_c_def)


lemma command_agent_emits: "keeps (emits UNIV) (command_agent w agent_id agent run_id phase message)"
  unfolding command_agent_def
  by (intro emits_rules announce_command_silent emits_send UNIV_I await_ack_silent channel_closed_silent)

lemma send_artifacts_any: "keeps (emits UNIV) (send_artifacts w agent ids)"
  unfolding send_artifacts_def send_one_artifact_def send_chunk_def Let_def
  by (intro emits_rules emits_send UNIV_I)

lemma prepare_agents_emits: "keeps (emits UNIV) (prepare_agents w run_id json ids c v)"
  unfolding prepare_agents_def Let_def split_beta
  by (intro emits_rules send_artifacts_any command_agent_emits)

lemma start_agents_emits: "keeps (emits UNIV) (start_agents w run_id ms c v)"
  unfolding start_agents_def Let_def split_beta by (intro emits_rules command_agent_emits)

lemma stop_agents_emits: "keeps (emits UNIV) (stop_agents w run_id agents)"
  unfolding stop_agents_def by (intro emits_rules emits_send UNIV_I)

lemma emits_book: "emits A s s' \<Longrightarrow> same_book s s' \<and> (\<forall>i. run_status s' i = run_status s i)"
  by (auto simp: emits_def extends_def run_status_def)

lemma launch_run_failed:
  assumes db: "\<And>n. wd_db w n"
    and launch: "launch_run w sc run_id json started ids (client_id, client, crt) (server_id, server, vrt) s = (Inl e, s')"
  shows "same_book s s' \<and> (\<forall>i. run_status s' i =
    (if i = wd_show_uuid w run_id \<and> run_status s i \<noteq> None then Some ''failed'' else run_status s i))"
proof -
  let ?c = "(client_id, client, crt)" and ?v = "(server_id, server, vrt)"
  obtain p s1 where p: "prepare_agents w run_id json ids ?c ?v s = (p, s1)" by (cases "prepare_agents w run_id json ids ?c ?v s")
  have e1: "emits UNIV s s1" by (rule keepsD [OF prepare_agents_emits p])
  show ?thesis
  proof (cases p)
    case (Inl e1')
    then have "(run_failed w run_id ''prepare'' e1' :: uuid ctl) s1 = (Inl e, s')"
      using launch p by (simp add: launch_run_def bind_c_def catch_c_def)
    from run_failed_row [OF db this] emits_book [OF e1] show ?thesis by (auto simp: same_book_def)
  next
    case (Inr u)
    let ?s2 = "s1\<lparr>ap_tick := Suc (ap_tick s1)\<rparr>"
    obtain q s3 where q: "start_agents w run_id (wd_now w (ap_tick s1) + 1000) (client_id, client) (server_id, server) ?s2 = (q, s3)"
      by (cases "start_agents w run_id (wd_now w (ap_tick s1) + 1000) (client_id, client) (server_id, server) ?s2")
    have rest: "(case q of Inl e' \<Rightarrow> then_c (stop_agents w run_id [client, server]) (run_failed w run_id ''start'' e')
       | Inr _ \<Rightarrow> set_running w run_id client_id server_id started) s3 = (Inl e, s')"
      using launch p q Inr by (simp add: launch_run_def bind_c_def catch_c_def ask_c_def set_running_def split: sum.splits)
    have e2: "emits UNIV s1 ?s2" by (rule emits_silent) (simp add: extends_def same_book_def)
    have e3: "emits UNIV s s3"
      by (rule emits.related_trans [OF emits.related_trans [OF e1 e2] keepsD [OF start_agents_emits q]])
    obtain e' where "q = Inl e'" using rest set_running_total [OF db] by (cases q) auto
    then have r: "(then_c (stop_agents w run_id [client, server]) (run_failed w run_id ''start'' e') :: uuid ctl) s3 = (Inl e, s')"
      using rest by simp
    obtain r4 s4 where st: "stop_agents w run_id [client, server] s3 = (r4, s4)" by (cases "stop_agents w run_id [client, server] s3")
    then have "r4 = Inr ()" by (auto simp: stop_agents_def handler_defs split: if_splits)
    then have "(run_failed w run_id ''start'' e' :: uuid ctl) s4 = (Inl e, s')" using r st by (simp add: then_c_def bind_c_def)
    from run_failed_row [OF db this]
      emits_book [OF emits.related_trans [OF e3 keepsD [OF stop_agents_emits st]]]
    show ?thesis by (auto simp: same_book_def)
  qed
qed

definition fails_well :: "'a ctl \<Rightarrow> bool" where
  "fails_well m \<longleftrightarrow> (\<forall>s e s'. m s = (Inl e, s') \<longrightarrow> run_row_failed s s')"

lemma fails_well_bind:
  assumes "keeps (emits UNIV) m" and "\<And>x. fails_well (f x)"
  shows "fails_well (bind_c m f)"
  unfolding fails_well_def bind_c_Inl
proof (intro allI impI, elim disjE exE conjE)
  fix s e s' assume "m s = (Inl e, s')"
  then show "run_row_failed s s'" by (rule run_row_failed_silent [OF keepsD [OF assms(1)]])
next
  fix s e s' x s1 assume "m s = (Inr x, s1)" "f x s1 = (Inl e, s')"
  then have "emits UNIV s s1" "run_row_failed s1 s'"
    using keepsD [OF assms(1)] assms(2) by (auto simp: fails_well_def)
  then show "run_row_failed s s'"
    using emits_book [of UNIV s s1] by (auto simp: run_row_failed_def same_book_def)
qed

lemma fails_well_then: "keeps (emits UNIV) m \<Longrightarrow> fails_well n \<Longrightarrow> fails_well (then_c m n)"
  unfolding then_c_def by (rule fails_well_bind)

lemma fails_well_prod: "(\<And>x y. fails_well (f x y)) \<Longrightarrow> fails_well (case p of (x, y) \<Rightarrow> f x y)"
  by (cases p) simp

lemma fails_well_launch:
  assumes db: "\<And>n. wd_db w n"
  shows "fails_well (then_c (runs_create w (wd_show_uuid w run_id) i j nm) (then_c (record_run_event w run_id src ag st ss)
    (launch_run w sc run_id json started ids (client_id, client, crt) (server_id, server, vrt))))"
  unfolding fails_well_def
proof (intro allI impI)
  fix s e s'
  assume a: "then_c (runs_create w (wd_show_uuid w run_id) i j nm) (then_c (record_run_event w run_id src ag st ss)
    (launch_run w sc run_id json started ids (client_id, client, crt) (server_id, server, vrt))) s = (Inl e, s')"
  obtain r s1 where c: "runs_create w (wd_show_uuid w run_id) i j nm s = (r, s1)"
    by (cases "runs_create w (wd_show_uuid w run_id) i j nm s")
  show "run_row_failed s s'"
  proof (cases r)
    case (Inl e')
    then have "s' = s1" using a c by (simp add: then_c_def bind_c_def)
    moreover have "same_book s s1 \<and> (\<forall>k. run_status s1 k = run_status s k)"
      using c unfolding Inl
      by (auto simp: runs_create_def bind_c_Inl db_query_def Let_def fail_c_def modify_c_def same_book_def run_status_def
          split: option.splits if_splits)
    ultimately show ?thesis by (simp add: run_row_failed_def)
  next
    case (Inr u)
    obtain r2 s2 where ev: "record_run_event w run_id src ag st ss s1 = (r2, s2)"
      by (cases "record_run_event w run_id src ag st ss s1")
    have "r2 = Inr ()" using ev db by (simp add: record_run_event_def append_run_event_def db_exec_def)
    then have l: "launch_run w sc run_id json started ids (client_id, client, crt) (server_id, server, vrt) s2 = (Inl e, s')"
      using a c ev Inr by (simp add: then_c_def bind_c_def)
    have "emits UNIV s1 s2" using ev unfolding record_run_event_def by (rule keepsD [OF silent_primitives(3)])
    from emits_book [OF this] launch_run_failed [OF db l] runs_create_row [OF c [unfolded Inr]]
    show ?thesis by (auto simp: run_row_failed_def same_book_def)
  qed
qed

lemma start_run_fails_well:
  assumes db: "\<And>n. wd_db w n"
  shows "fails_well (start_run w sc name)"
  unfolding start_run_def
  by (intro fails_well_bind fails_well_then fails_well_prod fails_well_launch db emits_rules
      validate_artifacts_silent scenario_silent online_silent)

end
