(* ===== verification/Control_Facts.thy ===== *)
theory Control_Facts
  imports Run_Start
begin

text \<open>
  What the control plane's handlers guarantee about runs: the bookkeeping of the active run, the
  outcome of a start, the completion of a run by its endpoints and the loss of an agent.
\<close>

section \<open>Bookkeeping\<close>



section \<open>Starting a run\<close>




text \<open>An agent that refuses to prepare, and what the start is left with.\<close>

definition refusing_world :: world where
  "refusing_world = example_world\<lparr>wd_ack := (\<lambda>n. Acked ''n'' False ''no'')\<rparr>"

lemma example_refused:
  "\<exists>s. start_run refusing_world example_scenario None example_control = (Inl (CommandRejected ''n'' ''no''), s)"
  unfolding start_run_def example_scenario_valid
  by (simp add: handler_defs refusing_world_def example_world_def example_scenario_def example_control_def empty_database_def
      example_session_def scenario_nodes_def scenario_runtime_def validate_artifacts_def
      validate_payload_artifact_def validate_capture_artifact_def scenario_default_def payload_fixed_def
      online_def needed_artifacts_def runs_create_def record_run_event_def append_run_event_def
      launch_run_def prepare_agents_def command_agent_def announce_command_def await_ack_def send_artifacts_def
      add_pending_ack_def remove_pending_ack_def begin_participant_command_def
      prepare_message_def run_failed_def runs_finish_def update_run_def List.map_filter_simps)


section \<open>The completion of a run\<close>

text \<open>The reports of agents handled one after the other, and what each of them orders.\<close>

fun report_all :: "world \<Rightarrow> (string \<times> agent_event) list \<Rightarrow> app_state \<Rightarrow> finish_order list" where
  "report_all w [] s = []"
| "report_all w ((agent_id, e) # es) s =
     (case complete_endpoint w agent_id e s of
        (Inl err, s1) \<Rightarrow> [] | (Inr o', s1) \<Rightarrow> o' # report_all w es s1)"

definition reports :: "world \<Rightarrow> uuid \<Rightarrow> agent_event \<Rightarrow> bool" where
  "reports w run_id e \<longleftrightarrow> ev_message e = ''run_completed'' \<and> wd_parse_uuid w (ev_run_id e) = Some run_id"

definition reported :: "world \<Rightarrow> uuid \<Rightarrow> (string \<times> agent_event) list \<Rightarrow> string set" where
  "reported w run_id es = {endpoint_key agent_id (ev_endpoint_role e) |agent_id e. (agent_id, e) \<in> set es \<and> reports w run_id e}"

lemma reported_Nil [simp]: "reported w run_id [] = {}" by (simp add: reported_def)

lemma reported_Cons: "reported w run_id ((a, e) # es) =
    (if reports w run_id e then {endpoint_key a (ev_endpoint_role e)} else {}) \<union> reported w run_id es"
  by (auto simp: reported_def)

definition completed_keys :: "uuid \<Rightarrow> app_state \<Rightarrow> string set" where
  "completed_keys run_id s = (case ap_completed_agents s run_id of None \<Rightarrow> {} | Some x \<Rightarrow> set x)"

definition running_with :: "uuid \<Rightarrow> string list \<Rightarrow> app_state \<Rightarrow> bool" where
  "running_with run_id expected s \<longleftrightarrow> ap_active_run s = Some run_id \<and> ap_expected_endpoints s run_id = Some expected"

lemma complete_endpoint_step:
  assumes "running_with run_id expected s" and "expected \<noteq> []"
  obtains s1 where
    "complete_endpoint w a e s = (Inr (if reports w run_id e
        \<and> set expected \<subseteq> insert (endpoint_key a (ev_endpoint_role e)) (completed_keys run_id s)
      then Some (run_id, ''completed'', NoError) else None), s1)"
    and "running_with run_id expected s1"
    and "completed_keys run_id s1 = (if reports w run_id e
      then insert (endpoint_key a (ev_endpoint_role e)) (completed_keys run_id s) else completed_keys run_id s)"
proof -
  obtain r s1 where c: "complete_endpoint w a e s = (r, s1)" by (cases "complete_endpoint w a e s")
  have "r = Inr (if reports w run_id e
        \<and> set expected \<subseteq> insert (endpoint_key a (ev_endpoint_role e)) (completed_keys run_id s)
      then Some (run_id, ''completed'', NoError) else None) \<and> running_with run_id expected s1
    \<and> completed_keys run_id s1 = (if reports w run_id e
      then insert (endpoint_key a (ev_endpoint_role e)) (completed_keys run_id s) else completed_keys run_id s)"
    using c assms
    by (auto simp: complete_endpoint_def reports_def handler_defs running_with_def completed_keys_def all_completed_def
        list_all_iff split: option.splits if_splits)
  with c that show thesis by metis
qed

lemma report_all_orders:
  assumes "running_with run_id expected s" and "expected \<noteq> []"
  shows "length (report_all w es s) = length es \<and> (\<forall>k<length es. report_all w es s ! k =
    (if reports w run_id (snd (es ! k)) \<and> set expected \<subseteq> completed_keys run_id s \<union> reported w run_id (take (Suc k) es)
     then Some (run_id, ''completed'', NoError) else None))"
  using assms(1)
proof (induction es arbitrary: s)
  case (Cons x es)
  obtain a e where x: "x = (a, e)" by (cases x)
  obtain s1 where c: "complete_endpoint w a e s = (Inr (if reports w run_id e
        \<and> set expected \<subseteq> insert (endpoint_key a (ev_endpoint_role e)) (completed_keys run_id s)
      then Some (run_id, ''completed'', NoError) else None), s1)"
    "running_with run_id expected s1"
    "completed_keys run_id s1 = (if reports w run_id e
      then insert (endpoint_key a (ev_endpoint_role e)) (completed_keys run_id s) else completed_keys run_id s)"
    using Cons.prems assms(2) by (rule complete_endpoint_step)
  have keys: "completed_keys run_id s1 \<union> A = completed_keys run_id s \<union> ((if reports w run_id e
      then {endpoint_key a (ev_endpoint_role e)} else {}) \<union> A)" for A
    unfolding c(3) by auto
  note rest = Cons.IH [OF c(2)]
  show ?case
    unfolding x
  proof (intro conjI allI impI)
    show "length (report_all w ((a, e) # es) s) = length ((a, e) # es)" using rest c(1) by simp
  next
    fix k assume k: "k < length ((a, e) # es)"
    show "report_all w ((a, e) # es) s ! k = (if reports w run_id (snd (((a, e) # es) ! k))
        \<and> set expected \<subseteq> completed_keys run_id s \<union> reported w run_id (take (Suc k) ((a, e) # es))
      then Some (run_id, ''completed'', NoError) else None)"
      using rest c(1) k by (cases k) (auto simp: reported_Cons keys)
  qed
qed simp



section \<open>The loss of an agent\<close>

lemma stop_agents_sends:
  assumes "reliable w"
  obtains ids where "length ids = length agents"
    and "ap_sent (snd (stop_agents w run_id agents s)) = ap_sent s
      @ map2 (\<lambda>a i. (ag_generation a, stop_message (wd_show_uuid w run_id) i)) agents ids"
    and "fst (stop_agents w run_id agents s) = Inr ()"
    and "same_book s (snd (stop_agents w run_id agents s))"
    and "ap_db (snd (stop_agents w run_id agents s)) = ap_db s"
proof -
  have "\<exists>ids. length ids = length agents \<and> ap_sent (snd (stop_agents w run_id agents s)) = ap_sent s
      @ map2 (\<lambda>a i. (ag_generation a, stop_message (wd_show_uuid w run_id) i)) agents ids
    \<and> fst (stop_agents w run_id agents s) = Inr () \<and> same_book s (snd (stop_agents w run_id agents s))
    \<and> ap_db (snd (stop_agents w run_id agents s)) = ap_db s"
  proof (induction agents arbitrary: s)
    case Nil
    then show ?case by (simp add: stop_agents_def ret_c_def same_book_def)
  next
    case (Cons a agents)
    let ?i = "wd_show_uuid w (wd_fresh w (ap_tick s))"
    let ?s1 = "s\<lparr>ap_tick := Suc (Suc (ap_tick s)), ap_sent := ap_sent s @ [(ag_generation a, stop_message (wd_show_uuid w run_id) ?i)]\<rparr>"
    have step: "stop_agents w run_id (a # agents) s = stop_agents w run_id agents ?s1"
      using assms by (simp add: stop_agents_def handler_defs reliable_def)
    obtain ids where ids: "length ids = length agents" "ap_sent (snd (stop_agents w run_id agents ?s1)) = ap_sent ?s1
      @ map2 (\<lambda>a i. (ag_generation a, stop_message (wd_show_uuid w run_id) i)) agents ids
      \<and> fst (stop_agents w run_id agents ?s1) = Inr () \<and> same_book ?s1 (snd (stop_agents w run_id agents ?s1))
      \<and> ap_db (snd (stop_agents w run_id agents ?s1)) = ap_db ?s1" using Cons.IH [of ?s1] by blast
    show ?case unfolding step using ids by (intro exI [of _ "?i # ids"]) (simp add: same_book_def)
  qed
  with that show thesis by blast
qed

lemma finish_task_done:
  assumes "reliable w" and "finish_task w (Some (run_id, status, nt)) s = (r, s')"
  shows "ap_active_run s' = (if ap_active_run s = Some run_id then None else ap_active_run s)
    \<and> ap_sent s' = ap_sent s
    \<and> run_status s' i = (if i = wd_show_uuid w run_id \<and> run_status s i \<noteq> None then Some status else run_status s i)"
  using assms
  by (auto simp: finish_task_def finish_run_def handler_defs runs_finish_def record_run_event_def append_run_event_def
      reliable_def run_status_def update_run_def split: option.splits)



end
