(* ===== verification/Runtime_Plan.thy ===== *)
theory Runtime_Plan
  imports Agent_Net Run_Start
begin

text \<open>
  Where the control plane says an endpoint of a managed run lives, against where the agent put it:
  two computations of the same namespace, interface and addresses, one in
  \<open>crates/control/src/orchestration.rs\<close> and one in \<open>crates/agent/src/network.rs\<close>.
\<close>

lemma short_take: "short v = take 8 v" by (simp add: short_def min_def)

lemma operator_or_namespace: "np_provisioning d = OperatorManaged \<longleftrightarrow> np_provisioning d \<noteq> ManagedNamespace"
  by (cases "np_provisioning d") simp_all

lemma operator_part_where:
  "operator_part role e current addresses = Inr p \<Longrightarrow>
     pt_endpoint p = \<lparr>el_role = role, el_namespace = [], el_interface = ep_interface_name e, el_addresses = addresses\<rparr>"
  by (auto simp: operator_part_def Let_def split: if_splits)

lemma managed_part_where:
  assumes "managed_part node_id revision_id role d nv e current addresses = Inr p"
  shows "pt_endpoint p = \<lparr>el_role = role, el_namespace = ''pt-'' @ take 8 revision_id @ ''-'' @ role,
           el_interface = ep_interface_name e, el_addresses = addresses\<rparr>"
proof -
  have "managed_check d e current = None \<and> validate_identifier (''pt-'' @ short revision_id @ ''-'' @ role)"
    using assms unfolding managed_part_def Let_def by (simp only: split: option.splits if_splits) auto
  then show ?thesis using assms unfolding managed_part_def Let_def by (auto simp: short_take)
qed

lemma plan_endpoint_where:
  assumes "plan_endpoint node_id revision_id d nv (role, e) = Inr (Some p)"
  shows "el_role (pt_endpoint p) = role \<and> el_interface (pt_endpoint p) = ep_interface_name e
    \<and> el_namespace (pt_endpoint p) = managed_namespace revision_id d role
    \<and> expand_pool e = Inr (el_addresses (pt_endpoint p)) \<and> ep_node_id e = node_id"
proof -
  from assms obtain current addresses where ei: "endpoint_interface nv e = Inr (current, addresses)"
    and part: "(if np_provisioning d = OperatorManaged then operator_part role e current addresses
      else managed_part node_id revision_id role d nv e current addresses) = Inr p" and node: "ep_node_id e = node_id"
    by (auto simp: plan_endpoint_def split: if_splits prod.splits)
  have "pt_endpoint p = \<lparr>el_role = role, el_namespace = managed_namespace revision_id d role,
           el_interface = ep_interface_name e, el_addresses = addresses\<rparr>"
  proof (cases "np_provisioning d = OperatorManaged")
    case True
    then show ?thesis using part operator_part_where by (simp add: managed_namespace_def)
  next
    case False
    then have "np_provisioning d = ManagedNamespace" by (simp add: operator_or_namespace)
    then show ?thesis using part managed_part_where by (simp add: managed_namespace_def)
  qed
  then show ?thesis using endpoint_interface_Inr [OF ei] node by simp
qed

lemma network_plan_where:
  assumes "network_plan_for node_id revision_id d nv = Inr plan" and "el \<in> set (nl_endpoints plan)"
  obtains role e where "(role, e) \<in> {(''client'', np_client_endpoint d), (''server'', np_server_endpoint d)}"
    and "el_role el = role" and "el_interface el = ep_interface_name e"
    and "el_namespace el = managed_namespace revision_id d role"
    and "expand_pool e = Inr (el_addresses el)"
proof -
  from assms(1) obtain a b where
    a: "plan_endpoint node_id revision_id d nv (''client'', np_client_endpoint d) = Inr a"
    and b: "plan_endpoint node_id revision_id d nv (''server'', np_server_endpoint d) = Inr b"
    and p: "nl_endpoints plan = map pt_endpoint
      (case a of None \<Rightarrow> (case b of None \<Rightarrow> [] | Some q \<Rightarrow> [q]) | Some p \<Rightarrow> p # (case b of None \<Rightarrow> [] | Some q \<Rightarrow> [q]))"
    unfolding network_plan_for_def by auto
  from assms(2) p consider q where "a = Some q" "el = pt_endpoint q" | q where "b = Some q" "el = pt_endpoint q"
    by (auto split: option.splits)
  then show thesis
  proof cases
    case (1 q)
    from plan_endpoint_where [OF a [unfolded 1(1)]] 1(2) show ?thesis
      by (intro that [of "''client''" "np_client_endpoint d"]) simp_all
  next
    case (2 q)
    from plan_endpoint_where [OF b [unfolded 2(1)]] 2(2) show ?thesis
      by (intro that [of "''server''" "np_server_endpoint d"]) simp_all
  qed
qed

text \<open>The parts of a runtime.\<close>

lemma managed_runtime_parts:
  assumes "managed_runtime revision_id d port = Inr (c, v)"
    and "expand_pool (np_client_endpoint d) = Inr as"
  shows "map host_part as = snd (snd (snd c))"
    and "fst (snd c) = ep_interface_name (np_client_endpoint d)"
    and "fst (snd (snd c)) = managed_namespace revision_id d ''client''"
    and "fst (snd v) = ep_interface_name (np_server_endpoint d)"
    and "fst (snd (snd v)) = managed_namespace revision_id d ''server''"
  using assms
  by (auto simp: managed_runtime_def expand_pool_def Let_def comp_def host_part_cidr [simplified] ok_or_def
      split: option.splits)

lemma managed_runtime_target:
  assumes "managed_runtime revision_id d port = Inr (c, v)"
    and "expand_pool (np_server_endpoint d) = Inr bs" and "bs \<noteq> []"
  shows "\<exists>address. fst c = address @ '':'' @ show_nat (unat port) \<and> fst v = fst c
    \<and> parse_ipv4 address \<noteq> None \<and> parse_ipv4 address = parse_ipv4 (host_part (hd bs))"
proof -
  from assms(1) obtain address p where s: "split_once CHR ''/'' (ep_start_cidr (np_server_endpoint d)) = Some (address, p)"
    and t: "fst c = address @ '':'' @ show_nat (unat port)" "fst v = fst c"
    by (auto simp: managed_runtime_def Let_def ok_or_def split: option.splits)
  with assms(2) obtain start where a: "parse_ipv4 address = Some start"
    and bs: "bs = map (\<lambda>n. show_ipv4 (start + of_nat n) @ ''/'' @ p) [0..<unat (ep_count (np_server_endpoint d))]"
    by (auto simp: expand_pool_def ok_or_def split: option.splits)
  with assms(3) have "hd bs = show_ipv4 start @ ''/'' @ p" by (simp add: hd_map)
  then show ?thesis using t a parse_show_ipv4 [of start] by (auto simp: host_part_cidr [simplified])
qed

lemma managed_runtime_total:
  assumes "expand_pool (np_client_endpoint d) = Inr as" and "expand_pool (np_server_endpoint d) = Inr bs"
  obtains c v where "managed_runtime revision_id d port = Inr (c, v)"
  using assms by (auto simp: managed_runtime_def expand_pool_def Let_def ok_or_def split: option.splits)

text \<open>
  C13. The two sides agree on where a managed run takes place. For every endpoint in the plan an
  agent applies for a profile, the runtime the control plane computes from the same profile names
  the same interface and the same namespace for that role, the client binds exactly the addresses
  the plan assigns to its interface, and the target is the first address of the server's interface.
\<close>

theorem runtime_matches_plan:
  assumes "network_plan_for node_id revision_id d nv = Inr plan"
    and "managed_runtime revision_id d port = Inr ((target, client_ifc, client_ns, sources), (starget, server_ifc, server_ns, none))"
  shows "\<forall>el\<in>set (nl_endpoints plan).
      el_role el = ''client'' \<and> el_interface el = client_ifc \<and> el_namespace el = client_ns
        \<and> map host_part (el_addresses el) = sources
    \<or> el_role el = ''server'' \<and> el_interface el = server_ifc \<and> el_namespace el = server_ns \<and> starget = target
        \<and> (el_addresses el \<noteq> [] \<longrightarrow> (\<exists>address. target = address @ '':'' @ show_nat (unat port)
             \<and> parse_ipv4 address \<noteq> None \<and> parse_ipv4 address = parse_ipv4 (host_part (hd (el_addresses el)))))"
proof
  fix el assume el: "el \<in> set (nl_endpoints plan)"
  obtain role e where w: "(role, e) \<in> {(''client'', np_client_endpoint d), (''server'', np_server_endpoint d)}"
    "el_role el = role" "el_interface el = ep_interface_name e"
    "el_namespace el = managed_namespace revision_id d role" "expand_pool e = Inr (el_addresses el)"
    using assms(1) el by (rule network_plan_where)
  have "\<exists>as. expand_pool (np_client_endpoint d) = Inr as" "starget = target"
    using assms(2) by (auto simp: managed_runtime_def expand_pool_def Let_def ok_or_def split: option.splits)
  then obtain as where as: "expand_pool (np_client_endpoint d) = Inr as" and st: "starget = target" by blast
  note parts = managed_runtime_parts [OF assms(2) as, simplified]
  from w(1) consider "role = ''client''" "e = np_client_endpoint d" | "role = ''server''" "e = np_server_endpoint d" by auto
  then show "el_role el = ''client'' \<and> el_interface el = client_ifc \<and> el_namespace el = client_ns
        \<and> map host_part (el_addresses el) = sources
    \<or> el_role el = ''server'' \<and> el_interface el = server_ifc \<and> el_namespace el = server_ns \<and> starget = target
        \<and> (el_addresses el \<noteq> [] \<longrightarrow> (\<exists>address. target = address @ '':'' @ show_nat (unat port)
             \<and> parse_ipv4 address \<noteq> None \<and> parse_ipv4 address = parse_ipv4 (host_part (hd (el_addresses el)))))"
  proof cases
    case 1
    then show ?thesis using w parts as by simp
  next
    case 2
    then show ?thesis using w parts st managed_runtime_target [OF assms(2), of "el_addresses el"] by auto
  qed
qed

theorem runtime_matches_plan_witness:
  "\<exists>client_ns sources server_ns. list_all (\<lambda>el.
      el_role el = ''client'' \<and> el_namespace el = client_ns \<and> map host_part (el_addresses el) = sources
    \<or> el_role el = ''server'' \<and> el_namespace el = server_ns)
    (nl_endpoints (projr (network_plan_for ''node-1'' ''0123456789'' profile_example inventory_example)))"
proof -
  obtain c v where r: "managed_runtime ''0123456789'' profile_example 8080 = Inr (c, v)"
    by (rule validated_pools_expand [OF profile_example_valid]) (rule managed_runtime_total)
  obtain t ifc ns src st sifc sns none where cv: "c = (t, ifc, ns, src)" "v = (st, sifc, sns, none)"
    by (cases c, cases v) auto
  define plan where "plan = projr (network_plan_for ''node-1'' ''0123456789'' profile_example inventory_example)"
  note both = runtime_matches_plan [OF example_plan r [unfolded cv], folded plan_def]
  have "el_role el = ''client'' \<and> el_namespace el = ns \<and> map host_part (el_addresses el) = src
      \<or> el_role el = ''server'' \<and> el_namespace el = sns" if "el \<in> set (nl_endpoints plan)" for el
    using bspec [OF both that] by (elim disjE conjE) simp_all
  then show ?thesis
    unfolding plan_def [symmetric] list_all_iff by (intro exI ballI)
qed

end
