(* ===== verification/Net_Orch.thy ===== *)
theory Net_Orch
  imports Control_State "HOL-Library.List_Lexorder" "HOL-Library.Char_ord"
begin

text \<open>
  Planning, applying and tearing down network profiles over the agents
  (\<open>crates/control/src/network_orchestration.rs\<close>) with the statements of
  \<open>repository/network_profiles.rs\<close>. A plan is an operation in the database with a token that can be
  used once; applying it stages the plan of every node, then commits them, and rolls back what was
  staged when a node fails.
\<close>

section \<open>Commands to nodes\<close>

fun wire_api_error :: "wire_error \<Rightarrow> api_error" where
  "wire_api_error RevisionMissing = PlanPartMissing ''revision''"
| "wire_api_error (PlanListMissing name) = PlanPartMissing name"
| "wire_api_error DraftInvalid = PlanPartMissing ''draft''"
| "wire_api_error (UnknownNetworkAction a) = UnknownAction a"

definition net_action :: "world \<Rightarrow> string \<Rightarrow> json \<Rightarrow> api_error + command_action" where
  "net_action w action payload =
     (case network_action (wd_show_uuid w) (wd_parse_draft w) action payload of
        Inl e \<Rightarrow> Inl (wire_api_error e) | Inr a \<Rightarrow> Inr a)"

definition add_pending_network :: "string \<Rightarrow> unit ctl" where
  "add_pending_network i = modify_c (\<lambda>s. s\<lparr>ap_pending_network := i # ap_pending_network s\<rparr>)"

definition remove_pending_network :: "string \<Rightarrow> unit ctl" where
  "remove_pending_network i = modify_c (\<lambda>s. s\<lparr>ap_pending_network := removeAll i (ap_pending_network s)\<rparr>)"

definition network_message :: "string \<Rightarrow> string \<Rightarrow> int \<Rightarrow> command_action \<Rightarrow> control_message" where
  "network_message command_id op lease a =
     Network \<lparr>nc_command_id = command_id, nc_operation_id = op, nc_lease_expires_unix_ms = lease,
              nc_action = Some a\<rparr>"

definition await_network :: "world \<Rightarrow> string \<Rightarrow> string \<Rightarrow> network_progress ctl" where
  "await_network w node command_id =
     bind_c (ask_c (wd_network w)) (\<lambda>reply. then_c (remove_pending_network command_id) (case reply of
       Progressed p \<Rightarrow> if ng_ok p then ret_c p else fail_c (NetworkFailed node (ng_error p))
     | NetworkTimeout \<Rightarrow> fail_c (NetworkTimedOut node)))"

definition net_command :: "world \<Rightarrow> string \<Rightarrow> uuid \<Rightarrow> string \<Rightarrow> json \<Rightarrow> int \<Rightarrow> network_progress ctl" where
  "net_command w node op action payload lease =
     bind_c (get_c (\<lambda>s. map_of (ap_agents s) node)) (\<lambda>found.
     bind_c (option_c (NodeOffline node) found) (\<lambda>agent.
     bind_c (ask_c (\<lambda>n. wd_show_uuid w (wd_fresh w n))) (\<lambda>command_id.
     then_c (add_pending_network command_id) (
     bind_c (lift_c (net_action w action payload)) (\<lambda>a.
     bind_c (send_c w agent (network_message command_id (wd_show_uuid w op) lease a)) (\<lambda>sent.
     then_c (guard_c sent ChannelClosed) (await_network w node command_id)))))))"

section \<open>Statements\<close>

text \<open>The nodes of a profile: sorted, without repetitions.\<close>

definition profile_nodes :: "network_profile_draft \<Rightarrow> string list" where
  "profile_nodes d =
     remdups_adj (sort [ep_node_id (np_client_endpoint d), ep_node_id (np_server_endpoint d)])"

definition revision_context :: "world \<Rightarrow> uuid \<Rightarrow> (network_profile_draft \<times> string list \<times> uuid) ctl" where
  "revision_context w revision =
     bind_c (db_query w (\<lambda>d. db_revisions d revision)) (\<lambda>row.
     bind_c (option_c RevisionNotFound row) (\<lambda>r.
       ret_c (rv_body r, profile_nodes (rv_body r), rv_profile_id r)))"

text \<open>Both tables are updated in one transaction.\<close>

definition set_prepared :: "world \<Rightarrow> uuid \<Rightarrow> uuid \<Rightarrow> bool \<Rightarrow> unit ctl" where
  "set_prepared w revision profile prepared =
     (let status = (if prepared then ''prepared'' else ''unprepared'')
      in db_exec w (\<lambda>d. d\<lparr>
           db_revisions := (db_revisions d)(revision := map_option (\<lambda>r. r\<lparr>rv_status := status\<rparr>) (db_revisions d revision)),
           db_profiles := (db_profiles d)(profile := map_option (\<lambda>p. p\<lparr>pw_status := status\<rparr>) (db_profiles d profile))\<rparr>))"

definition update_operation :: "world \<Rightarrow> uuid \<Rightarrow> (operation_row \<Rightarrow> operation_row) \<Rightarrow> unit ctl" where
  "update_operation w op f =
     db_exec w (\<lambda>d. d\<lparr>db_operations := (db_operations d)(op := map_option f (db_operations d op))\<rparr>)"

definition insert_operation :: "world \<Rightarrow> uuid \<Rightarrow> operation_row \<Rightarrow> unit ctl" where
  "insert_operation w op row =
     db_exec w (\<lambda>d. d\<lparr>db_operations := (db_operations d)(op \<mapsto> row)\<rparr>)"

text \<open>The revision with the digest of the profile's text, or a new one with the next number.\<close>

definition find_revision :: "string \<Rightarrow> database \<Rightarrow> (uuid \<times> nat) option" where
  "find_revision sha d =
     (case find (\<lambda>i. map_option rv_sha256 (db_revisions d i) = Some sha) (db_revision_ids d) of
        None \<Rightarrow> None | Some i \<Rightarrow> map_option (\<lambda>r. (i, rv_revision r)) (db_revisions d i))"

definition next_revision :: "uuid \<Rightarrow> database \<Rightarrow> nat" where
  "next_revision profile d =
     fold max (map rv_revision (filter (\<lambda>r. rv_profile_id r = profile)
       (List.map_filter (db_revisions d) (db_revision_ids d)))) 0 + 1"

definition insert_revision :: "world \<Rightarrow> uuid \<Rightarrow> revision_row \<Rightarrow> unit ctl" where
  "insert_revision w i row =
     db_exec w (\<lambda>d. d\<lparr>db_revisions := (db_revisions d)(i \<mapsto> row), db_revision_ids := db_revision_ids d @ [i]\<rparr>)"

definition revision_for :: "world \<Rightarrow> uuid \<Rightarrow> network_profile_draft \<Rightarrow> (uuid \<times> nat) ctl" where
  "revision_for w profile d =
     (let sha = wd_sha256 w (wd_draft_json w d)
      in bind_c (db_query w (find_revision sha)) (\<lambda>existing. case existing of
           Some x \<Rightarrow> ret_c x
         | None \<Rightarrow>
             bind_c (db_query w (next_revision profile)) (\<lambda>n.
             bind_c (ask_c (wd_fresh w)) (\<lambda>i.
             then_c (insert_revision w i \<lparr>rv_profile_id = profile, rv_revision = n, rv_sha256 = sha,
                       rv_body = d, rv_status = ''unprepared''\<rparr>)
               (ret_c (i, n))))))"

section \<open>Planning\<close>

definition plan_detail :: "string list \<Rightarrow> (string \<times> json) list \<Rightarrow> json" where
  "plan_detail nodes plans = JObject [(''nodes'', json_strings nodes), (''plans'', JObject plans)]"

definition plan_node :: "world \<Rightarrow> uuid \<Rightarrow> uuid \<Rightarrow> network_profile_draft \<Rightarrow> int \<Rightarrow> string \<Rightarrow> json ctl" where
  "plan_node w op revision d expires node =
     bind_c (net_command w node op ''plan'' (JObject [(''profile_revision_id'', JString (wd_show_uuid w revision)),
               (''draft'', wd_draft_value w d)]) expires) (\<lambda>p.
     bind_c (option_c PlanResponseEmpty (ng_plan p)) (\<lambda>plan. ret_c (plan_to_json plan)))"

fun plan_nodes :: "world \<Rightarrow> uuid \<Rightarrow> uuid \<Rightarrow> network_profile_draft \<Rightarrow> int \<Rightarrow> string list \<Rightarrow> (string \<times> json) list ctl" where
  "plan_nodes w op revision d expires [] = ret_c []"
| "plan_nodes w op revision d expires (node # nodes) =
     bind_c (plan_node w op revision d expires node) (\<lambda>j.
     bind_c (plan_nodes w op revision d expires nodes) (\<lambda>js. ret_c ((node, j) # js)))"

record plan_answer =
  pn_operation :: uuid
  pn_revision :: uuid
  pn_number :: nat
  pn_token :: string
  pn_expires :: int
  pn_detail :: json

definition network_plan_op :: "world \<Rightarrow> uuid \<Rightarrow> plan_answer ctl" where
  "network_plan_op w profile =
     bind_c (db_query w (\<lambda>d. case db_profiles d profile of None \<Rightarrow> None | Some p \<Rightarrow> if pw_archived p then None else Some p)) (\<lambda>row.
     bind_c (option_c ProfileNotFound row) (\<lambda>p.
     let d = pw_draft p; nodes = profile_nodes d in
     then_c (lift_c (case profile_validate d of Inl e \<Rightarrow> Inl (InvalidProfile e) | Inr u \<Rightarrow> Inr u)) (
     bind_c (revision_for w profile d) (\<lambda>(revision, n).
     bind_c (ask_c (\<lambda>t. wd_show_uuid w (wd_fresh w t))) (\<lambda>token.
     bind_c (ask_c (wd_fresh w)) (\<lambda>op.
     bind_c (ask_c (wd_now w)) (\<lambda>now.
     let expires = now + 5 * 60 * 1000 in
     then_c (insert_operation w op \<lparr>ow_revision_id = revision, ow_kind = ''plan'', ow_status = ''planned'',
               ow_token_hash = Some (wd_sha256 w token), ow_expires_at = expires,
               ow_detail = plan_detail nodes []\<rparr>) (
     bind_c (plan_nodes w op revision d expires nodes) (\<lambda>plans.
     then_c (update_operation w op (\<lambda>o'. o'\<lparr>ow_status := ''planned'', ow_detail := plan_detail nodes plans\<rparr>))
       (ret_c \<lparr>pn_operation = op, pn_revision = revision, pn_number = n, pn_token = token,
               pn_expires = expires, pn_detail = plan_detail nodes plans\<rparr>))))))))))"

section \<open>Applying\<close>

text \<open>What is checked before an operation is claimed, and what the rest needs of it.\<close>

definition apply_admitted :: "world \<Rightarrow> uuid \<Rightarrow> string \<Rightarrow> (operation_row \<times> string list \<times> uuid) ctl" where
  "apply_admitted w op token =
     bind_c (get_c ap_active_run) (\<lambda>active.
     then_c (guard_c (active = None) ApplyDuringRun) (
     bind_c (db_query w (\<lambda>d. case db_operations d op of None \<Rightarrow> None
               | Some o' \<Rightarrow> if ow_kind o' = ''plan'' then Some o' else None)) (\<lambda>row.
     bind_c (option_c NetworkPlanNotFound row) (\<lambda>o'.
     then_c (guard_c (ow_status o' = ''planned'') PlanTokenUsed) (
     then_c (guard_c (ow_token_hash o' = Some (wd_sha256 w token)) PlanTokenInvalid) (
     bind_c (ask_c (wd_now w)) (\<lambda>now.
     then_c (guard_c (\<not> ow_expires_at o' < now) PlanExpired) (
     bind_c (revision_context w (ow_revision_id o')) (\<lambda>(_, nodes, profile).
       ret_c (o', nodes, profile))))))))))"

definition rollback_nodes :: "world \<Rightarrow> uuid \<Rightarrow> int \<Rightarrow> string list \<Rightarrow> unit ctl" where
  "rollback_nodes w op lease nodes =
     each_c (\<lambda>node. ignore_c (net_command w node op ''rollback'' JNull lease)) nodes"

definition mark_failed :: "world \<Rightarrow> uuid \<Rightarrow> api_error \<Rightarrow> json \<Rightarrow> unit ctl" where
  "mark_failed w op e plans =
     update_operation w op (\<lambda>o'. o'\<lparr>ow_status := ''failed'',
       ow_detail := JObject [(''error'', JString (wd_error_text w e)), (''plans'', plans)]\<rparr>)"

definition give_up :: "world \<Rightarrow> uuid \<Rightarrow> int \<Rightarrow> string list \<Rightarrow> json \<Rightarrow> api_error \<Rightarrow> 'a ctl" where
  "give_up w op lease staged plans e =
     then_c (rollback_nodes w op lease staged) (then_c (mark_failed w op e plans) (fail_c e))"

fun stage_nodes :: "world \<Rightarrow> uuid \<Rightarrow> int \<Rightarrow> (string \<times> json) list \<Rightarrow> string list \<Rightarrow> string list \<Rightarrow> unit ctl" where
  "stage_nodes w op lease plans staged [] = ret_c ()"
| "stage_nodes w op lease plans staged (node # nodes) =
     bind_c (option_c (PlanMissingNode node) (map_of plans node)) (\<lambda>plan.
     bind_c (catch_c (net_command w node op ''stage'' plan lease)) (\<lambda>r. case r of
       Inl e \<Rightarrow> give_up w op lease staged (JObject plans) e
     | Inr _ \<Rightarrow> stage_nodes w op lease plans (staged @ [node]) nodes))"

fun commit_nodes :: "world \<Rightarrow> uuid \<Rightarrow> int \<Rightarrow> (string \<times> json) list \<Rightarrow> string list \<Rightarrow> string list \<Rightarrow> unit ctl" where
  "commit_nodes w op lease plans staged [] = ret_c ()"
| "commit_nodes w op lease plans staged (node # nodes) =
     bind_c (catch_c (net_command w node op ''commit'' JNull lease)) (\<lambda>r. case r of
       Inl e \<Rightarrow> give_up w op lease staged (JObject plans) e
     | Inr _ \<Rightarrow> commit_nodes w op lease plans staged nodes)"

definition network_apply_op :: "world \<Rightarrow> uuid \<Rightarrow> string \<Rightarrow> (uuid \<times> uuid) ctl" where
  "network_apply_op w op token =
     bind_c (apply_admitted w op token) (\<lambda>(o', nodes, profile).
     bind_c (ask_c (\<lambda>n. wd_now w n + 180000)) (\<lambda>lease.
     then_c (update_operation w op (\<lambda>o'. o'\<lparr>ow_status := ''applying''\<rparr>)) (
     bind_c (option_c PlanDetailMissing (as_object (json_get (ow_detail o') ''plans''))) (\<lambda>plans.
     then_c (stage_nodes w op lease plans [] nodes) (
     then_c (commit_nodes w op lease plans nodes nodes) (
     then_c (update_operation w op (\<lambda>o'. o'\<lparr>ow_status := ''completed'', ow_token_hash := None,
               ow_detail := JObject [(''plans'', JObject plans)]\<rparr>)) (
     then_c (set_prepared w (ow_revision_id o') profile True)
       (ret_c (op, ow_revision_id o')))))))))"

section \<open>Tearing down\<close>

fun teardown_nodes :: "world \<Rightarrow> uuid \<Rightarrow> string list \<Rightarrow> unit ctl" where
  "teardown_nodes w op [] = ret_c ()"
| "teardown_nodes w op (node # nodes) =
     bind_c (ask_c (\<lambda>n. wd_now w n + 180000)) (\<lambda>lease.
     bind_c (catch_c (net_command w node op ''teardown'' JNull lease)) (\<lambda>r. case r of
       Inl e \<Rightarrow> then_c (update_operation w op (\<lambda>o'. o'\<lparr>ow_status := ''quarantined'',
           ow_detail := JObject [(''node'', JString node), (''error'', JString (wd_error_text w e))]\<rparr>)) (fail_c e)
     | Inr _ \<Rightarrow> teardown_nodes w op nodes))"

definition network_teardown_op :: "world \<Rightarrow> uuid \<Rightarrow> uuid ctl" where
  "network_teardown_op w revision =
     bind_c (get_c ap_active_run) (\<lambda>active.
     then_c (guard_c (active = None) TeardownDuringRun) (
     bind_c (revision_context w revision) (\<lambda>(_, nodes, profile).
     bind_c (ask_c (wd_fresh w)) (\<lambda>op.
     then_c (insert_operation w op \<lparr>ow_revision_id = revision, ow_kind = ''teardown'', ow_status = ''tearing_down'',
               ow_token_hash = None, ow_expires_at = 0, ow_detail = JObject []\<rparr>) (
     then_c (teardown_nodes w op nodes) (
     then_c (set_prepared w revision profile False) (
     then_c (update_operation w op (\<lambda>o'. o'\<lparr>ow_status := ''completed''\<rparr>)) (ret_c op))))))))"

end
