(* ===== verification/Net_Orch_Facts.thy ===== *)
theory Net_Orch_Facts
  imports Net_Orch Run_Bookkeeping
begin

text \<open>
  What applying a network plan guarantees: the nodes are staged and committed in order, a failure
  rolls lifted what was staged, and a plan's token is used once.
\<close>

section \<open>Messages to nodes\<close>

text \<open>A message without the identifier of its command, and what a script of actions sends.\<close>

type_synonym delivery = "uuid \<times> string \<times> int \<times> command_action option"

fun strip_id :: "uuid \<times> control_message \<Rightarrow> delivery option" where
  "strip_id (g, Network c) = Some (g, nc_operation_id c, nc_lease_expires_unix_ms c, nc_action c)"
| "strip_id (g, m) = None"

definition deliver :: "app_state \<Rightarrow> string \<Rightarrow> int \<Rightarrow> string \<times> command_action \<Rightarrow> delivery option list" where
  "deliver s op lease x =
     (case map_of (ap_agents s) (fst x) of
        None \<Rightarrow> [] | Some a \<Rightarrow> [Some (ag_generation a, op, lease, Some (snd x))])"

definition deliveries :: "app_state \<Rightarrow> string \<Rightarrow> int \<Rightarrow> (string \<times> command_action) list \<Rightarrow> delivery option list" where
  "deliveries s op lease script = concat (map (deliver s op lease) script)"

text \<open>The agents and the database stay, and the script is what is sent.\<close>

definition sends :: "string \<Rightarrow> int \<Rightarrow> (string \<times> command_action) list \<Rightarrow> app_state \<Rightarrow> app_state \<Rightarrow> bool" where
  "sends op lease script s s' \<longleftrightarrow>
     ap_agents s' = ap_agents s \<and> ap_db s' = ap_db s
   \<and> (\<exists>M. ap_sent s' = ap_sent s @ M \<and> map strip_id M = deliveries s op lease script)"

lemma sends_refl: "ap_agents s' = ap_agents s \<Longrightarrow> ap_db s' = ap_db s \<Longrightarrow> ap_sent s' = ap_sent s \<Longrightarrow> sends op lease [] s s'"
  by (simp add: sends_def deliveries_def)

lemma sends_trans: "sends op lease a s s1 \<Longrightarrow> sends op lease b s1 s' \<Longrightarrow> sends op lease (a @ b) s s'"
  by (auto simp: sends_def deliveries_def deliver_def cong: map_cong)

lemma net_command_sends:
  assumes "reliable w" and "net_command w node op action payload lease s = (r, s')"
    and "net_action w action payload = Inr a"
  shows "sends (wd_show_uuid w op) lease [(node, a)] s s'"
  using assms(2)
  by (auto simp: net_command_def handler_defs assms(3) reliableD [OF assms(1)] add_pending_network_def
      await_network_def remove_pending_network_def sends_def deliveries_def deliver_def network_message_def
      split: option.splits network_reply.splits if_splits)

lemma rollback_nodes_sends:
  assumes "reliable w"
  shows "rollback_nodes w op lease nodes s = (r, s') \<Longrightarrow>
    r = Inr () \<and> sends (wd_show_uuid w op) lease (map (\<lambda>n. (n, RollbackAction)) nodes) s s'"
proof (induction nodes arbitrary: s)
  case Nil
  then show ?case by (simp add: rollback_nodes_def ret_c_def sends_refl)
next
  case (Cons node nodes)
  obtain r1 s1 where c: "net_command w node op ''rollback'' JNull lease s = (r1, s1)"
    by (cases "net_command w node op ''rollback'' JNull lease s")
  have a: "net_action w ''rollback'' JNull = Inr RollbackAction" by (simp add: net_action_def network_action_def)
  have "rollback_nodes w op lease nodes s1 = (r, s')"
    using c Cons.prems by (simp add: rollback_nodes_def then_c_def bind_c_def ignore_c_def)
  from Cons.IH [OF this] sends_trans [OF net_command_sends [OF assms c a]] show ?case by simp
qed

definition op_failed :: "world \<Rightarrow> uuid \<Rightarrow> api_error \<Rightarrow> json \<Rightarrow> database \<Rightarrow> database" where
  "op_failed w op e plans d = d\<lparr>db_operations := (db_operations d)(op := map_option
     (\<lambda>o'. o'\<lparr>ow_status := ''failed'', ow_detail := JObject [(''error'', JString (wd_error_text w e)), (''plans'', plans)]\<rparr>)
     (db_operations d op))\<rparr>"

text \<open>A script that ends with the operation marked as failed.\<close>

definition fails_op :: "world \<Rightarrow> uuid \<Rightarrow> int \<Rightarrow> (string \<times> command_action) list \<Rightarrow> api_error \<Rightarrow> json \<Rightarrow> app_state \<Rightarrow> app_state \<Rightarrow> bool" where
  "fails_op w op lease script e plans s s' \<longleftrightarrow>
     ap_agents s' = ap_agents s \<and> ap_db s' = op_failed w op e plans (ap_db s)
   \<and> (\<exists>M. ap_sent s' = ap_sent s @ M \<and> map strip_id M = deliveries s (wd_show_uuid w op) lease script)"

lemma fails_after_sends:
  "sends (wd_show_uuid w op) lease a s s1 \<Longrightarrow> fails_op w op lease b e plans s1 s' \<Longrightarrow> fails_op w op lease (a @ b) e plans s s'"
  by (auto simp: sends_def fails_op_def deliveries_def deliver_def cong: map_cong)

lemma give_up_outcome:
  assumes "reliable w" and "give_up w op lease staged plans e s = (r, s')"
  shows "r = Inl e \<and> fails_op w op lease (map (\<lambda>n. (n, RollbackAction)) staged) e plans s s'"
proof -
  obtain r1 s1 where c: "rollback_nodes w op lease staged s = (r1, s1)" by (cases "rollback_nodes w op lease staged s")
  note o = rollback_nodes_sends [OF assms(1) c]
  have "r = Inl e \<and> s' = s1\<lparr>ap_tick := Suc (ap_tick s1), ap_db := op_failed w op e plans (ap_db s1)\<rparr>"
    using assms(2) c o
    by (simp add: give_up_def mark_failed_def update_operation_def op_failed_def handler_defs reliableD [OF assms(1)])
  then show ?thesis using o by (auto simp: sends_def fails_op_def)
qed

definition stage_of :: "(string \<Rightarrow> network_plan) \<Rightarrow> string \<Rightarrow> string \<times> command_action" where
  "stage_of P n = (n, StageAction (Some (P n)))"

lemma stage_nodes_outcome:
  assumes w: "reliable w"
  shows "stage_nodes w op lease plans staged nodes s = (r, s') \<Longrightarrow>
      \<forall>n\<in>set nodes. map_of plans n = Some (plan_to_json (P n)) \<Longrightarrow>
    r = Inr () \<and> sends (wd_show_uuid w op) lease (map (stage_of P) nodes) s s'
  \<or> (\<exists>k e. k < length nodes \<and> r = Inl e \<and> fails_op w op lease (map (stage_of P) (take (Suc k) nodes)
        @ map (\<lambda>n. (n, RollbackAction)) (staged @ take k nodes)) e (JObject plans) s s')"
proof (induction nodes arbitrary: staged s)
  case Nil
  then show ?case by (simp add: ret_c_def sends_refl)
next
  case (Cons node nodes)
  obtain r1 s1 where c: "net_command w node op ''stage'' (plan_to_json (P node)) lease s = (r1, s1)"
    by (cases "net_command w node op ''stage'' (plan_to_json (P node)) lease s")
  have a: "net_action w ''stage'' (plan_to_json (P node)) = Inr (StageAction (Some (P node)))"
    by (simp add: net_action_def network_action_def)
  note sent = net_command_sends [OF w c a, folded stage_of_def]
  have rest: "(case r1 of Inl e \<Rightarrow> give_up w op lease staged (JObject plans) e
      | Inr _ \<Rightarrow> stage_nodes w op lease plans (staged @ [node]) nodes) s1 = (r, s')"
    using Cons.prems c by (simp add: bind_c_def option_c_def catch_c_def)
  show ?case
  proof (cases r1)
    case (Inl e)
    then have "give_up w op lease staged (JObject plans) e s1 = (r, s')" using rest by simp
    from give_up_outcome [OF w this] fails_after_sends [OF sent] show ?thesis
      by (intro disjI2 exI [of _ 0] exI [of _ e]) fastforce
  next
    case (Inr u)
    then have "stage_nodes w op lease plans (staged @ [node]) nodes s1 = (r, s')" using rest by simp
    from Cons.IH [OF this] Cons.prems(2) consider
      (fine) "r = Inr ()" "sends (wd_show_uuid w op) lease (map (stage_of P) nodes) s1 s'"
    | (failed) k e where "k < length nodes" "r = Inl e" "fails_op w op lease (map (stage_of P) (take (Suc k) nodes)
        @ map (\<lambda>n. (n, RollbackAction)) ((staged @ [node]) @ take k nodes)) e (JObject plans) s1 s'" by auto
    then show ?thesis
    proof cases
      case fine
      then show ?thesis using sends_trans [OF sent fine(2)] by simp
    next
      case (failed k e)
      then show ?thesis using fails_after_sends [OF sent failed(3)]
        by (intro disjI2 exI [of _ "Suc k"] exI [of _ e]) simp
    qed
  qed
qed

lemma commit_nodes_outcome:
  assumes w: "reliable w"
  shows "commit_nodes w op lease plans staged nodes s = (r, s') \<Longrightarrow>
    r = Inr () \<and> sends (wd_show_uuid w op) lease (map (\<lambda>n. (n, CommitAction)) nodes) s s'
  \<or> (\<exists>k e. k < length nodes \<and> r = Inl e \<and> fails_op w op lease (map (\<lambda>n. (n, CommitAction)) (take (Suc k) nodes)
        @ map (\<lambda>n. (n, RollbackAction)) staged) e (JObject plans) s s')"
proof (induction nodes arbitrary: s)
  case Nil
  then show ?case by (simp add: ret_c_def sends_refl)
next
  case (Cons node nodes)
  obtain r1 s1 where c: "net_command w node op ''commit'' JNull lease s = (r1, s1)"
    by (cases "net_command w node op ''commit'' JNull lease s")
  have a: "net_action w ''commit'' JNull = Inr CommitAction" by (simp add: net_action_def network_action_def)
  note sent = net_command_sends [OF w c a]
  have rest: "(case r1 of Inl e \<Rightarrow> give_up w op lease staged (JObject plans) e
      | Inr _ \<Rightarrow> commit_nodes w op lease plans staged nodes) s1 = (r, s')"
    using Cons.prems c by (simp add: bind_c_def catch_c_def)
  show ?case
  proof (cases r1)
    case (Inl e)
    then have "give_up w op lease staged (JObject plans) e s1 = (r, s')" using rest by simp
    from give_up_outcome [OF w this] fails_after_sends [OF sent] show ?thesis
      by (intro disjI2 exI [of _ 0] exI [of _ e]) fastforce
  next
    case (Inr u)
    then have "commit_nodes w op lease plans staged nodes s1 = (r, s')" using rest by simp
    from Cons.IH [OF this] consider
      (fine) "r = Inr ()" "sends (wd_show_uuid w op) lease (map (\<lambda>n. (n, CommitAction)) nodes) s1 s'"
    | (failed) k e where "k < length nodes" "r = Inl e" "fails_op w op lease (map (\<lambda>n. (n, CommitAction)) (take (Suc k) nodes)
        @ map (\<lambda>n. (n, RollbackAction)) staged) e (JObject plans) s1 s'" by auto
    then show ?thesis
    proof cases
      case fine
      then show ?thesis using sends_trans [OF sent fine(2)] by simp
    next
      case (failed k e)
      then show ?thesis using fails_after_sends [OF sent failed(3)]
        by (intro disjI2 exI [of _ "Suc k"] exI [of _ e]) simp
    qed
  qed
qed

section \<open>Applying a plan\<close>

definition admissible :: "world \<Rightarrow> uuid \<Rightarrow> string \<Rightarrow> app_state \<Rightarrow> operation_row \<Rightarrow> revision_row \<Rightarrow> bool" where
  "admissible w op token s o' row \<longleftrightarrow>
     ap_active_run s = None \<and> db_operations (ap_db s) op = Some o' \<and> ow_kind o' = ''plan''
   \<and> ow_status o' = ''planned'' \<and> ow_token_hash o' = Some (wd_sha256 w token)
   \<and> db_revisions (ap_db s) (ow_revision_id o') = Some row"

lemma apply_admitted_outcome:
  assumes "reliable w" and "apply_admitted w op token s = (r, s')"
  shows "(\<exists>n. s' = s\<lparr>ap_tick := n\<rparr>) \<and> (case r of Inl e \<Rightarrow> True | Inr (o', nodes, profile) \<Rightarrow>
    \<exists>row. admissible w op token s o' row \<and> nodes = profile_nodes (rv_body row) \<and> profile = rv_profile_id row)"
proof -
  have tick: "\<exists>n. s = s\<lparr>ap_tick := n\<rparr>" by (rule exI [of _ "ap_tick s"]) simp
  show ?thesis
    using assms(2) tick
    by (auto simp: apply_admitted_def revision_context_def handler_defs reliableD [OF assms(1)] admissible_def
        split: option.splits if_splits)
qed

text \<open>What the part after the admission does, on the admitted state.\<close>

definition apply_claimed :: "world \<Rightarrow> uuid \<Rightarrow> operation_row \<Rightarrow> string list \<Rightarrow> uuid \<Rightarrow> (uuid \<times> uuid) ctl" where
  "apply_claimed w op o' nodes profile =
     bind_c (ask_c (\<lambda>n. wd_now w n + 180000)) (\<lambda>lease.
     then_c (update_operation w op (\<lambda>o'. o'\<lparr>ow_status := ''applying''\<rparr>)) (
     bind_c (option_c PlanDetailMissing (as_object (json_get (ow_detail o') ''plans''))) (\<lambda>plans.
     then_c (stage_nodes w op lease plans [] nodes) (
     then_c (commit_nodes w op lease plans nodes nodes) (
     then_c (update_operation w op (\<lambda>o'. o'\<lparr>ow_status := ''completed'', ow_token_hash := None,
               ow_detail := JObject [(''plans'', JObject plans)]\<rparr>)) (
     then_c (set_prepared w (ow_revision_id o') profile True)
       (ret_c (op, ow_revision_id o'))))))))"

lemma network_apply_op_split:
  "network_apply_op w op token = bind_c (apply_admitted w op token) (\<lambda>(o', nodes, profile). apply_claimed w op o' nodes profile)"
  by (simp add: network_apply_op_def apply_claimed_def)

lemma deliveries_cong: "ap_agents s' = ap_agents s \<Longrightarrow> deliveries s' op lease script = deliveries s op lease script"
  by (simp add: deliveries_def deliver_def cong: map_cong)

text \<open>The outcomes of a claimed application.\<close>

definition op_status :: "database \<Rightarrow> uuid \<Rightarrow> string option" where
  "op_status d op = map_option ow_status (db_operations d op)"

definition revision_status :: "database \<Rightarrow> uuid \<Rightarrow> string option" where
  "revision_status d i = map_option rv_status (db_revisions d i)"

definition delivered :: "world \<Rightarrow> uuid \<Rightarrow> app_state \<Rightarrow> (string \<times> command_action) list \<Rightarrow> app_state \<Rightarrow> bool" where
  "delivered w op s script s' \<longleftrightarrow>
     (\<exists>lease M. ap_sent s' = ap_sent s @ M \<and> map strip_id M = deliveries s (wd_show_uuid w op) lease script)"

lemma delivered_from_fails:
  assumes "sends (wd_show_uuid w op) lease a s s1" and "fails_op w op lease b e plans s1 s'"
  shows "delivered w op s (a @ b) s'" "ap_db s' = op_failed w op e plans (ap_db s)"
proof -
  have f: "fails_op w op lease (a @ b) e plans s s'" by (rule fails_after_sends [OF assms])
  from f show "delivered w op s (a @ b) s'" "ap_db s' = op_failed w op e plans (ap_db s)"
    by (auto simp: fails_op_def delivered_def)
qed

lemma op_failed_status:
  "op_status (op_failed w op e plans d) op = map_option (\<lambda>_. ''failed'') (db_operations d op)"
  "revision_status (op_failed w op e plans d) = revision_status d"
  by (simp_all add: op_status_def op_failed_def option.map_comp comp_def revision_status_def fun_eq_iff)

lemma apply_claimed_outcome:
  assumes w: "reliable w" and claimed: "apply_claimed w op o' nodes profile s = (r, s')"
    and exists: "db_operations (ap_db s) op \<noteq> None" and row: "db_revisions (ap_db s) (ow_revision_id o') \<noteq> None"
    and plans: "as_object (json_get (ow_detail o') ''plans'') = Some plans"
      "\<forall>n\<in>set nodes. map_of plans n = Some (plan_to_json (P n))"
  shows "r = Inr (op, ow_revision_id o')
      \<and> delivered w op s (map (stage_of P) nodes @ map (\<lambda>n. (n, CommitAction)) nodes) s'
      \<and> op_status (ap_db s') op = Some ''completed'' \<and> revision_status (ap_db s') (ow_revision_id o') = Some ''prepared''
    \<or> (\<exists>e k script. r = Inl e \<and> k < length nodes \<and> delivered w op s script s'
      \<and> (script = map (stage_of P) (take (Suc k) nodes) @ map (\<lambda>n. (n, RollbackAction)) (take k nodes)
         \<or> script = map (stage_of P) nodes @ map (\<lambda>n. (n, CommitAction)) (take (Suc k) nodes) @ map (\<lambda>n. (n, RollbackAction)) nodes)
      \<and> op_status (ap_db s') op = Some ''failed'' \<and> revision_status (ap_db s') = revision_status (ap_db s))"
proof -
  let ?lease = "wd_now w (ap_tick s) + 180000" and ?op = "wd_show_uuid w op"
  let ?commits = "\<lambda>ns. map (\<lambda>n. (n, CommitAction)) ns" and ?rollbacks = "\<lambda>ns. map (\<lambda>n. (n, RollbackAction)) ns"
  define s0 where "s0 = s\<lparr>ap_tick := Suc (Suc (ap_tick s)), ap_db := (ap_db s)\<lparr>db_operations :=
    (db_operations (ap_db s))(op := map_option (\<lambda>o'. o'\<lparr>ow_status := ''applying''\<rparr>) (db_operations (ap_db s) op))\<rparr>\<rparr>"
  have s0: "ap_agents s0 = ap_agents s" "ap_sent s0 = ap_sent s" "revision_status (ap_db s0) = revision_status (ap_db s)"
    "db_operations (ap_db s0) op \<noteq> None" "db_revisions (ap_db s0) = db_revisions (ap_db s)"
    using exists by (auto simp: s0_def revision_status_def fun_eq_iff)
  have lifted: "delivered w op s cmds x" if "delivered w op s0 cmds x" for cmds x
    using that s0(1,2) by (auto simp: delivered_def deliveries_cong [OF s0(1)])
  obtain r1 s1 where st: "stage_nodes w op ?lease plans [] nodes s0 = (r1, s1)" by (cases "stage_nodes w op ?lease plans [] nodes s0")
  have rest: "bind_c (\<lambda>_. (r1, s1)) (\<lambda>_. then_c (commit_nodes w op ?lease plans nodes nodes) (
     then_c (update_operation w op (\<lambda>o'. o'\<lparr>ow_status := ''completed'', ow_token_hash := None,
               ow_detail := JObject [(''plans'', JObject plans)]\<rparr>)) (
     then_c (set_prepared w (ow_revision_id o') profile True) (ret_c (op, ow_revision_id o'))))) s0 = (r, s')"
    using claimed plans(1) st
    by (simp add: apply_claimed_def update_operation_def handler_defs reliableD [OF w] s0_def [symmetric])
  from stage_nodes_outcome [OF w st plans(2)] consider
    (staged) "r1 = Inr ()" "sends ?op ?lease (map (stage_of P) nodes) s0 s1"
  | (unstaged) k e where "k < length nodes" "r1 = Inl e" "fails_op w op ?lease (map (stage_of P) (take (Suc k) nodes)
        @ ?rollbacks (take k nodes)) e (JObject plans) s0 s1" by auto
  then show ?thesis
  proof cases
    case (unstaged k e)
    then have "r = Inl e" "s' = s1" using rest by (simp_all add: bind_c_def)
    note failed = delivered_from_fails [OF sends_refl [OF refl refl refl] unstaged(3), unfolded append_Nil]
    have "delivered w op s (map (stage_of P) (take (Suc k) nodes) @ ?rollbacks (take k nodes)) s'"
      unfolding \<open>s' = s1\<close> by (rule lifted) (rule failed(1))
    moreover have "op_status (ap_db s') op = Some ''failed''" "revision_status (ap_db s') = revision_status (ap_db s)"
      unfolding \<open>s' = s1\<close> failed(2) using s0(3,4) by (auto simp: op_failed_status)
    ultimately show ?thesis using unstaged(1) \<open>r = Inl e\<close> by blast
  next
    case staged
    obtain r2 s2 where cm: "commit_nodes w op ?lease plans nodes nodes s1 = (r2, s2)" by (cases "commit_nodes w op ?lease plans nodes nodes s1")
    from commit_nodes_outcome [OF w cm] consider
      (committed) "r2 = Inr ()" "sends ?op ?lease (?commits nodes) s1 s2"
    | (uncommitted) k e where "k < length nodes" "r2 = Inl e" "fails_op w op ?lease (?commits (take (Suc k) nodes)
          @ ?rollbacks nodes) e (JObject plans) s1 s2" by auto
    then show ?thesis
    proof cases
      case (uncommitted k e)
      then have "r = Inl e" "s' = s2" using rest staged(1) cm by (simp_all add: bind_c_def then_c_def)
      note failed = delivered_from_fails [OF staged(2) uncommitted(3)]
      have "delivered w op s (map (stage_of P) nodes @ ?commits (take (Suc k) nodes) @ ?rollbacks nodes) s'"
        unfolding \<open>s' = s2\<close> by (rule lifted) (rule failed(1))
      moreover have "op_status (ap_db s') op = Some ''failed''" "revision_status (ap_db s') = revision_status (ap_db s)"
        unfolding \<open>s' = s2\<close> failed(2) using s0(3,4) by (auto simp: op_failed_status)
      ultimately show ?thesis using uncommitted(1) \<open>r = Inl e\<close> by blast
    next
      case committed
      have all: "sends ?op ?lease (map (stage_of P) nodes @ ?commits nodes) s0 s2" by (rule sends_trans [OF staged(2) committed(2)])
      then have db: "ap_db s2 = ap_db s0" by (simp add: sends_def)
      have "r = Inr (op, ow_revision_id o')" "ap_sent s' = ap_sent s2"
        "op_status (ap_db s') op = Some ''completed''" "revision_status (ap_db s') (ow_revision_id o') = Some ''prepared''"
        using rest staged(1) committed(1) cm db s0(4) row
        by (auto simp: bind_c_def then_c_def update_operation_def set_prepared_def db_exec_def Let_def ret_c_def
            reliableD [OF w] op_status_def revision_status_def s0(5))
      moreover have "delivered w op s (map (stage_of P) nodes @ ?commits nodes) s'"
        using all \<open>ap_sent s' = ap_sent s2\<close> by (intro lifted) (auto simp: sends_def delivered_def)
      ultimately show ?thesis by blast
    qed
  qed
qed

lemma delivered_tick: "delivered w op (s\<lparr>ap_tick := n\<rparr>) = delivered w op s"
proof -
  have same: "deliver (s\<lparr>ap_tick := n\<rparr>) = deliver s" by (intro ext) (simp add: deliver_def)
  show ?thesis by (intro ext) (simp add: delivered_def deliveries_def same)
qed

lemma apply_op_cases:
  assumes "reliable w" and "network_apply_op w op token s = (r, s')"
  obtains (refused) e n where "r = Inl e" and "s' = s\<lparr>ap_tick := n\<rparr>"
  | (claimed) o' row n where "admissible w op token s o' row"
      and "apply_claimed w op o' (profile_nodes (rv_body row)) (rv_profile_id row) (s\<lparr>ap_tick := n\<rparr>) = (r, s')"
proof -
  obtain q s1 where a: "apply_admitted w op token s = (q, s1)" by (cases "apply_admitted w op token s")
  note o = apply_admitted_outcome [OF assms(1) a]
  show thesis
  proof (cases q)
    case (Inl e)
    then show thesis using refused o a assms(2) by (auto simp: network_apply_op_split bind_c_def)
  next
    case (Inr x)
    then show thesis using claimed o a assms(2) by (cases x) (auto simp: network_apply_op_split bind_c_def)
  qed
qed

section \<open>An example\<close>

definition applying_world :: world where
  "applying_world = example_world\<lparr>wd_network := (\<lambda>n. Progressed \<lparr>ng_command_id = [], ng_operation_id = [],
     ng_stage = ''stage'', ng_ok = True, ng_plan = None, ng_error = []\<rparr>)\<rparr>"

definition example_profile :: network_profile_draft where
  "example_profile = (network_profile_default 1)\<lparr>
     np_client_endpoint := (np_client_endpoint (network_profile_default 1))\<lparr>ep_node_id := ''n''\<rparr>,
     np_server_endpoint := (np_server_endpoint (network_profile_default 1))\<lparr>ep_node_id := ''n''\<rparr>\<rparr>"

definition empty_plan :: network_plan where
  "empty_plan = \<lparr>nl_profile_revision_id = [], nl_node_id = ''n'', nl_inventory_fingerprint = [], nl_endpoints = [],
     nl_semantic_changes = [], nl_commands = [], nl_rollback_commands = [], nl_warnings = []\<rparr>"

definition example_operation :: operation_row where
  "example_operation = \<lparr>ow_revision_id = 5, ow_kind = ''plan'', ow_status = ''planned'',
     ow_token_hash = Some ''t'', ow_expires_at = 0, ow_detail = plan_detail [''n''] [(''n'', plan_to_json empty_plan)]\<rparr>"

definition example_row :: revision_row where
  "example_row = \<lparr>rv_profile_id = 1, rv_revision = 1, rv_sha256 = [], rv_body = example_profile, rv_status = ''unprepared''\<rparr>"

definition planned_control :: app_state where
  "planned_control = example_control\<lparr>ap_db := empty_database\<lparr>db_operations := [9 \<mapsto> example_operation],
     db_revisions := [5 \<mapsto> example_row], db_revision_ids := [5]\<rparr>\<rparr>"

lemma example_nodes: "profile_nodes (rv_body example_row) = [''n'']"
  by (simp add: profile_nodes_def example_row_def example_profile_def)

lemma planned_example:
  "reliable applying_world" "db_operations (ap_db planned_control) 9 = Some example_operation"
  "db_revisions (ap_db planned_control) (ow_revision_id example_operation) = Some example_row"
  "as_object (json_get (ow_detail example_operation) ''plans'') = Some [(''n'', plan_to_json empty_plan)]"
  "\<forall>n\<in>set (profile_nodes (rv_body example_row)). map_of [(''n'', plan_to_json empty_plan)] n = Some (plan_to_json empty_plan)"
  by (simp_all add: reliable_def applying_world_def example_world_def planned_control_def example_operation_def
      plan_detail_def json_get_def as_object_def example_nodes)

lemma example_commits: "\<exists>s. network_apply_op applying_world 9 ''t'' planned_control = (Inr (9, 5), s)"
  by (simp add: network_apply_op_def apply_admitted_def handler_defs planned_example(2-4) revision_context_def
      example_nodes applying_world_def planned_control_def example_control_def example_operation_def
      example_world_def update_operation_def set_prepared_def net_command_def net_action_def network_action_def
      add_pending_network_def await_network_def remove_pending_network_def plan_detail_def json_get_def as_object_def)

section \<open>Properties\<close>



lemma apply_op_refused:
  assumes "reliable w" and "op_status (ap_db s) op \<noteq> Some ''planned''"
  shows "isl (fst (network_apply_op w op token s))"
    and "ap_sent (snd (network_apply_op w op token s)) = ap_sent s"
    and "ap_db (snd (network_apply_op w op token s)) = ap_db s"
proof -
  obtain r s' where a: "network_apply_op w op token s = (r, s')" by (cases "network_apply_op w op token s")
  with assms(1) have "isl r \<and> ap_sent s' = ap_sent s \<and> ap_db s' = ap_db s"
  proof (cases rule: apply_op_cases)
    case (claimed o' row n)
    then show ?thesis using assms(2) by (simp add: admissible_def op_status_def)
  qed simp
  then show "isl (fst (network_apply_op w op token s))"
    and "ap_sent (snd (network_apply_op w op token s)) = ap_sent s"
    and "ap_db (snd (network_apply_op w op token s)) = ap_db s" using a by simp_all
qed


end
