(* ===== verification/Agent_Session.thy ===== *)
theory Agent_Session
  imports Wire Agent_Journal Replay
begin

text \<open>
  The session of an agent with the control plane (\<open>run_connection\<close> in \<open>crates/agent/src/main.rs\<close>):
  the messages it handles one after the other, the commands it has seen, the runs it has prepared
  and the workers it has started. The two flags of a worker are shared between the session's table
  and the worker, so they live in a store under the worker's number. A handler returns the error
  that ends the session, if any, and the state it leaves.
\<close>

section \<open>Data\<close>

datatype role = ClientRole | ServerRole

fun role_proto :: "role \<Rightarrow> int" where
  "role_proto ClientRole = 1"
| "role_proto ServerRole = 2"

definition role_from_proto :: "int \<Rightarrow> role option" where
  "role_from_proto v = (if v = 1 then Some ClientRole else if v = 2 then Some ServerRole else None)"

fun role_replay :: "role \<Rightarrow> replay_role" where
  "role_replay ClientRole = ReplayClient"
| "role_replay ServerRole = ReplayServer"

record prepared =
  pd_run_id :: uuid
  pd_scenario :: scenario
  pd_payloads :: prepared_payloads
  pd_replay :: "replay_flow list option"

datatype net_error = PlanRejected plan_error | ApplyRejected apply_error | ActionRequired

datatype preflight_error =
    PreflightJson | PreflightScenario validation_error | PreflightInventory
  | AddressNotAssigned role ip_addr | ProxyUnreachable | CannotBind ip_addr u16

datatype session_error =
    InvalidRole | ArtifactsIncomplete | ScenarioJson | SourceIp string | ScenarioRefused validation_error
  | PayloadsRefused payload_error | CaptureIdAbsent | CaptureNotTransferred | CaptureUnreadable
  | ReplayRefused replay_error | RunIdInvalid | ChunkRefused artifact_error
  | NetworkDraftAbsent | NetworkDraftRefused conversion_error | NetworkInventoryFailed | NetworkPlanAbsent
  | StreamClosed

text \<open>The commands completed, as a set and in order.\<close>

record command_memory =
  cm_completed :: "string list"
  cm_order :: "string list"

record worker =
  wk_number :: nat
  wk_job :: prepared
  wk_role :: role
  wk_start_ms :: int

record 'k session_state =
  sn_open :: bool
  sn_store :: artifact_store
  sn_prepared :: "int \<Rightarrow> prepared option"
  sn_active :: "int \<Rightarrow> (uuid \<times> nat) option"
  sn_running :: "nat \<Rightarrow> bool"
  sn_paused :: "nat \<Rightarrow> bool"
  sn_workers :: "worker list"
  sn_next :: nat
  sn_memory :: command_memory
  sn_host :: "'k host"
  sn_leases :: "(string \<times> int) list"
  sn_sent :: "agent_message list"
  sn_tick :: nat

text \<open>What comes from outside: packages, the operating system and random bytes.\<close>

record ('k, 'd) agent_env =
  ae_node_id :: string
  ae_parse_uuid :: "string \<Rightarrow> uuid option"
  ae_show_uuid :: "uuid \<Rightarrow> string"
  ae_sha256 :: "bytes \<Rightarrow> string"
  ae_parse_scenario :: "string \<Rightarrow> scenario option"
  ae_parse_ip :: "string \<Rightarrow> ip_addr option"
  ae_random :: "nat \<Rightarrow> bool \<Rightarrow> nat \<Rightarrow> bytes"
  ae_decode :: "'d hpack"
  ae_decoder :: 'd
  ae_inventory :: "nat \<Rightarrow> node_inventory option"
  ae_system :: "'k system"
  ae_proxy :: "string \<Rightarrow> ip_addr \<Rightarrow> u64 \<Rightarrow> bool"
  ae_bind :: "ip_addr \<Rightarrow> u16 \<Rightarrow> bool"
  ae_net_text :: "net_error \<Rightarrow> string"
  ae_preflight_text :: "preflight_error \<Rightarrow> string"

section \<open>Commands seen\<close>

definition command_seen :: "command_memory \<Rightarrow> string \<Rightarrow> bool" where
  "command_seen m command_id \<longleftrightarrow> command_id \<noteq> [] \<and> command_id \<in> set (cm_completed m)"

definition remember_command :: "string \<Rightarrow> command_memory \<Rightarrow> command_memory" where
  "remember_command command_id m =
     (if command_id = [] \<or> command_id \<in> set (cm_completed m) then m
      else
        let m = m\<lparr>cm_completed := List.insert command_id (cm_completed m), cm_order := cm_order m @ [command_id]\<rparr>
        in if 256 < length (cm_order m)
           then m\<lparr>cm_completed := removeAll (hd (cm_order m)) (cm_completed m), cm_order := tl (cm_order m)\<rparr>
           else m)"

section \<open>Answers\<close>

definition send_agent :: "agent_message \<Rightarrow> 'k session_state \<Rightarrow> session_error option \<times> 'k session_state" where
  "send_agent m st = (if sn_open st then (None, st\<lparr>sn_sent := sn_sent st @ [m]\<rparr>) else (Some StreamClosed, st))"

definition ack :: "string \<Rightarrow> string \<Rightarrow> string \<Rightarrow> bool \<Rightarrow> string \<Rightarrow> agent_message" where
  "ack command_id run_id phase ok err =
     CommandAck \<lparr>ca_command_id = command_id, ca_run_id = run_id, ca_phase = phase, ca_ok = ok, ca_error = err\<rparr>"

definition remember :: "string \<Rightarrow> 'k session_state \<Rightarrow> 'k session_state" where
  "remember command_id st = st\<lparr>sn_memory := remember_command command_id (sn_memory st)\<rparr>"

section \<open>Preparing\<close>

fun parse_sources :: "(string \<Rightarrow> ip_addr option) \<Rightarrow> string list \<Rightarrow> session_error + ip_addr list" where
  "parse_sources parse [] = Inr []"
| "parse_sources parse (v # vs) =
     bind_res (ok_or (SourceIp v) (parse v)) (\<lambda>ip. bind_res (parse_sources parse vs) (\<lambda>ips. Inr (ip # ips)))"

definition non_empty :: "string \<Rightarrow> string option" where
  "non_empty v = (if v = [] then None else Some v)"

definition map_err :: "('e \<Rightarrow> 'f) \<Rightarrow> 'e + 'a \<Rightarrow> 'f + 'a" where
  "map_err f r = (case r of Inl e \<Rightarrow> Inl (f e) | Inr x \<Rightarrow> Inr x)"

definition runtime_scenario :: "prepare_run \<Rightarrow> ip_addr list \<Rightarrow> scenario \<Rightarrow> scenario" where
  "runtime_scenario p ips s =
     s\<lparr>sc_runtime_target_addr := non_empty (pr_target_addr p), sc_runtime_interface := non_empty (pr_interface_name p),
       sc_runtime_namespace := non_empty (pr_namespace p), sc_runtime_source_ips := ips\<rparr>"

definition prepare_replay :: "('k, 'd) agent_env \<Rightarrow> artifact_store \<Rightarrow> scenario \<Rightarrow> role \<Rightarrow> session_error + replay_flow list option" where
  "prepare_replay env store s role =
     (if sc_payload_mode s \<noteq> CaptureReplay then Inr None
      else
        bind_res (ok_or CaptureIdAbsent (sc_capture_artifact_id s)) (\<lambda>i.
        bind_res (ok_or CaptureNotTransferred
          (case as_completed store i of Some (CaptureArtifact j) \<Rightarrow> Some j | _ \<Rightarrow> None)) (\<lambda>j.
        bind_res (ok_or CaptureUnreadable (as_files store j)) (\<lambda>bytes.
        bind_res (map_err ReplayRefused
          (replay_plan_from_capture (ae_decode env) (ae_decoder env) bytes s (role_replay role))) (\<lambda>flows.
          Inr (Some flows))))))"

definition prepare_job :: "('k, 'd) agent_env \<Rightarrow> nat \<Rightarrow> artifact_store \<Rightarrow> role \<Rightarrow> prepare_run \<Rightarrow> session_error + prepared" where
  "prepare_job env tick store role p =
     bind_res (ok_or ScenarioJson (ae_parse_scenario env (pr_scenario_json p))) (\<lambda>s.
     bind_res (parse_sources (ae_parse_ip env) (pr_source_ips p)) (\<lambda>ips.
     let s = runtime_scenario p ips s in
     bind_res (map_err ScenarioRefused (scenario_validate s)) (\<lambda>_.
     bind_res (map_err PayloadsRefused (prepared_payloads_new (ae_random env tick False) (ae_random env tick True) s
       (as_completed store))) (\<lambda>payloads.
     bind_res (prepare_replay env store s role) (\<lambda>replay.
     bind_res (ok_or RunIdInvalid (ae_parse_uuid env (pr_run_id p))) (\<lambda>run_id.
       Inr \<lparr>pd_run_id = run_id, pd_scenario = s, pd_payloads = payloads, pd_replay = replay\<rparr>))))))"

definition handle_prepare :: "('k, 'd) agent_env \<Rightarrow> prepare_run \<Rightarrow> 'k session_state \<Rightarrow> session_error option \<times> 'k session_state" where
  "handle_prepare env p st =
     (case role_from_proto (pr_endpoint_role p) of
        None \<Rightarrow> (Some InvalidRole, st)
      | Some role \<Rightarrow>
          if command_seen (sn_memory st) (pr_command_id p) then
            send_agent (ack (pr_command_id p) (pr_run_id p) ''prepare'' True []) st
          else if as_incoming (sn_store st) \<noteq> Map.empty then (Some ArtifactsIncomplete, st)
          else case prepare_job env (sn_tick st) (sn_store st) role p of
            Inl e \<Rightarrow> (Some e, st)
          | Inr job \<Rightarrow>
              send_agent (ack (pr_command_id p) (pr_run_id p) ''prepare'' True [])
                (remember (pr_command_id p)
                  (st\<lparr>sn_prepared := (sn_prepared st)(pr_endpoint_role p \<mapsto> job), sn_tick := Suc (sn_tick st)\<rparr>)))"

section \<open>Starting, stopping and pausing\<close>

definition active_run_conflicts :: "(int \<Rightarrow> (uuid \<times> nat) option) \<Rightarrow> (nat \<Rightarrow> bool) \<Rightarrow> int \<Rightarrow> uuid \<Rightarrow> bool" where
  "active_run_conflicts active running endpoint_role run_id \<longleftrightarrow>
     (\<exists>r\<in>{1, 2}. case active r of None \<Rightarrow> False
        | Some (active_id, n) \<Rightarrow> running n \<and> (active_id \<noteq> run_id \<or> r = endpoint_role))"

definition start_worker :: "int \<Rightarrow> role \<Rightarrow> prepared \<Rightarrow> int \<Rightarrow> 'k session_state \<Rightarrow> 'k session_state" where
  "start_worker endpoint_role role job start_ms st =
     (let n = sn_next st
      in st\<lparr>sn_next := Suc n, sn_running := (sn_running st)(n := True), sn_paused := (sn_paused st)(n := False),
            sn_active := (sn_active st)(endpoint_role \<mapsto> (pd_run_id job, n)),
            sn_workers := sn_workers st @ [\<lparr>wk_number = n, wk_job = job, wk_role = role, wk_start_ms = start_ms\<rparr>]\<rparr>)"

text \<open>The worker is spawned after the answer, which may fail; it is then not spawned.\<close>

definition handle_start :: "start_run_msg \<Rightarrow> 'k session_state \<Rightarrow> session_error option \<times> 'k session_state" where
  "handle_start m st =
     (let r = st_endpoint_role m; i = st_command_id m; run = st_run_id m
      in case role_from_proto r of
           None \<Rightarrow> (Some InvalidRole, st)
         | Some role \<Rightarrow>
             if command_seen (sn_memory st) i then send_agent (ack i run ''start'' True []) st
             else case sn_prepared st r of
               None \<Rightarrow> send_agent (ack i run ''start'' False ''run was not prepared'') st
             | Some job \<Rightarrow>
                 if active_run_conflicts (sn_active st) (sn_running st) r (pd_run_id job) then
                   send_agent (ack i run ''start'' False ''another run is active'') st
                 else if \<not> sn_open st then
                   (Some StreamClosed, remember i ((start_worker r role job (st_start_unix_ms m) st)\<lparr>sn_workers := sn_workers st\<rparr>))
                 else send_agent (ack i run ''start'' True [])
                   (remember i (start_worker r role job (st_start_unix_ms m) st)))"

text \<open>The workers of the active table that a command for a run and a role (0 for both) is meant for.\<close>

definition addressed :: "(int \<Rightarrow> (uuid \<times> nat) option) \<Rightarrow> uuid \<Rightarrow> int \<Rightarrow> nat set" where
  "addressed active run_id endpoint_role =
     {n. \<exists>r\<in>{1, 2}. active r = Some (run_id, n) \<and> (endpoint_role = 0 \<or> endpoint_role = r)}"

definition handle_stop :: "('k, 'd) agent_env \<Rightarrow> stop_run_msg \<Rightarrow> 'k session_state \<Rightarrow> session_error option \<times> 'k session_state" where
  "handle_stop env m st =
     (let i = sp_command_id m; answer = ack i (sp_run_id m) ''stop'' True []
      in if command_seen (sn_memory st) i then send_agent answer st
         else
           let st = (case ae_parse_uuid env (sp_run_id m) of
                 None \<Rightarrow> st
               | Some run_id \<Rightarrow>
                   let A = addressed (sn_active st) run_id (sp_endpoint_role m)
                   in st\<lparr>sn_running := (\<lambda>n. if n \<in> A then False else sn_running st n),
                         sn_paused := (\<lambda>n. if n \<in> A then False else sn_paused st n)\<rparr>)
           in send_agent answer (remember i st))"

definition handle_pause :: "('k, 'd) agent_env \<Rightarrow> set_paused_msg \<Rightarrow> 'k session_state \<Rightarrow> session_error option \<times> 'k session_state" where
  "handle_pause env m st =
     (let i = sd_command_id m; answer = ack i (sd_run_id m) ''pause'' True []
      in if command_seen (sn_memory st) i then send_agent answer st
         else
           let st = (case ae_parse_uuid env (sd_run_id m) of
                 None \<Rightarrow> st
               | Some run_id \<Rightarrow>
                   let A = addressed (sn_active st) run_id (sd_endpoint_role m)
                   in st\<lparr>sn_paused := (\<lambda>n. if n \<in> A \<and> sn_running st n then sd_paused m else sn_paused st n)\<rparr>)
           in send_agent answer (remember i st))"

section \<open>Preflight\<close>

definition has_address :: "(string \<Rightarrow> ip_addr option) \<Rightarrow> ip_addr \<Rightarrow> node_inventory \<Rightarrow> bool" where
  "has_address parse ip nv \<longleftrightarrow>
     list_ex (\<lambda>i. list_ex (\<lambda>a. parse (address_host a) = Some ip) (ii_addresses i)) (ni_interfaces nv)"

definition preflight_endpoint :: "('k, 'd) agent_env \<Rightarrow> nat \<Rightarrow> string \<Rightarrow> role \<Rightarrow> preflight_error option" where
  "preflight_endpoint env tick json role =
     (case ae_parse_scenario env json of
        None \<Rightarrow> Some PreflightJson
      | Some s \<Rightarrow>
          (case scenario_validate s of
             Inl e \<Rightarrow> Some (PreflightScenario e)
           | Inr _ \<Rightarrow>
               (case sc_path s of
                  ManagedDirect _ _ \<Rightarrow> None
                | ExplicitProxy _ client_ip _ server_ip port proxy \<Rightarrow>
                    let expected = (case role of ClientRole \<Rightarrow> client_ip | ServerRole \<Rightarrow> server_ip)
                    in case ae_inventory env tick of
                         None \<Rightarrow> Some PreflightInventory
                       | Some nv \<Rightarrow>
                           if \<not> has_address (ae_parse_ip env) expected nv then Some (AddressNotAssigned role expected)
                           else (case role of
                             ClientRole \<Rightarrow>
                               if ae_proxy env proxy client_ip (to_connect_ms (sc_timeouts s)) then None else Some ProxyUnreachable
                           | ServerRole \<Rightarrow> if ae_bind env server_ip port then None else Some (CannotBind server_ip port)))))"

definition handle_preflight :: "('k, 'd) agent_env \<Rightarrow> preflight_run \<Rightarrow> 'k session_state \<Rightarrow> session_error option \<times> 'k session_state" where
  "handle_preflight env m st =
     (let i = pf_command_id m
      in if command_seen (sn_memory st) i then send_agent (ack i [] ''preflight'' True []) st
         else case role_from_proto (pf_endpoint_role m) of
           None \<Rightarrow> (Some InvalidRole, st)
         | Some role \<Rightarrow>
             let st' = st\<lparr>sn_tick := Suc (sn_tick st)\<rparr>
             in case preflight_endpoint env (sn_tick st) (pf_scenario_json m) role of
                  None \<Rightarrow> send_agent (ack i [] ''preflight'' True []) (remember i st')
                | Some e \<Rightarrow> send_agent (ack i [] ''preflight'' False (ae_preflight_text env e)) st')"

section \<open>Artifacts and network commands\<close>

definition handle_chunk :: "('k, 'd) agent_env \<Rightarrow> artifact_chunk \<Rightarrow> 'k session_state \<Rightarrow> session_error option \<times> 'k session_state" where
  "handle_chunk env c st =
     (let (e, store) = accept_chunk (ae_parse_uuid env) (ae_sha256 env) c (sn_store st)
      in (map_option ChunkRefused e, st\<lparr>sn_store := store\<rparr>))"

text \<open>An error of the first kind ends the session; the outcome of an action is reported.\<close>

type_synonym net_result = "string \<times> network_plan option \<times> net_error option"

definition network_plan_action :: "('k, 'd) agent_env \<Rightarrow> nat \<Rightarrow> string \<Rightarrow> wire_draft option \<Rightarrow> session_error + net_result" where
  "network_plan_action env tick revision draft =
     bind_res (ok_or NetworkDraftAbsent draft) (\<lambda>v.
     bind_res (map_err NetworkDraftRefused (network_draft_from_wire (ae_parse_uuid env) v)) (\<lambda>d.
     bind_res (ok_or NetworkInventoryFailed (ae_inventory env tick)) (\<lambda>nv.
       Inr (case network_plan_for (ae_node_id env) revision d nv of
              Inl e \<Rightarrow> (''plan'', None, Some (PlanRejected e)) | Inr p \<Rightarrow> (''plan'', Some p, None)))))"

definition network_stage_action :: "('k, 'd) agent_env \<Rightarrow> network_command \<Rightarrow> network_plan \<Rightarrow> 'k session_state \<Rightarrow> net_result \<times> 'k session_state" where
  "network_stage_action env c plan st =
     (let (e, h) = network_apply (ae_system env) (map_option ni_fingerprint (ae_inventory env (sn_tick st)))
            (nc_operation_id c) plan (of_int (nc_lease_expires_unix_ms c)) (sn_host st);
          st = st\<lparr>sn_host := h, sn_tick := Suc (sn_tick st)\<rparr>
      in ((''stage'', None, map_option ApplyRejected e),
          if e = None then st\<lparr>sn_leases := sn_leases st @ [(nc_operation_id c, nc_lease_expires_unix_ms c)]\<rparr> else st))"

definition network_host_action :: "string \<Rightarrow> ('k host \<Rightarrow> apply_error option \<times> 'k host) \<Rightarrow> 'k session_state \<Rightarrow> net_result \<times> 'k session_state" where
  "network_host_action stage f st =
     (let (e, h) = f (sn_host st) in ((stage, None, map_option ApplyRejected e), st\<lparr>sn_host := h\<rparr>))"

definition network_outcome :: "('k, 'd) agent_env \<Rightarrow> network_command \<Rightarrow> 'k session_state
    \<Rightarrow> (session_error + net_result) \<times> 'k session_state" where
  "network_outcome env c st =
     (let ok = (\<lambda>(r, st). (Inr r, st)); sys = ae_system env
      in case nc_action c of
           Some (PlanAction revision draft) \<Rightarrow>
             (network_plan_action env (sn_tick st) revision draft, st\<lparr>sn_tick := Suc (sn_tick st)\<rparr>)
         | Some (StageAction plan) \<Rightarrow>
             (case plan of None \<Rightarrow> (Inl NetworkPlanAbsent, st) | Some p \<Rightarrow> ok (network_stage_action env c p st))
         | Some CommitAction \<Rightarrow> ok (network_host_action ''commit'' (network_commit sys) st)
         | Some RollbackAction \<Rightarrow> ok (network_host_action ''rollback'' (recover sys) st)
         | Some TeardownAction \<Rightarrow> ok (network_host_action ''teardown'' (recover sys) st)
         | Some ReconcileAction \<Rightarrow> ok (network_host_action ''reconcile'' (recover sys) st)
         | None \<Rightarrow> (Inr (''unknown'', None, Some ActionRequired), st))"

definition handle_network :: "('k, 'd) agent_env \<Rightarrow> network_command \<Rightarrow> 'k session_state \<Rightarrow> session_error option \<times> 'k session_state" where
  "handle_network env c st =
     (case network_outcome env c st of
        (Inl e, st) \<Rightarrow> (Some e, st)
      | (Inr (stage, plan, err), st) \<Rightarrow>
          let ok = (err = None); text = (case err of None \<Rightarrow> [] | Some e \<Rightarrow> ae_net_text env e)
          in case send_agent (NetworkProgress \<lparr>ng_command_id = nc_command_id c, ng_operation_id = nc_operation_id c,
                 ng_stage = stage, ng_ok = ok, ng_plan = plan, ng_error = text\<rparr>) st of
               (Some e, st) \<Rightarrow> (Some e, st)
             | (None, st) \<Rightarrow> send_agent (ack (nc_command_id c) [] stage ok text) st)"

section \<open>The session\<close>

definition handle_command :: "('k, 'd) agent_env \<Rightarrow> control_message \<Rightarrow> 'k session_state \<Rightarrow> session_error option \<times> 'k session_state" where
  "handle_command env m st =
     (case m of
        Prepare p \<Rightarrow> handle_prepare env p st
      | Preflight p \<Rightarrow> handle_preflight env p st
      | Chunk c \<Rightarrow> handle_chunk env c st
      | Start s \<Rightarrow> handle_start s st
      | Stop s \<Rightarrow> handle_stop env s st
      | SetPaused s \<Rightarrow> handle_pause env s st
      | Network c \<Rightarrow> handle_network env c st)"

fun handle_commands :: "('k, 'd) agent_env \<Rightarrow> control_message list \<Rightarrow> 'k session_state \<Rightarrow> session_error option \<times> 'k session_state" where
  "handle_commands env [] st = (None, st)"
| "handle_commands env (m # ms) st =
     (case handle_command env m st of (Some e, st) \<Rightarrow> (Some e, st) | (None, st) \<Rightarrow> handle_commands env ms st)"

text \<open>
  A new connection: what the session holds in its local variables is lost, while the workers of
  the previous session go on with their flags.
\<close>

definition new_session :: "'k session_state \<Rightarrow> 'k session_state" where
  "new_session st =
     st\<lparr>sn_open := True, sn_store := reconnect (sn_store st), sn_prepared := Map.empty, sn_active := Map.empty,
        sn_memory := \<lparr>cm_completed = [], cm_order = []\<rparr>, sn_sent := [StatusMsg []]\<rparr>"

text \<open>
  A worker clears its flag when its run is over, and some time later, or at once when it could not
  begin, reports its completion or its error and is gone.
\<close>

definition worker_event :: "('k, 'd) agent_env \<Rightarrow> worker \<Rightarrow> string option \<Rightarrow> agent_message" where
  "worker_event env wk err =
     EventMsg \<lparr>ev_run_id = ae_show_uuid env (pd_run_id (wk_job wk)),
       ev_level = (case err of None \<Rightarrow> ''info'' | Some e \<Rightarrow> ''error''),
       ev_message = (case err of None \<Rightarrow> ''run_completed'' | Some e \<Rightarrow> e), ev_endpoint_role = role_proto (wk_role wk)\<rparr>"

definition worker_ends :: "('k, 'd) agent_env \<Rightarrow> worker \<Rightarrow> string option \<Rightarrow> 'k session_state \<Rightarrow> 'k session_state" where
  "worker_ends env wk err st =
     snd (send_agent (worker_event env wk err)
       (st\<lparr>sn_running := (sn_running st)(wk_number wk := False), sn_workers := remove1 wk (sn_workers st)\<rparr>))"

inductive session_step :: "('k, 'd) agent_env \<Rightarrow> 'k session_state \<Rightarrow> 'k session_state \<Rightarrow> bool" for env where
  Handle: "handle_command env m st = (None, st') \<Longrightarrow> session_step env st st'"
| Worker_Stops: "wk \<in> set (sn_workers st) \<Longrightarrow>
    session_step env st (st\<lparr>sn_running := (sn_running st)(wk_number wk := False)\<rparr>)"
| Worker_Ends: "wk \<in> set (sn_workers st) \<Longrightarrow> session_step env st (worker_ends env wk err st)"
| Lease_Fires: "(operation, expires) \<in> set (sn_leases st) \<Longrightarrow>
    session_step env st (st\<lparr>sn_host := enforce_lease (ae_system env) operation (sn_host st)\<rparr>)"
| Close: "session_step env st (st\<lparr>sn_open := False\<rparr>)"

inductive_cases session_stepE: "session_step env st st'"

inductive session_reachable :: "('k, 'd) agent_env \<Rightarrow> 'k session_state \<Rightarrow> 'k session_state \<Rightarrow> bool" for env st where
  start: "session_reachable env st st"
| step: "session_reachable env st st1 \<Longrightarrow> session_step env st1 st2 \<Longrightarrow> session_reachable env st st2"

end
