(* ===== verification/Agent_Session_Facts.thy ===== *)
theory Agent_Session_Facts
  imports Agent_Session
begin

text \<open>
  What a session of an agent guarantees: a command delivered again is acknowledged and not carried
  out again, one run at a time is worked on with one worker for each role, and a stop stops it.
\<close>

section \<open>A memory of the recent commands\<close>

text \<open>
  The interface: the identifiers remembered, in order. A new one is appended, and the oldest goes
  when there are more than the limit.
\<close>

locale recent_memory =
  fixes recent :: "'m \<Rightarrow> 'i list" and blank :: 'm and store :: "'i \<Rightarrow> 'm \<Rightarrow> 'm" and known :: "'m \<Rightarrow> 'i \<Rightarrow> bool"
    and valid :: "'m \<Rightarrow> bool" and idle :: "'i \<Rightarrow> bool" and limit :: nat
  assumes limit_pos: "0 < limit" and valid_blank: "valid blank" and recent_blank: "recent blank = []"
    and valid_store: "valid m \<Longrightarrow> valid (store i m)"
    and recent_store: "valid m \<Longrightarrow> length (recent m) \<le> limit \<Longrightarrow> recent (store i m) =
      (if idle i \<or> i \<in> set (recent m) then recent m
       else drop (length (recent m) + 1 - limit) (recent m @ [i]))"
    and known_recent: "valid m \<Longrightarrow> known m i \<longleftrightarrow> \<not> idle i \<and> i \<in> set (recent m)"
begin

definition good :: "'m \<Rightarrow> bool" where
  "good m \<longleftrightarrow> valid m \<and> distinct (recent m) \<and> length (recent m) \<le> limit \<and> (\<forall>i\<in>set (recent m). \<not> idle i)"

lemma good_blank: "good blank" by (simp add: good_def valid_blank recent_blank)

lemma set_drop_subset: "x \<in> set (drop n xs) \<Longrightarrow> x \<in> set xs"
  by (meson in_set_dropD)

lemma good_store:
  assumes "good m"
  shows "good (store i m)"
proof (cases "idle i \<or> i \<in> set (recent m)")
  case True
  then show ?thesis using assms by (simp add: good_def valid_store recent_store)
next
  case False
  then have r: "recent (store i m) = drop (length (recent m) + 1 - limit) (recent m @ [i])"
    using assms by (simp add: good_def recent_store)
  have "distinct (recent m @ [i])" using assms False by (simp add: good_def)
  then have "distinct (recent (store i m))" unfolding r by (rule distinct_drop)
  moreover have "length (recent (store i m)) \<le> limit" unfolding r by simp
  moreover have "\<forall>j\<in>set (recent (store i m)). \<not> idle j"
  proof
    fix j assume "j \<in> set (recent (store i m))"
    then have "j \<in> set (recent m @ [i])" unfolding r by (rule set_drop_subset)
    then show "\<not> idle j" using assms False by (auto simp: good_def)
  qed
  ultimately show ?thesis using assms by (simp add: good_def valid_store)
qed

text \<open>What was remembered last but for fewer than the limit is still known.\<close>

lemma known_store: "good m \<Longrightarrow> \<not> idle i \<Longrightarrow> known (store i m) i"
proof -
  assume m: "good m" and i: "\<not> idle i"
  have "i \<in> set (recent (store i m))"
  proof (cases "i \<in> set (recent m)")
    case True
    then show ?thesis using m by (simp add: good_def recent_store)
  next
    case False
    have "length (recent m) + 1 - limit \<le> length (recent m)" using limit_pos by simp
    then show ?thesis using m i False by (simp add: good_def recent_store)
  qed
  then show "known (store i m) i" using m i by (simp add: good_def known_recent valid_store)
qed

fun store_all :: "'i list \<Rightarrow> 'm \<Rightarrow> 'm" where
  "store_all [] m = m"
| "store_all (i # is) m = store_all is (store i m)"

lemma good_store_all: "good m \<Longrightarrow> good (store_all is m)"
  by (induction "is" arbitrary: m) (simp_all add: good_store)

lemma kept_in_suffix:
  assumes "good m" and "recent m = xs @ i # ys" and "length ys + length is < limit"
  shows "i \<in> set (recent (store_all is m))"
  using assms
proof (induction "is" arbitrary: m xs ys)
  case Nil
  then show ?case by simp
next
  case (Cons j js)
  show ?case
  proof (cases "idle j \<or> j \<in> set (recent m)")
    case True
    then have "recent (store j m) = xs @ i # ys" using Cons.prems by (simp add: good_def recent_store)
    then show ?thesis using Cons.IH [OF good_store [OF Cons.prems(1)]] Cons.prems(3) by simp
  next
    case False
    let ?n = "length (recent m) + 1 - limit"
    have r: "recent (store j m) = drop ?n (recent m @ [j])" using Cons.prems(1) False by (simp add: good_def recent_store)
    have "?n \<le> length xs" using Cons.prems(2,3) by simp
    then have "recent (store j m) = drop ?n xs @ i # (ys @ [j])" unfolding r Cons.prems(2) by simp
    then show ?thesis using Cons.IH [OF good_store [OF Cons.prems(1)], where xs = "drop ?n xs" and ys = "ys @ [j]"] Cons.prems(3) by simp
  qed
qed

lemma known_until_limit:
  assumes "good m" and "\<not> idle i" and "i \<notin> set (recent m)" and "length is < limit"
  shows "known (store_all is (store i m)) i"
proof -
  let ?n = "length (recent m) + 1 - limit"
  have "?n \<le> length (recent m)" using limit_pos by simp
  then have "recent (store i m) = drop ?n (recent m) @ i # []" using assms by (simp add: good_def recent_store)
  from kept_in_suffix [OF good_store [OF assms(1)] this] assms(4)
  have "i \<in> set (recent (store_all is (store i m)))" by simp
  then show ?thesis using good_store_all [OF good_store [OF assms(1)]] assms(2) by (simp add: good_def known_recent)
qed

end

definition blank_memory :: command_memory where "blank_memory = \<lparr>cm_completed = [], cm_order = []\<rparr>"

definition memory_ok :: "command_memory \<Rightarrow> bool" where
  "memory_ok m \<longleftrightarrow> set (cm_completed m) = set (cm_order m) \<and> distinct (cm_order m)"

interpretation memory: recent_memory cm_order blank_memory remember_command command_seen memory_ok "(=) []" 256
proof
  show "memory_ok (remember_command i m)" if "memory_ok m" for m i
  proof (cases "256 < length (cm_order m @ [i])")
    case True
    then obtain x xs where x: "cm_order m = x # xs" by (cases "cm_order m") auto
    show ?thesis using that True x by (auto simp: memory_ok_def remember_command_def Let_def)
  next
    case False
    then show ?thesis using that by (auto simp: memory_ok_def remember_command_def Let_def)
  qed
next
  show "cm_order (remember_command i m) = (if [] = i \<or> i \<in> set (cm_order m) then cm_order m
       else drop (length (cm_order m) + 1 - 256) (cm_order m @ [i]))"
    if "memory_ok m" "length (cm_order m) \<le> 256" for m i
  proof (cases "256 < length (cm_order m @ [i])")
    case True
    then have n: "length (cm_order m) + 1 - 256 = 1" using that(2) by simp
    obtain x xs where "cm_order m = x # xs" using True by (cases "cm_order m") auto
    then show ?thesis using that(1) True n by (auto simp: memory_ok_def remember_command_def Let_def)
  next
    case False
    then show ?thesis using that by (auto simp: memory_ok_def remember_command_def Let_def)
  qed
qed (auto simp: blank_memory_def memory_ok_def command_seen_def)

section \<open>What the handlers change\<close>

lemma send_agent_cases:
  assumes "send_agent m st = (e, st')"
  obtains (sent) "e = None" "sn_open st" "st' = st\<lparr>sn_sent := sn_sent st @ [m]\<rparr>" | (lost) "e = Some StreamClosed" "st' = st"
  using assms by (auto simp: send_agent_def split: if_splits)

text \<open>The part of a session that workers depend on, and the memory.\<close>

definition same_workers :: "'k session_state \<Rightarrow> 'k session_state \<Rightarrow> bool" where
  "same_workers st st' \<longleftrightarrow> sn_active st' = sn_active st \<and> sn_running st' = sn_running st
     \<and> sn_workers st' = sn_workers st \<and> sn_next st' = sn_next st"

definition remembers :: "'k session_state \<Rightarrow> 'k session_state \<Rightarrow> bool" where
  "remembers st st' \<longleftrightarrow> sn_memory st' = sn_memory st \<or> (\<exists>i. sn_memory st' = remember_command i (sn_memory st))"

lemma send_agent_same [simp]:
  "same_workers st (snd (send_agent m st')) \<longleftrightarrow> same_workers st st'"
  "sn_memory (snd (send_agent m st)) = sn_memory st"
  by (simp_all add: send_agent_def same_workers_def)

lemma send_agent_fields:
  assumes "send_agent m st = (e, st')"
  shows "sn_active st' = sn_active st" "sn_running st' = sn_running st" "sn_workers st' = sn_workers st"
    "sn_next st' = sn_next st" "sn_memory st' = sn_memory st" "sn_prepared st' = sn_prepared st"
    "sn_store st' = sn_store st" "sn_open st' = sn_open st"
  using assms by (auto simp: send_agent_def split: if_splits)

lemmas handler_simps = handle_prepare_def handle_preflight_def handle_chunk_def handle_start_def handle_stop_def
  handle_pause_def remember_def Let_def

lemma network_outcome_same:
  assumes "network_outcome env c st = (r, st')"
  shows "same_workers st st' \<and> sn_memory st' = sn_memory st"
proof -
  have stage: "same_workers st (snd (network_stage_action env c p st)) \<and> sn_memory (snd (network_stage_action env c p st)) = sn_memory st" for p
    by (simp add: network_stage_action_def Let_def same_workers_def split_beta)
  have host: "same_workers st (snd (network_host_action s f st)) \<and> sn_memory (snd (network_host_action s f st)) = sn_memory st" for s f
    by (simp add: network_host_action_def same_workers_def split_beta)
  have refl: "same_workers st st" "same_workers st (st\<lparr>sn_tick := n\<rparr>)" for n by (simp_all add: same_workers_def)
  have st': "st' = snd (network_outcome env c st)" using assms by simp
  show ?thesis
  proof (cases "nc_action c")
    case None
    then show ?thesis unfolding st' using refl by (simp add: network_outcome_def Let_def)
  next
    case (Some a)
    then show ?thesis unfolding st' using refl stage host
      by (cases a) (simp_all add: network_outcome_def Let_def split_beta split: option.split)
  qed
qed

lemma handle_network_same:
  assumes "handle_network env c st = (e, st')"
  shows "same_workers st st' \<and> sn_memory st' = sn_memory st"
proof -
  obtain r st1 where n: "network_outcome env c st = (r, st1)" by (cases "network_outcome env c st")
  note o = network_outcome_same [OF n]
  show ?thesis
  proof (cases r)
    case (Inl x)
    then show ?thesis using assms n o by (simp add: handle_network_def)
  next
    case (Inr x)
    obtain stage plan err where x: "x = (stage, plan, err)" by (cases x)
    let ?ok = "err = None" and ?text = "case err of None \<Rightarrow> [] | Some e \<Rightarrow> ae_net_text env e"
    let ?m = "NetworkProgress \<lparr>ng_command_id = nc_command_id c, ng_operation_id = nc_operation_id c,
                 ng_stage = stage, ng_ok = ?ok, ng_plan = plan, ng_error = ?text\<rparr>"
    obtain e2 st2 where s: "send_agent ?m st1 = (e2, st2)" by (cases "send_agent ?m st1")
    have s2: "same_workers st st2" "sn_memory st2 = sn_memory st"
      using o send_agent_fields [OF s] by (simp_all add: same_workers_def)
    show ?thesis
    proof (cases e2)
      case None
      then have "send_agent (ack (nc_command_id c) [] stage ?ok ?text) st2 = (e, st')"
        using assms n Inr x s by (simp add: handle_network_def Let_def)
      from send_agent_fields [OF this] s2 show ?thesis by (simp add: same_workers_def)
    next
      case (Some y)
      then show ?thesis using assms n Inr x s s2 by (simp add: handle_network_def Let_def)
    qed
  qed
qed

lemma handle_command_remembers:
  assumes "handle_command env m st = (e, st')"
  shows "remembers st st'"
proof -
  have sent: "remembers st st2" if "send_agent a st1 = (e, st2)"
    "sn_memory st1 = sn_memory st \<or> (\<exists>i. sn_memory st1 = remember_command i (sn_memory st))" for a st1 st2 e
    using that send_agent_fields(5) [OF that(1)] by (simp add: remembers_def)
  have refl: "remembers st st" by (simp add: remembers_def)
  show ?thesis
  proof (cases m)
    case (Network c)
    then show ?thesis using assms handle_network_same [of env c st e st'] by (simp add: handle_command_def remembers_def)
  next
    case (Prepare p)
    then show ?thesis using assms refl
      by (auto simp: handle_command_def handler_simps split: option.splits if_splits sum.splits elim!: sent)
  next
    case (Preflight p)
    then show ?thesis using assms refl
      by (auto simp: handle_command_def handler_simps split: option.splits if_splits elim!: sent)
  next
    case (Start s)
    then show ?thesis using assms refl
      by (auto simp: handle_command_def handler_simps start_worker_def remembers_def split: option.splits if_splits elim!: sent [unfolded remembers_def])
  next
    case (Stop s)
    then show ?thesis using assms refl
      by (auto simp: handle_command_def handler_simps split: option.splits if_splits elim!: sent)
  next
    case (SetPaused s)
    then show ?thesis using assms refl
      by (auto simp: handle_command_def handler_simps split: option.splits if_splits elim!: sent)
  next
    case (Chunk c)
    then show ?thesis using assms by (auto simp: handle_command_def handler_simps remembers_def split: prod.splits)
  qed
qed

section \<open>Commands delivered again\<close>

fun acknowledgement :: "control_message \<Rightarrow> (string \<times> agent_message) option" where
  "acknowledgement (Prepare p) = Some (pr_command_id p, ack (pr_command_id p) (pr_run_id p) ''prepare'' True [])"
| "acknowledgement (Preflight p) = Some (pf_command_id p, ack (pf_command_id p) [] ''preflight'' True [])"
| "acknowledgement (Start s) = Some (st_command_id s, ack (st_command_id s) (st_run_id s) ''start'' True [])"
| "acknowledgement (Stop s) = Some (sp_command_id s, ack (sp_command_id s) (sp_run_id s) ''stop'' True [])"
| "acknowledgement (SetPaused s) = Some (sd_command_id s, ack (sd_command_id s) (sd_run_id s) ''pause'' True [])"
| "acknowledgement (Chunk c) = None"
| "acknowledgement (Network c) = None"

fun role_ok :: "control_message \<Rightarrow> bool" where
  "role_ok (Prepare p) = (role_from_proto (pr_endpoint_role p) \<noteq> None)"
| "role_ok (Start s) = (role_from_proto (st_endpoint_role s) \<noteq> None)"
| "role_ok m = True"

lemma seen_command:
  assumes "acknowledgement m = Some (i, a)" and "command_seen (sn_memory st) i" and "role_ok m"
  shows "handle_command env m st = send_agent a st"
  using assms by (cases m) (auto simp: handle_command_def handler_simps)

text \<open>A command that is remembered was valid and new, and the memory has its identifier.\<close>

definition carried_out :: "control_message \<Rightarrow> 'k session_state \<Rightarrow> 'k session_state \<Rightarrow> bool" where
  "carried_out m st st' \<longleftrightarrow> sn_memory st' \<noteq> sn_memory st"

lemma carried_out_remembered:
  assumes "handle_command env m st = (e, st')" and "carried_out m st st'"
  shows "\<exists>i a. acknowledgement m = Some (i, a) \<and> role_ok m \<and> sn_memory st' = remember_command i (sn_memory st)"
proof -
  have sent: "sn_memory st2 = sn_memory st1" if "send_agent b st1 = (e2, st2)" for b e2 st1 st2
    by (rule send_agent_fields(5) [OF that])
  show ?thesis
  proof (cases m)
    case (Network c)
    then show ?thesis using assms handle_network_same [of env c st e st'] by (simp add: handle_command_def carried_out_def)
  next
    case (Chunk c)
    then show ?thesis using assms by (auto simp: handle_command_def handler_simps carried_out_def split: prod.splits)
  next
    case (Prepare p)
    then show ?thesis using assms
      by (auto simp: handle_command_def handler_simps carried_out_def split: option.splits if_splits sum.splits dest!: sent)
  next
    case (Preflight p)
    then show ?thesis using assms
      by (auto simp: handle_command_def handler_simps carried_out_def split: option.splits if_splits dest!: sent)
  next
    case (Start s)
    then show ?thesis using assms
      by (auto simp: handle_command_def handler_simps carried_out_def start_worker_def split: option.splits if_splits dest!: sent)
  next
    case (Stop s)
    then show ?thesis using assms
      by (auto simp: handle_command_def handler_simps carried_out_def split: option.splits if_splits dest!: sent)
  next
    case (SetPaused s)
    then show ?thesis using assms
      by (auto simp: handle_command_def handler_simps carried_out_def split: option.splits if_splits dest!: sent)
  qed
qed

lemma handle_commands_memory:
  "handle_commands env ms st = (e, st') \<Longrightarrow>
     \<exists>is. length is \<le> length ms \<and> sn_memory st' = memory.store_all is (sn_memory st)"
proof (induction ms arbitrary: st)
  case Nil
  then show ?case by (intro exI [of _ "[]"]) simp
next
  case (Cons m ms)
  obtain e1 st1 where h: "handle_command env m st = (e1, st1)" by (cases "handle_command env m st")
  have one: "\<exists>is. length is \<le> 1 \<and> sn_memory st1 = memory.store_all is (sn_memory st)"
    using handle_command_remembers [OF h] unfolding remembers_def
  proof (elim disjE exE)
    assume "sn_memory st1 = sn_memory st"
    then show ?thesis by (intro exI [of _ "[]"]) simp
  next
    fix i assume "sn_memory st1 = remember_command i (sn_memory st)"
    then show ?thesis by (intro exI [of _ "[i]"]) simp
  qed
  show ?case
  proof (cases e1)
    case (Some x)
    then have "st' = st1" using Cons.prems h by simp
    moreover obtain "is" where "length is \<le> 1" "sn_memory st1 = memory.store_all is (sn_memory st)" using one by blast
    ultimately show ?thesis by (intro exI [of _ "is"]) simp
  next
    case None
    then have "handle_commands env ms st1 = (e, st')" using Cons.prems h by simp
    from Cons.IH [OF this] obtain js where js: "length js \<le> length ms" "sn_memory st' = memory.store_all js (sn_memory st1)" by blast
    obtain "is" where "is": "length is \<le> 1" "sn_memory st1 = memory.store_all is (sn_memory st)" using one by blast
    have "memory.store_all js (memory.store_all is m) = memory.store_all (is @ js) m" for m
      by (induction "is" arbitrary: m) simp_all
    then show ?thesis using js "is" by (intro exI [of _ "is @ js"]) simp
  qed
qed

text \<open>
  A command is carried out once. When an agent has carried out a command, the same message
  delivered again, after any number of other messages below the 256 commands that it remembers, is
  acknowledged as a success and changes nothing else, whatever the command was.
\<close>

theorem redelivered_command_only_acknowledged:
  assumes "memory.good (sn_memory st)" and "handle_command env m st = (None, st1)" and "carried_out m st st1"
    and "handle_commands env ms st1 = (None, st2)" and "length ms < 256"
  shows "\<exists>i a. acknowledgement m = Some (i, a) \<and> handle_command env m st2 = send_agent a st2"
proof -
  from carried_out_remembered [OF assms(2,3)] obtain i a where
    i: "acknowledgement m = Some (i, a)" "role_ok m" "sn_memory st1 = remember_command i (sn_memory st)" by blast
  have new: "[] \<noteq> i" "i \<notin> set (cm_order (sn_memory st))"
    using assms(1,3) i(3) by (auto simp: carried_out_def remember_command_def memory.good_def memory_ok_def split: if_splits)
  obtain "is" where "is": "length is \<le> length ms" "sn_memory st2 = memory.store_all is (sn_memory st1)"
    using handle_commands_memory [OF assms(4)] by blast
  have "command_seen (sn_memory st2) i"
    unfolding "is"(2) i(3) by (rule memory.known_until_limit [OF assms(1) new(1,2)]) (use "is"(1) assms(5) in simp)
  from seen_command [OF i(1) this i(2)] i(1) show ?thesis by blast
qed

definition example_env :: "(unit, unit) agent_env" where
  "example_env =
     \<lparr>ae_node_id = ''n'', ae_parse_uuid = (\<lambda>t. if t = ''1'' then Some 1 else None),
      ae_show_uuid = (\<lambda>u. if u = 1 then ''1'' else []), ae_sha256 = (\<lambda>b. []),
      ae_parse_scenario = (\<lambda>t. Some ((scenario_default 3 4)\<lparr>sc_path := ExplicitProxy ''n'' (V4 0) ''n'' (V4 0) 80 ''p:1''\<rparr>)),
      ae_parse_ip = (\<lambda>t. None), ae_random = (\<lambda>n b k. []), ae_decode = (\<lambda>d b. None), ae_decoder = (),
      ae_inventory = (\<lambda>n. None), ae_system = example_system, ae_proxy = (\<lambda>a i t. True), ae_bind = (\<lambda>i p. True),
      ae_net_text = (\<lambda>e. []), ae_preflight_text = (\<lambda>e. [])\<rparr>"

definition fresh_session :: "unit session_state" where
  "fresh_session =
     \<lparr>sn_open = True, sn_store = empty_store, sn_prepared = Map.empty, sn_active = Map.empty,
      sn_running = (\<lambda>n. False), sn_paused = (\<lambda>n. False), sn_workers = [], sn_next = 0,
      sn_memory = blank_memory, sn_host = example_host, sn_leases = [], sn_sent = [], sn_tick = 0\<rparr>"

theorem redelivered_command_only_acknowledged_witness:
  "\<exists>a (st :: unit session_state). command_seen (sn_memory st) ''c'' \<and> handle_command example_env
     (Stop \<lparr>sp_run_id = ''1'', sp_command_id = ''c'', sp_endpoint_role = 0\<rparr>) st = send_agent a st"
proof -
  let ?m = "Stop \<lparr>sp_run_id = ''1'', sp_command_id = ''c'', sp_endpoint_role = 0\<rparr>"
  obtain st where st: "handle_command example_env ?m fresh_session = (None, st)" "carried_out ?m fresh_session st"
    "command_seen (sn_memory st) ''c''"
    by (simp add: handle_command_def handler_simps send_agent_def example_env_def fresh_session_def blank_memory_def
        remember_command_def command_seen_def carried_out_def)
  have "memory.good (sn_memory fresh_session)" using memory.good_blank by (simp add: fresh_session_def)
  from redelivered_command_only_acknowledged [OF this st(1,2), of "[]" st] st(3) show ?thesis by auto
qed

section \<open>Workers\<close>

text \<open>
  Every worker that runs is the one its role's entry of the table stands for, and all running
  entries are of one run.
\<close>

definition entries_agree :: "'k session_state \<Rightarrow> bool" where
  "entries_agree st \<longleftrightarrow>
     dom (sn_active st) \<subseteq> {1, 2}
   \<and> (\<forall>n. sn_running st n \<longrightarrow> n < sn_next st)
   \<and> (\<forall>r i n. sn_active st r = Some (i, n) \<longrightarrow> n < sn_next st)
   \<and> (\<forall>r r' i i' n n'. sn_active st r = Some (i, n) \<and> sn_running st n
        \<and> sn_active st r' = Some (i', n') \<and> sn_running st n' \<longrightarrow> i = i')"

definition workers_agree :: "'k session_state \<Rightarrow> bool" where
  "workers_agree st \<longleftrightarrow>
     distinct (map wk_number (sn_workers st))
   \<and> (\<forall>wk\<in>set (sn_workers st). wk_number wk < sn_next st
        \<and> (sn_running st (wk_number wk) \<longrightarrow>
             sn_active st (role_proto (wk_role wk)) = Some (pd_run_id (wk_job wk), wk_number wk)))"

definition session_inv :: "'k session_state \<Rightarrow> bool" where
  "session_inv st \<longleftrightarrow> entries_agree st \<and> workers_agree st"

lemma session_inv_same: "same_workers st st' \<Longrightarrow> session_inv st \<Longrightarrow> session_inv st'"
  by (simp add: session_inv_def entries_agree_def workers_agree_def same_workers_def)

text \<open>Flags that are only cleared, and workers that only go, keep the invariant.\<close>

lemma session_inv_less:
  assumes "session_inv st" and "sn_active st' = sn_active st" and "sn_next st' = sn_next st"
    and "\<And>n. sn_running st' n \<Longrightarrow> sn_running st n"
    and "set (sn_workers st') \<subseteq> set (sn_workers st)" and "distinct (map wk_number (sn_workers st'))"
  shows "session_inv st'"
proof -
  have "entries_agree st'"
    using assms(1-4) unfolding session_inv_def entries_agree_def by metis
  moreover have "workers_agree st'"
    using assms unfolding session_inv_def workers_agree_def by (metis subsetD)
  ultimately show ?thesis by (simp add: session_inv_def)
qed

lemma role_from_proto_Some: "role_from_proto r = Some role \<Longrightarrow> r = role_proto role \<and> r \<in> {1, 2}"
  by (auto simp: role_from_proto_def split: if_splits)

lemma start_worker_inv:
  assumes inv: "session_inv st" and role: "role_from_proto r = Some role"
    and free: "\<not> active_run_conflicts (sn_active st) (sn_running st) r (pd_run_id job)"
  shows "session_inv (start_worker r role job ms st)"
proof -
  let ?n = "sn_next st" and ?st = "start_worker r role job ms st"
  have e: "entries_agree st" and w: "workers_agree st" using inv by (simp_all add: session_inv_def)
  have dom: "dom (sn_active st) \<subseteq> {1, 2}" using e by (simp add: entries_agree_def)
  have others: "i = pd_run_id job \<and> r' \<noteq> r" if "sn_active st r' = Some (i, n)" "sn_running st n" for r' i n
  proof -
    have "r' \<in> {1, 2}" using dom that(1) by blast
    then show ?thesis using free that by (auto simp: active_run_conflicts_def)
  qed
  have fresh: "n < ?n" if "sn_active st r' = Some (i, n)" for r' i n
    using e that by (auto simp: entries_agree_def)
  have run: "sn_running ?st n \<longleftrightarrow> n = ?n \<or> sn_running st n" for n by (simp add: start_worker_def Let_def)
  have act: "sn_active ?st r' = (if r' = r then Some (pd_run_id job, ?n) else sn_active st r')" for r'
    by (simp add: start_worker_def Let_def)
  have nxt: "sn_next ?st = Suc ?n" by (simp add: start_worker_def Let_def)
  have "entries_agree ?st"
    unfolding entries_agree_def
  proof (intro conjI allI impI)
    have "dom (sn_active ?st) = insert r (dom (sn_active st))" by (auto simp: act dom_def)
    moreover have "r \<in> {1, 2}" using role_from_proto_Some [OF role] by (rule conjunct2)
    ultimately show "dom (sn_active ?st) \<subseteq> {1, 2}" using dom by (simp only: insert_subset simp_thms)
  next
    fix n assume "sn_running ?st n"
    then show "n < sn_next ?st" using e by (auto simp: run nxt entries_agree_def less_Suc_eq)
  next
    fix r' i n assume "sn_active ?st r' = Some (i, n)"
    then show "n < sn_next ?st" using fresh by (auto simp: act nxt less_Suc_eq split: if_splits)
  next
    fix r1 r2 i1 i2 n1 n2
    assume a: "sn_active ?st r1 = Some (i1, n1) \<and> sn_running ?st n1 \<and> sn_active ?st r2 = Some (i2, n2) \<and> sn_running ?st n2"
    have "i = pd_run_id job" if "sn_active ?st r' = Some (i, n)" "sn_running ?st n" for r' i n
      using that others [of r' i n] fresh [of r' i n] by (auto simp: act run split: if_splits)
    then show "i1 = i2" using a by metis
  qed
  moreover have "workers_agree ?st"
    unfolding workers_agree_def
  proof (intro conjI ballI)
    have ws: "sn_workers ?st = sn_workers st @ [\<lparr>wk_number = ?n, wk_job = job, wk_role = role, wk_start_ms = ms\<rparr>]"
      by (simp add: start_worker_def Let_def)
    show "distinct (map wk_number (sn_workers ?st))" unfolding ws using w by (auto simp: workers_agree_def)
    fix wk assume wk: "wk \<in> set (sn_workers ?st)"
    then show "wk_number wk < sn_next ?st" unfolding ws nxt using w by (auto simp: workers_agree_def less_Suc_eq)
    show "sn_running ?st (wk_number wk) \<longrightarrow>
        sn_active ?st (role_proto (wk_role wk)) = Some (pd_run_id (wk_job wk), wk_number wk)"
    proof (cases "wk \<in> set (sn_workers st)")
      case True
      then have "wk_number wk < ?n" using w by (simp add: workers_agree_def)
      then show ?thesis
        using True w others [of "role_proto (wk_role wk)" "pd_run_id (wk_job wk)" "wk_number wk"]
        by (auto simp: run act workers_agree_def)
    next
      case False
      then have "wk = \<lparr>wk_number = ?n, wk_job = job, wk_role = role, wk_start_ms = ms\<rparr>" using wk unfolding ws by simp
      moreover have "sn_active ?st (role_proto role) = Some (pd_run_id job, ?n)"
        using role_from_proto_Some [OF role] unfolding act by simp
      ultimately show ?thesis by simp
    qed
  qed
  ultimately show ?thesis by (simp add: session_inv_def)
qed


lemma handle_command_inv:
  fixes st :: "'k session_state"
  assumes inv: "session_inv st" and h: "handle_command env m st = (e, st')"
  shows "session_inv st'"
proof -
  have sent: "session_inv st2" if "send_agent a st1 = (e2, st2)" "session_inv st1"
    for a e2 and st1 :: "'k session_state" and st2
    by (rule session_inv_same [OF _ that(2)])
      (use send_agent_fields [OF that(1)] in \<open>simp add: same_workers_def\<close>)
  have same: "session_inv st2" if "sn_active st2 = sn_active st" "sn_running st2 = sn_running st"
    "sn_workers st2 = sn_workers st" "sn_next st2 = sn_next st" for st2 :: "'k session_state"
    by (rule session_inv_same [OF _ inv]) (simp add: same_workers_def that)
  show ?thesis
  proof (cases m)
    case (Network c)
    then show ?thesis
      using handle_network_same [of env c st e st'] h inv session_inv_same [of st st'] by (simp add: handle_command_def)
  next
    case (Chunk c)
    then show ?thesis using h by (auto simp: handle_command_def handler_simps split: prod.splits intro!: same)
  next
    case (Prepare p)
    then show ?thesis using h inv
      by (auto simp: handle_command_def handler_simps split: option.splits if_splits sum.splits elim!: sent intro!: same)
  next
    case (Preflight p)
    then show ?thesis using h inv
      by (auto simp: handle_command_def handler_simps split: option.splits if_splits elim!: sent intro!: same)
  next
    case (SetPaused s)
    then show ?thesis using h inv
      by (auto simp: handle_command_def handler_simps split: option.splits if_splits elim!: sent intro!: same)
  next
    case (Stop s)
    have less: "session_inv st2" if "sn_active st2 = sn_active st" "sn_next st2 = sn_next st"
      "\<And>n. sn_running st2 n \<Longrightarrow> sn_running st n" "sn_workers st2 = sn_workers st"
      for st2 :: "'k session_state"
      using inv that by (intro session_inv_less [OF inv]) (simp_all add: session_inv_def workers_agree_def)
    show ?thesis using h inv Stop
      by (auto simp: handle_command_def handler_simps split: option.splits if_splits elim!: sent intro!: same less)
  next
    case (Start s)
    let ?r = "st_endpoint_role s"
    have started: "session_inv (remember i (start_worker ?r role job ms st))"
      if "role_from_proto ?r = Some role" "\<not> active_run_conflicts (sn_active st) (sn_running st) ?r (pd_run_id job)" for i role job ms
      by (rule session_inv_same [OF _ start_worker_inv [OF inv that]]) (simp add: same_workers_def remember_def)
    have fewer: "session_inv (remember i ((start_worker ?r role job ms st)\<lparr>sn_workers := sn_workers st\<rparr>))"
      if "role_from_proto ?r = Some role" "\<not> active_run_conflicts (sn_active st) (sn_running st) ?r (pd_run_id job)" for i role job ms
    proof (rule session_inv_less [OF start_worker_inv [OF inv that]])
      show "distinct (map wk_number (sn_workers (remember i ((start_worker ?r role job ms st)\<lparr>sn_workers := sn_workers st\<rparr>))))"
        using inv by (simp add: remember_def session_inv_def workers_agree_def)
    qed (auto simp: remember_def start_worker_def Let_def)
    show ?thesis using h inv Start started fewer
      by (auto simp: handle_command_def handle_start_def Let_def split: option.splits if_splits elim!: sent)
  qed
qed

lemma session_step_inv: "session_step env st st' \<Longrightarrow> session_inv st \<Longrightarrow> session_inv st'"
proof (induction rule: session_step.induct)
  case (Handle m st st')
  then show ?case using handle_command_inv by blast
next
  case (Worker_Stops wk st)
  then show ?case
    by (intro session_inv_less [OF Worker_Stops(2)]) (auto simp: session_inv_def workers_agree_def split: if_splits)
next
  case (Worker_Ends wk st err)
  have "distinct (map wk_number (remove1 wk (sn_workers st)))"
    using Worker_Ends(2) by (simp add: session_inv_def workers_agree_def distinct_map distinct_remove1 inj_on_def)
  moreover have "sn_active (worker_ends env wk err st) = sn_active st" "sn_next (worker_ends env wk err st) = sn_next st"
    "sn_running (worker_ends env wk err st) = (sn_running st)(wk_number wk := False)"
    "sn_workers (worker_ends env wk err st) = remove1 wk (sn_workers st)"
    by (simp_all add: worker_ends_def send_agent_def)
  ultimately show ?case
    by (intro session_inv_less [OF Worker_Ends(2)]) (simp_all add: set_remove1_subset split: if_splits)
next
  case (Lease_Fires operation expires st)
  then show ?case by (intro session_inv_less [OF Lease_Fires(2)]) (auto simp: session_inv_def workers_agree_def)
next
  case (Close st)
  then show ?case by (intro session_inv_less [OF Close]) (auto simp: session_inv_def workers_agree_def)
qed

lemma session_reachable_inv: "session_reachable env st st' \<Longrightarrow> session_inv st \<Longrightarrow> session_inv st'"
  by (induction rule: session_reachable.induct) (auto intro: session_step_inv)

text \<open>
  C34. An agent works on one run at a time. In every state a session reaches from one in which no
  worker runs, whatever it is told and however its workers end, all running workers are of the
  same run and there is at most one for each role.
\<close>

theorem one_run_at_a_time:
  assumes "session_reachable env st st'" and "sn_workers st = []" and "sn_active st = Map.empty"
    and "\<forall>n. \<not> sn_running st n"
    and "wk1 \<in> set (sn_workers st')" "wk2 \<in> set (sn_workers st')"
    and "sn_running st' (wk_number wk1)" "sn_running st' (wk_number wk2)"
  shows "pd_run_id (wk_job wk1) = pd_run_id (wk_job wk2) \<and> (wk_role wk1 = wk_role wk2 \<longrightarrow> wk1 = wk2)"
proof -
  have "session_inv st" using assms(2-4) by (simp add: session_inv_def entries_agree_def workers_agree_def)
  then have inv: "session_inv st'" using session_reachable_inv [OF assms(1)] by blast
  have a: "sn_active st' (role_proto (wk_role wk1)) = Some (pd_run_id (wk_job wk1), wk_number wk1)"
    "sn_active st' (role_proto (wk_role wk2)) = Some (pd_run_id (wk_job wk2), wk_number wk2)"
    using inv assms(5-8) by (simp_all add: session_inv_def workers_agree_def)
  have "pd_run_id (wk_job wk1) = pd_run_id (wk_job wk2)"
    using inv a assms(7,8) unfolding session_inv_def entries_agree_def by blast
  moreover have "wk1 = wk2" if "wk_role wk1 = wk_role wk2"
  proof -
    have "wk_number wk1 = wk_number wk2" using a that by simp
    moreover have "inj_on wk_number (set (sn_workers st'))" using inv by (simp add: session_inv_def workers_agree_def distinct_map)
    ultimately show ?thesis using assms(5,6) by (rule_tac inj_onD)
  qed
  ultimately show ?thesis by blast
qed


definition example_job :: prepared where
  "example_job =
     \<lparr>pd_run_id = 1, pd_scenario = scenario_default 3 4, pd_payloads = \<lparr>pr_request = [], pr_response = []\<rparr>, pd_replay = None\<rparr>"

text \<open>An agent that is prepared for both roles of a run and is told to start them one after the other.\<close>

definition prepared_session :: "unit session_state" where
  "prepared_session = fresh_session\<lparr>sn_prepared := [1 \<mapsto> example_job, 2 \<mapsto> example_job]\<rparr>"

definition example_start :: "int \<Rightarrow> string \<Rightarrow> control_message" where
  "example_start r command_id =
     Start \<lparr>st_run_id = ''1'', st_start_unix_ms = 0, st_command_id = command_id, st_endpoint_role = r\<rparr>"

definition started_session :: "unit session_state" where
  "started_session =
     snd (handle_commands example_env [example_start 1 ''a'', example_start 2 ''b''] prepared_session)"

lemma handle_commands_reachable:
  "handle_commands env ms st = (None, st') \<Longrightarrow> session_reachable env st0 st \<Longrightarrow> session_reachable env st0 st'"
proof (induction ms arbitrary: st)
  case (Cons m ms)
  then obtain st1 where "handle_command env m st = (None, st1)" "handle_commands env ms st1 = (None, st')"
    by (auto split: prod.splits option.splits)
  then show ?case using Cons.IH session_reachable.step [OF Cons.prems(2) session_step.Handle] by blast
qed simp

lemma started_session_unfold:
  "handle_commands example_env [example_start 1 ''a'', example_start 2 ''b''] prepared_session = (None, started_session)"
  "map wk_role (sn_workers started_session) = [ClientRole, ServerRole]"
  "\<forall>wk\<in>set (sn_workers started_session). sn_running started_session (wk_number wk)"
  by (simp_all add: started_session_def example_start_def handle_command_def handler_simps send_agent_def
      prepared_session_def fresh_session_def blank_memory_def remember_command_def command_seen_def
      role_from_proto_def start_worker_def active_run_conflicts_def example_job_def)

theorem one_run_at_a_time_witness:
  "\<exists>wk1 wk2. sn_workers started_session = [wk1, wk2] \<and> pd_run_id (wk_job wk1) = pd_run_id (wk_job wk2)"
proof -
  obtain wk1 wk2 where ws: "sn_workers started_session = [wk1, wk2]"
    using started_session_unfold(2) by (auto simp: map_eq_Cons_conv)
  have "session_reachable example_env prepared_session started_session"
    by (rule handle_commands_reachable [OF started_session_unfold(1) session_reachable.start])
  moreover have "sn_workers prepared_session = []" "sn_active prepared_session = Map.empty"
    "\<forall>n. \<not> sn_running prepared_session n"
    by (simp_all add: prepared_session_def fresh_session_def)
  ultimately have "pd_run_id (wk_job wk1) = pd_run_id (wk_job wk2)"
    using one_run_at_a_time [of example_env prepared_session started_session wk1 wk2] started_session_unfold(3)
    by (simp add: ws)
  then show ?thesis using ws by blast
qed

text \<open>
  C35. A stop command that is not a repetition stops the run: whatever the session did before,
  after a stop for the run and both roles no worker of that run is left running, and the workers
  of other runs keep their flags.
\<close>

theorem stop_stops_the_run:
  assumes "session_reachable env st st1" and "sn_workers st = []" and "sn_active st = Map.empty"
    and "\<forall>n. \<not> sn_running st n"
    and "\<not> command_seen (sn_memory st1) (sp_command_id m)"
    and "ae_parse_uuid env (sp_run_id m) = Some run_id" and "sp_endpoint_role m = 0"
    and "handle_command env (Stop m) st1 = (None, st2)" and "wk \<in> set (sn_workers st2)"
  shows "sn_running st2 (wk_number wk) \<longleftrightarrow> pd_run_id (wk_job wk) \<noteq> run_id \<and> sn_running st1 (wk_number wk)"
proof -
  have "session_inv st" using assms(2-4) by (simp add: session_inv_def entries_agree_def workers_agree_def)
  then have inv: "session_inv st1" using session_reachable_inv [OF assms(1)] by blast
  have st2: "sn_workers st2 = sn_workers st1"
    "sn_running st2 = (\<lambda>n. if n \<in> addressed (sn_active st1) run_id 0 then False else sn_running st1 n)"
    using assms(5-8) by (auto simp: handle_command_def handle_stop_def remember_def Let_def send_agent_def split: if_splits)
  have "sn_active st1 (role_proto (wk_role wk)) = Some (pd_run_id (wk_job wk), wk_number wk)"
    if "sn_running st1 (wk_number wk)"
    using inv that assms(9) by (simp add: session_inv_def workers_agree_def st2)
  moreover have "role_proto (wk_role wk) \<in> {1, 2}" by (cases "wk_role wk") simp_all
  moreover have "pd_run_id (wk_job wk) = run_id"
    if "sn_running st1 (wk_number wk)" "wk_number wk \<in> addressed (sn_active st1) run_id 0"
  proof -
    from that(2) obtain r where "sn_active st1 r = Some (run_id, wk_number wk)" by (auto simp: addressed_def)
    then show ?thesis
      using calculation(1) [OF that(1)] inv that(1) unfolding session_inv_def entries_agree_def by metis
  qed
  ultimately show ?thesis unfolding st2 by (auto simp: addressed_def)
qed

theorem stop_stops_the_run_witness:
  "\<exists>st2. handle_command example_env (Stop \<lparr>sp_run_id = ''1'', sp_command_id = ''c'', sp_endpoint_role = 0\<rparr>)
       started_session = (None, st2)
     \<and> sn_workers st2 \<noteq> [] \<and> (\<forall>wk\<in>set (sn_workers st2). \<not> sn_running st2 (wk_number wk))"
proof -
  let ?m = "\<lparr>sp_run_id = ''1'', sp_command_id = ''c'', sp_endpoint_role = 0\<rparr>"
  have new: "\<not> command_seen (sn_memory started_session) ''c''" and stream: "sn_open started_session"
    and jobs: "\<forall>wk\<in>set (sn_workers started_session). pd_run_id (wk_job wk) = 1"
    by (simp_all add: started_session_def example_start_def handle_command_def handler_simps send_agent_def
        prepared_session_def fresh_session_def blank_memory_def remember_command_def command_seen_def
        role_from_proto_def start_worker_def active_run_conflicts_def example_job_def)
  obtain st2 where h: "handle_command example_env (Stop ?m) started_session = (None, st2)"
      and ws: "sn_workers st2 = sn_workers started_session"
    using new stream by (simp add: handle_command_def handle_stop_def Let_def send_agent_def remember_def example_env_def)
  have reach: "session_reachable example_env prepared_session started_session"
    by (rule handle_commands_reachable [OF started_session_unfold(1) session_reachable.start])
  have "\<not> sn_running st2 (wk_number wk)" if "wk \<in> set (sn_workers st2)" for wk
    using stop_stops_the_run [OF reach _ _ _ _ _ _ h that, of 1] new jobs that
    by (simp add: prepared_session_def fresh_session_def example_env_def ws)
  moreover have "sn_workers st2 \<noteq> []" using started_session_unfold(2) ws by auto
  ultimately show ?thesis using h by blast
qed

end
