(* ===== verification/Workload_Http1.thy ===== *)
theory Workload_Http1
  imports Stream_Io Replay Artifact Http_Split
begin

text \<open>
  HTTP/1.1 load (\<open>crates/agent/src/workload/http1.rs\<close> and \<open>workload/mod.rs\<close>): the requests of a
  client's connection, the responder, and the reading of a message out of a stream of bytes with
  what was read too much kept for the next one. The flags of a worker's gate are read again and
  again while others set them: \<open>g n\<close> is what the n-th look of the worker finds. Waiting while a run is
  paused may never end and is a partial function; think times have no effect and are left out.
\<close>

section \<open>The gate of a worker\<close>

record worker_gate =
  wg_running :: bool
  wg_paused :: bool
  wg_generating :: bool
  wg_desired_clients :: u32
  wg_worker_index :: u32

definition gate_enabled :: "worker_gate \<Rightarrow> bool" where
  "gate_enabled g \<longleftrightarrow> wg_running g \<and> wg_generating g \<and> wg_worker_index g < wg_desired_clients g"

definition gate_waits :: "worker_gate \<Rightarrow> bool" where
  "gate_waits g \<longleftrightarrow> wg_paused g \<and> wg_running g \<and> wg_generating g"

partial_function (option) wait_paused :: "(nat \<Rightarrow> worker_gate) \<Rightarrow> nat \<Rightarrow> nat option" where
  "wait_paused g t = (if gate_waits (g t) then wait_paused g (Suc t) else Some (Suc t))"

section \<open>Header fields\<close>

definition text_of :: "bytes \<Rightarrow> string" where
  "text_of bs = map (\<lambda>b. char_of (unat b)) (utf8_lossy bs)"

definition header_fields :: "bytes \<Rightarrow> (string \<times> string) list" where
  "header_fields raw = List.map_filter (split_once (CHR '':'')) (str_lines (text_of raw))"

definition named :: "string \<Rightarrow> string \<times> string \<Rightarrow> bool" where
  "named name f \<longleftrightarrow> eq_ignore_ascii_case (bytes_of (fst f)) (bytes_of name)"

definition parse_numeric_header :: "bytes \<Rightarrow> string \<Rightarrow> nat option" where
  "parse_numeric_header raw name =
     (case find (named name) (header_fields raw) of
        None \<Rightarrow> None
      | Some (_, value) \<Rightarrow> parse_str (2 ^ 64) (str_trim value))"

definition header_equals :: "bytes \<Rightarrow> string \<Rightarrow> string \<Rightarrow> bool" where
  "header_equals raw name expected \<longleftrightarrow>
     list_ex (\<lambda>f. named name f \<and> eq_ignore_ascii_case (bytes_of (str_trim (snd f))) (bytes_of expected))
       (header_fields raw)"

section \<open>Reading a message\<close>

lemma read_some_shorter:
  "read_some grant cap w = (Inr chunk, w') \<Longrightarrow> chunk \<noteq> [] \<Longrightarrow> length (io_in (fst w')) < length (io_in (fst w))"
  by (auto simp: read_some_def Let_def split: if_splits)

text \<open>\<open>grant\<close> says how much of what is still to come a read finds.\<close>

function read_headers :: "(nat \<Rightarrow> nat) \<Rightarrow> nat \<Rightarrow> bytes \<Rightarrow> (bytes \<times> bytes) action" where
  "read_headers grant limit pending w =
     (case find_sub crlf2 pending of
        Some p \<Rightarrow> (Inr (take (p + 4) pending, drop (p + 4) pending), w)
      | None \<Rightarrow>
          if limit < length pending then (Inl HeadersTooLarge, w)
          else case read_some grant 8192 w of
            (Inl e, w') \<Rightarrow> (Inl e, w')
          | (Inr chunk, w') \<Rightarrow>
              if chunk = [] then (Inl ClosedBeforeMessage, w') else read_headers grant limit (pending @ chunk) w')"
  by pat_completeness auto
termination
  by (relation "measure (\<lambda>(grant, limit, pending, w). length (io_in (fst w)))")
    (auto dest!: read_some_shorter [OF sym])

function read_body :: "(nat \<Rightarrow> nat) \<Rightarrow> nat \<Rightarrow> bytes \<Rightarrow> bytes action" where
  "read_body grant body_len pending w =
     (if body_len \<le> length pending then (Inr pending, w)
      else case read_some grant 8192 w of
        (Inl e, w') \<Rightarrow> (Inl e, w')
      | (Inr chunk, w') \<Rightarrow>
          if chunk = [] then (Inl ClosedBeforeBody, w') else read_body grant body_len (pending @ chunk) w')"
  by pat_completeness auto
termination
  by (relation "measure (\<lambda>(grant, body_len, pending, w). length (io_in (fst w)))")
    (auto dest!: read_some_shorter [OF sym])

declare read_headers.simps [simp del] read_body.simps [simp del]

definition content_length :: "bytes \<Rightarrow> nat" where
  "content_length headers = (case parse_numeric_header headers ''content-length'' of None \<Rightarrow> 0 | Some n \<Rightarrow> n)"

definition read_message :: "(nat \<Rightarrow> nat) \<Rightarrow> nat \<Rightarrow> bytes \<Rightarrow> (bytes \<times> nat \<times> bytes) action" where
  "read_message grant limit pending =
     bind_w (read_headers grant limit pending) (\<lambda>(headers, pending).
     let body_len = content_length headers
     in bind_w (read_body grant body_len pending) (\<lambda>pending.
          return_w (headers, body_len, drop body_len pending)))"

text \<open>\<open>tokio::time::timeout\<close>: what would never return has elapsed.\<close>

definition timeout_w :: "'a action \<Rightarrow> 'a action" where
  "timeout_w m w = (case m w of (Inl NeverReturns, w) \<Rightarrow> (Inl Elapsed, w) | r \<Rightarrow> r)"

section \<open>The client\<close>

text \<open>Lines that end in a carriage return and a line feed, and an empty line.\<close>

definition http_lines :: "string list \<Rightarrow> string" where
  "http_lines ls = concat (map (\<lambda>l. l @ [CHR 0x0D, CHR 0x0A]) ls) @ [CHR 0x0D, CHR 0x0A]"

definition request_target :: "bool \<Rightarrow> scenario \<Rightarrow> string" where
  "request_target absolute s =
     (if absolute then ''http://'' @ target_addr s @ rq_path (sc_request s) else rq_path (sc_request s))"

definition http1_request :: "bool \<Rightarrow> scenario \<Rightarrow> prepared_payloads \<Rightarrow> bool \<Rightarrow> bytes" where
  "http1_request absolute s p last_one =
     bytes_of (http_lines
       [rq_method (sc_request s) @ '' '' @ request_target absolute s @ '' HTTP/1.1'',
        ''Host: '' @ rq_host (sc_request s),
        ''Connection: '' @ (if rq_keep_alive (sc_request s) \<and> \<not> last_one then ''keep-alive'' else ''close''),
        ''Content-Length: '' @ show_nat (length (pr_request p)),
        ''X-Response-Bytes: '' @ show_nat (length (pr_response p))])"

definition response_status :: "bytes \<Rightarrow> bytes" where
  "response_status response = utf8_lossy (field 1 (split_by ((=) 32) response))"

text \<open>One transaction; \<open>lat\<close> gives the latency sampled for the n-th.\<close>

definition http1_exchange :: "(nat \<Rightarrow> nat) \<Rightarrow> (nat \<Rightarrow> u64) \<Rightarrow> bool \<Rightarrow> scenario \<Rightarrow> prepared_payloads \<Rightarrow> bool \<Rightarrow> bytes
    \<Rightarrow> bytes action" where
  "http1_exchange grant lat absolute s p last_one pending =
     (let request = http1_request absolute s p last_one
      in bind_w (write_all request) (\<lambda>_.
         bind_w (write_all (pr_request p)) (\<lambda>_.
         bind_w (count_w (add_tx (length request + length (pr_request p)))) (\<lambda>_.
         bind_w (timeout_w (read_message grant (64 * 1024) pending)) (\<lambda>(response, body_len, pending).
         bind_w (count_w (add_rx (length response + body_len))) (\<lambda>_.
           if \<not> starts_with response (bytes_of ''HTTP/1.1 2'') then fail_w (HttpErrorResponse (response_status response))
           else
             bind_w (count_w (\<lambda>c. let c = transaction_completed c
               in push_http_latency (lat (length (ct_http_latencies_us c))) c)) (\<lambda>_.
               return_w pending)))))))"

text \<open>Every message takes at least the four bytes that end its header.\<close>

abbreviation unread :: "bytes \<Rightarrow> work \<Rightarrow> nat" where
  "unread pending w \<equiv> length pending + length (io_in (fst w))"

lemma read_some_unread:
  "read_some grant cap w = (Inr chunk, w') \<Longrightarrow> unread (pending @ chunk) w' = unread pending w"
  by (auto simp: read_some_def Let_def split: if_splits)

lemma read_headers_unread:
  "read_headers grant limit pending w = (Inr (headers, pending'), w') \<Longrightarrow>
     unread pending' w' + 4 \<le> unread pending w"
proof (induction grant limit pending w rule: read_headers.induct)
  case (1 grant limit pending w)
  show ?case
  proof (cases "find_sub crlf2 pending")
    case (Some p)
    then have "p + 4 \<le> length pending" using find_sub_bound [OF Some] by simp
    then show ?thesis using "1.prems" Some by (subst (asm) read_headers.simps) auto
  next
    case None
    then obtain chunk w1 where r: "read_some grant 8192 w = (Inr chunk, w1)" "chunk \<noteq> []" "\<not> limit < length pending"
      and n: "read_headers grant limit (pending @ chunk) w1 = (Inr (headers, pending'), w')"
      using "1.prems" by (subst (asm) read_headers.simps) (auto split: if_splits prod.splits sum.splits)
    have "unread pending' w' + 4 \<le> unread (pending @ chunk) w1" using "1.IH" None r n by simp
    then show ?thesis using read_some_unread [OF r(1), of pending] by simp
  qed
qed

lemma read_body_unread:
  "read_body grant body_len pending w = (Inr pending', w') \<Longrightarrow> unread pending' w' = unread pending w"
proof (induction grant body_len pending w rule: read_body.induct)
  case (1 grant body_len pending w)
  show ?case
  proof (cases "body_len \<le> length pending")
    case True
    then show ?thesis using "1.prems" by (subst (asm) read_body.simps) auto
  next
    case False
    then obtain chunk w1 where r: "read_some grant 8192 w = (Inr chunk, w1)" "chunk \<noteq> []"
      and n: "read_body grant body_len (pending @ chunk) w1 = (Inr pending', w')"
      using "1.prems" by (subst (asm) read_body.simps) (auto split: if_splits prod.splits sum.splits)
    have "unread pending' w' = unread (pending @ chunk) w1" using "1.IH" False r n by simp
    then show ?thesis using read_some_unread [OF r(1), of pending] by simp
  qed
qed

lemma bind_w_InrE:
  assumes "bind_w m f w = (Inr b, w')"
  obtains a w1 where "m w = (Inr a, w1)" "f a w1 = (Inr b, w')"
  using assms by (auto simp: bind_w_def split: prod.splits sum.splits)

lemma read_message_unread:
  assumes "read_message grant limit pending w = (Inr (headers, body_len, pending'), w')"
  shows "unread pending' w' + 4 \<le> unread pending w"
proof -
  from assms obtain p1 w1 p2 w2 where r: "read_headers grant limit pending w = (Inr (headers, p1), w1)"
      "read_body grant body_len p1 w1 = (Inr p2, w2)" "pending' = drop body_len p2" "w' = w2"
    unfolding read_message_def by (auto elim!: bind_w_InrE simp: Let_def return_w_def split: prod.splits)
  then show ?thesis using read_headers_unread [OF r(1)] read_body_unread [OF r(2)] by simp
qed

lemma timeout_w_Inr [simp]: "timeout_w m w = (Inr a, w') \<longleftrightarrow> m w = (Inr a, w')"
  by (auto simp: timeout_w_def split: prod.splits sum.splits work_error.splits)

lemma http1_exchange_unread:
  assumes "http1_exchange grant lat absolute s p last_one pending w = (Inr pending', w')"
  shows "unread pending' w' < unread pending w"
proof -
  from assms obtain w1 headers body_len w2
    where r: "read_message grant (64 * 1024) pending w1 = (Inr (headers, body_len, pending'), w2)"
      and i: "io_in (fst w1) = io_in (fst w)" "io_in (fst w') = io_in (fst w2)"
    unfolding http1_exchange_def
    by (auto elim!: bind_w_InrE simp: Let_def return_w_def fail_w_def write_all_def count_w_def split: prod.splits if_splits)
  then show ?thesis using read_message_unread [OF r] by simp
qed

function http1_loop :: "(nat \<Rightarrow> nat) \<Rightarrow> (nat \<Rightarrow> u64) \<Rightarrow> (nat \<Rightarrow> worker_gate) \<Rightarrow> bool \<Rightarrow> scenario \<Rightarrow> prepared_payloads
    \<Rightarrow> bytes \<Rightarrow> u32 \<Rightarrow> nat \<Rightarrow> unit action" where
  "http1_loop grant lat g absolute s p pending index t w =
     (let maximum = rq_transactions_per_connection (sc_request s)
      in if \<not> gate_enabled (g t) \<or> (0 < maximum \<and> maximum \<le> index) then (Inr (), w)
         else case wait_paused g (Suc t) of
           None \<Rightarrow> (Inl NeverReturns, w)
         | Some t' \<Rightarrow>
             if \<not> gate_enabled (g t') then (Inr (), w)
             else case http1_exchange grant lat absolute s p (0 < maximum \<and> index + 1 = maximum) pending w of
               (Inl e, w') \<Rightarrow> (Inl e, w')
             | (Inr pending', w') \<Rightarrow> http1_loop grant lat g absolute s p pending' (index + 1) (Suc t') w')"
  by pat_completeness auto
termination
  by (relation "measure (\<lambda>(grant, lat, g, absolute, s, p, pending, index, t, w). unread pending w)")
    (auto simp: Let_def dest!: http1_exchange_unread [OF sym])

declare http1_loop.simps [simp del]

definition http1_transactions :: "(nat \<Rightarrow> nat) \<Rightarrow> (nat \<Rightarrow> u64) \<Rightarrow> (nat \<Rightarrow> worker_gate) \<Rightarrow> bool \<Rightarrow> scenario
    \<Rightarrow> prepared_payloads \<Rightarrow> unit action" where
  "http1_transactions grant lat g absolute s p = http1_loop grant lat g absolute s p [] 0 0"

section \<open>The responder\<close>

function write_zeroes :: "nat \<Rightarrow> unit action" where
  "write_zeroes remaining w =
     (if remaining = 0 then (Inr (), w)
      else
        let sz = min remaining 65536
        in case write_all (replicate sz 0) w of
             (Inl e, w) \<Rightarrow> (Inl e, w)
           | (Inr _, w) \<Rightarrow> write_zeroes (remaining - sz) w)"
  by pat_completeness auto
termination
  by (relation "measure fst") auto

declare write_zeroes.simps [simp del]

definition http1_response_head :: "nat \<Rightarrow> bool \<Rightarrow> bytes" where
  "http1_response_head response_len keep_alive =
     bytes_of (http_lines
       [''HTTP/1.1 200 OK'', ''Content-Length: '' @ show_nat response_len,
        ''Connection: '' @ (if keep_alive then ''keep-alive'' else ''close'')])"

definition http1_answer :: "prepared_payloads \<Rightarrow> nat \<Rightarrow> bool \<Rightarrow> unit action" where
  "http1_answer p response_len keep_alive =
     (let head = http1_response_head response_len keep_alive
      in bind_w (write_all head) (\<lambda>_.
         bind_w (if response_len = length (pr_response p) then write_all (pr_response p)
                 else write_zeroes response_len) (\<lambda>_.
         bind_w (count_w (add_tx (length head + response_len))) (\<lambda>_.
           count_w transaction_completed))))"

text \<open>One request: what it asks for is answered, and the connection goes on if it says so.\<close>

definition http1_serve_one :: "(nat \<Rightarrow> nat) \<Rightarrow> prepared_payloads \<Rightarrow> bytes \<Rightarrow> (bool \<times> bytes) action" where
  "http1_serve_one grant p pending =
     bind_w (read_message grant (64 * 1024) pending) (\<lambda>(headers, body_len, pending).
     bind_w (count_w (add_rx (length headers + body_len))) (\<lambda>_.
     let response_len = (case parse_numeric_header headers ''x-response-bytes'' of
           None \<Rightarrow> length (pr_response p) | Some n \<Rightarrow> n);
         keep_alive = header_equals headers ''connection'' ''keep-alive''
     in bind_w (http1_answer p response_len keep_alive) (\<lambda>_. return_w (keep_alive, pending))))"

lemma write_zeroes_eq: "write_zeroes n (st, c) = (Inr (), st\<lparr>io_out := io_out st @ replicate n 0\<rparr>, c)"
proof (induction n arbitrary: st rule: less_induct)
  case (less n)
  show ?case
  proof (cases "n = 0")
    case False
    let ?k = "min n 65536"
    have "write_zeroes n (st, c) = write_zeroes (n - ?k) (st\<lparr>io_out := io_out st @ replicate ?k 0\<rparr>, c)"
      using False by (subst write_zeroes.simps) (simp add: write_all_def Let_def)
    also have "\<dots> = (Inr (), st\<lparr>io_out := io_out st @ replicate ?k 0 @ replicate (n - ?k) 0\<rparr>, c)"
      using False by (subst less) simp_all
    also have "replicate ?k (0 :: u8) @ replicate (n - ?k) 0 = replicate n 0"
      by (simp flip: replicate_add)
    finally show ?thesis .
  qed (subst write_zeroes.simps, simp)
qed

lemma http1_answer_eq:
  "http1_answer p n k (st, c) =
     (Inr (), st\<lparr>io_out := io_out st @ http1_response_head n k
         @ (if n = length (pr_response p) then pr_response p else replicate n 0)\<rparr>,
      transaction_completed (add_tx (length (http1_response_head n k) + n) c))"
  by (simp add: http1_answer_def Let_def bind_w_def write_all_def count_w_def write_zeroes_eq)

lemma http1_serve_one_unread:
  assumes "http1_serve_one grant p pending w = (Inr (keep_alive, pending'), w')"
  shows "unread pending' w' < unread pending w"
proof -
  from assms obtain headers body_len w1 c n k
    where r: "read_message grant (64 * 1024) pending w = (Inr (headers, body_len, pending'), w1)"
      and a: "http1_answer p n k (fst w1, c) = (Inr (), w')"
    unfolding http1_serve_one_def
    by (auto elim!: bind_w_InrE simp: Let_def return_w_def count_w_def split: prod.splits)
  have "io_in (fst w') = io_in (fst w1)" using a by (auto simp: http1_answer_eq)
  then show ?thesis using read_message_unread [OF r] by simp
qed

function http1_serve_loop :: "(nat \<Rightarrow> nat) \<Rightarrow> prepared_payloads \<Rightarrow> bytes \<Rightarrow> unit action" where
  "http1_serve_loop grant p pending w =
     (case http1_serve_one grant p pending w of
        (Inl e, w') \<Rightarrow> (Inl e, w')
      | (Inr (keep_alive, pending'), w') \<Rightarrow>
          if keep_alive then http1_serve_loop grant p pending' w' else (Inr (), w'))"
  by pat_completeness auto
termination
  by (relation "measure (\<lambda>(grant, p, pending, w). unread pending w)") (auto dest!: http1_serve_one_unread [OF sym])

declare http1_serve_loop.simps [simp del]

definition http1_serve :: "(nat \<Rightarrow> nat) \<Rightarrow> prepared_payloads \<Rightarrow> unit action" where
  "http1_serve grant p = http1_serve_loop grant p []"

end
