(* ===== verification/Connector.thy ===== *)
theory Connector
  imports Workload_Http1
begin

text \<open>
  The connection of a client (\<open>crates/agent/src/connector.rs\<close>): the address to connect to and from,
  the tunnel through an explicit proxy, and TLS. Name resolution with the TCP handshake and TLS are
  parameters: what they give for the n-th connection.
\<close>

record connect_env =
  ce_connect :: "u64 \<Rightarrow> string \<Rightarrow> ip_addr option \<Rightarrow> work_error + io_stream"
  ce_connect_us :: "u64 \<Rightarrow> u64"
  ce_tls :: "u64 \<Rightarrow> scenario \<Rightarrow> io_stream \<Rightarrow> work_error + io_stream"

section \<open>TCP\<close>

definition connect_addr :: "scenario \<Rightarrow> string" where
  "connect_addr s = (case proxy_addr s of None \<Rightarrow> target_addr s | Some a \<Rightarrow> a)"

definition source_ip :: "scenario \<Rightarrow> u64 \<Rightarrow> ip_addr option" where
  "source_ip s connection_index =
     (let ips = sc_runtime_source_ips s; i = unat connection_index mod max (length ips) 1
      in if i < length ips then Some (ips ! i) else None)"

definition connect_tcp :: "connect_env \<Rightarrow> scenario \<Rightarrow> u64 \<Rightarrow> counters \<Rightarrow> (work_error + io_stream) \<times> counters" where
  "connect_tcp env s connection_index c =
     (case ce_connect env connection_index (connect_addr s) (source_ip s connection_index) of
        Inl e \<Rightarrow> (Inl e, c)
      | Inr st \<Rightarrow>
          (Inr st, connection_established
             (c\<lparr>ct_tcp_connect_latencies_us := ct_tcp_connect_latencies_us c @ [ce_connect_us env connection_index]\<rparr>)))"

section \<open>The tunnel\<close>

definition MAX_HEADER_BYTES :: nat where
  "MAX_HEADER_BYTES = 16 * 1024"

lemma read_exact_length: "read_exact timed n w = (Inr bs, w') \<Longrightarrow> length bs = n"
  by (auto simp: read_exact_def Let_def split: if_splits)

function read_connect_loop :: "bytes \<Rightarrow> bytes action" where
  "read_connect_loop response w =
     (if MAX_HEADER_BYTES \<le> length response then (Inl ConnectHeadersTooLarge, w)
      else case read_exact False 1 w of
        (Inl e, w') \<Rightarrow> (Inl e, w')
      | (Inr byte, w') \<Rightarrow>
          let response = response @ byte
          in if ends_with response crlf2 then (Inr response, w') else read_connect_loop response w')"
  by pat_completeness auto
termination
  by (relation "measure (\<lambda>(response, w). MAX_HEADER_BYTES - length response)")
    (auto dest!: read_exact_length [OF sym])

declare read_connect_loop.simps [simp del]

definition read_connect_headers :: "bytes action" where
  "read_connect_headers = read_connect_loop []"

definition connect_request :: "scenario \<Rightarrow> bytes" where
  "connect_request s =
     bytes_of (http_lines
       [''CONNECT '' @ target_addr s @ '' HTTP/1.1'', ''Host: '' @ target_addr s, ''Proxy-Connection: keep-alive''])"

definition connect_tunnel :: "scenario \<Rightarrow> unit action" where
  "connect_tunnel s =
     (let request = connect_request s
      in bind_w (write_all request) (\<lambda>_.
         bind_w (count_w (add_tx (length request))) (\<lambda>_.
         bind_w (timeout_w read_connect_headers) (\<lambda>response.
         bind_w (count_w (add_rx (length response))) (\<lambda>_.
           if \<not> starts_with response (bytes_of ''HTTP/1.1 200'') \<and> \<not> starts_with response (bytes_of ''HTTP/1.0 200'')
           then fail_w (ConnectRejected (utf8_lossy (take 128 response)))
           else return_w ())))))"

definition needs_tunnel :: "scenario \<Rightarrow> bool" where
  "needs_tunnel s \<longleftrightarrow> is_explicit_proxy s \<and> (tls_enabled (sc_tls s) \<or> sc_protocol s \<noteq> Http1)"

definition context_w :: "(work_error \<Rightarrow> work_error) \<Rightarrow> 'a action \<Rightarrow> 'a action" where
  "context_w f m w = (case m w of (Inl e, w) \<Rightarrow> (Inl (f e), w) | r \<Rightarrow> r)"

definition upgrade :: "connect_env \<Rightarrow> u64 \<Rightarrow> scenario \<Rightarrow> unit action" where
  "upgrade env connection_index s =
     bind_w (if needs_tunnel s then context_w TunnelFailed (connect_tunnel s) else return_w ()) (\<lambda>_ w.
       if tls_enabled (sc_tls s) then
         case ce_tls env connection_index s (fst w) of
           Inl e \<Rightarrow> (Inl e, w)
         | Inr st \<Rightarrow> (Inr (), st, snd w)
       else (Inr (), w))"

section \<open>What the tunnel reads\<close>

text \<open>
  The header of the proxy's answer is read byte by byte, so what follows it stays for the protocol
  inside the tunnel.
\<close>

lemma find_window_suffix: "find_window n P (drop k xs) = Some i \<Longrightarrow> find_window n P xs \<noteq> None"
proof (induction xs arbitrary: k i)
  case (Cons x xs)
  then show ?case by (cases k) auto
qed simp

lemma ends_with_find_sub:
  assumes "find_sub pat xs = Some (length xs - length pat)" and "n \<le> length xs" and "pat \<noteq> []"
  shows "ends_with (take n xs) pat \<longleftrightarrow> n = length xs"
proof
  assume e: "ends_with (take n xs) pat"
  show "n = length xs"
  proof (rule ccontr)
    assume "n \<noteq> length xs"
    then have n: "n < length xs" using assms(2) by simp
    have le: "length pat \<le> n" using e n by (simp add: ends_with_def)
    have "drop (n - length pat) (take n xs) = pat" using e n by (simp add: ends_with_def)
    then have "find_sub pat (drop (n - length pat) (take n xs)) = Some 0"
      using assms(3) by (cases pat) (simp_all add: find_sub_def)
    then obtain i where i: "find_sub pat (take n xs) = Some i"
      unfolding find_sub_def using find_window_suffix by blast
    then have "i + length pat \<le> n" using find_sub_bound [OF i] n by simp
    moreover have "find_sub pat xs = Some i" using find_sub_append [OF i, of "drop n xs"] by simp
    ultimately show False using assms(1) n le by simp
  qed
next
  assume "n = length xs"
  then show "ends_with (take n xs) pat"
    using find_sub_Some [OF assms(1)] by (simp add: ends_with_def slice_def)
qed

lemma read_connect_reads:
  assumes head: "find_sub crlf2 head = Some (length head - 4)" "length head \<le> MAX_HEADER_BYTES"
  shows "n < length head \<Longrightarrow> io_in st = drop n head @ rest \<Longrightarrow>
    read_connect_loop (take n head) (st, c) = (Inr head, st\<lparr>io_in := rest\<rparr>, c)"
proof (induction "length head - n" arbitrary: n st)
  case 0
  then show ?case by simp
next
  case (Suc m)
  let ?st = "st\<lparr>io_in := drop (Suc n) head @ rest\<rparr>"
  have "drop n head = head ! n # drop (Suc n) head" using Suc.prems(1) by (simp add: Cons_nth_drop_Suc)
  then have r: "read_exact False 1 (st, c) = (Inr [head ! n], ?st, c)" using Suc.prems(2) by (simp add: read_exact_def)
  have t: "take n head @ [head ! n] = take (Suc n) head" using Suc.prems(1) by (simp add: take_Suc_conv_app_nth)
  have e: "ends_with (take (Suc n) head) crlf2 \<longleftrightarrow> Suc n = length head"
    using ends_with_find_sub [of crlf2 head "Suc n"] head(1) Suc.prems(1) by (auto simp: crlf2_def)
  have fits: "\<not> MAX_HEADER_BYTES \<le> n" using Suc.prems(1) head(2) by simp
  show ?case
  proof (cases "Suc n = length head")
    case True
    then show ?thesis using r t e fits by (subst read_connect_loop.simps) (simp add: Let_def)
  next
    case False
    then have "read_connect_loop (take n head) (st, c) = read_connect_loop (take (Suc n) head) (?st, c)"
      using r t e fits by (subst read_connect_loop.simps) (simp add: Let_def)
    also have "\<dots> = (Inr head, ?st\<lparr>io_in := rest\<rparr>, c)"
      using Suc.hyps False Suc.prems(1) by (intro Suc.hyps(1)) simp_all
    finally show ?thesis by simp
  qed
qed

definition tunnel_accepted :: "bytes \<Rightarrow> bool" where
  "tunnel_accepted head \<longleftrightarrow>
     starts_with head (bytes_of ''HTTP/1.1 200'') \<or> starts_with head (bytes_of ''HTTP/1.0 200'')"

lemma connect_tunnel_outcome:
  assumes "find_sub crlf2 head = Some (length head - 4)" and "length head \<le> MAX_HEADER_BYTES"
    and "io_in st = head @ rest"
  shows "connect_tunnel s (st, c) =
    (if tunnel_accepted head then Inr () else Inl (ConnectRejected (utf8_lossy (take 128 head))),
     st\<lparr>io_in := rest, io_out := io_out st @ connect_request s\<rparr>,
     add_rx (length head) (add_tx (length (connect_request s)) c))"
proof -
  have "0 < length head" using assms(1) by (cases head) (simp_all add: find_sub_def)
  then have r: "read_connect_headers (st', c') = (Inr head, st'\<lparr>io_in := rest\<rparr>, c')" if "io_in st' = head @ rest" for st' c'
    using read_connect_reads [OF assms(1,2), of 0 st' rest c'] that by (simp add: read_connect_headers_def)
  show ?thesis
    using assms(3) by (simp add: connect_tunnel_def Let_def bind_w_def [of "timeout_w read_connect_headers"] timeout_w_def r
        tunnel_accepted_def fail_w_def return_w_def)
qed

end
