(* ===== verification/Workload_Http2.thy ===== *)
theory Workload_Http2
  imports Workload_Http1
begin

text \<open>
  HTTP/2 load (\<open>crates/agent/src/workload/http2.rs\<close>) over a third-party implementation of the
  protocol, which is a parameter: the capacity its flow control grants, what it answers to the n-th
  request, and which of the requests under way is answered next. Here are the sending of a body, the
  requests of a connection with their limit of concurrent streams, and the answers of the responder.
\<close>

section \<open>Sending a body\<close>

text \<open>
  The data frames sent, each with its end-of-stream flag; \<open>capacity n\<close> is what the n-th wait for
  capacity gives, nothing when the stream is closed. A grant of no capacity is waited for again, so
  the loop may not end.
\<close>

partial_function (option) send_body_loop :: "(nat \<Rightarrow> nat option) \<Rightarrow> bytes \<Rightarrow> nat \<Rightarrow> nat \<Rightarrow> (bytes \<times> bool) list
    \<Rightarrow> (work_error + (bytes \<times> bool) list) option" where
  "send_body_loop capacity payload offset n frames =
     (if length payload \<le> offset then Some (Inr frames)
      else case capacity n of
        None \<Rightarrow> Some (Inl (Http2Failed (bytes_of ''HTTP/2 stream closed while waiting for flow-control capacity'')))
      | Some granted \<Rightarrow>
          let sz = min (min granted (16 * 1024)) (length payload - offset)
          in if sz = 0 then send_body_loop capacity payload offset (Suc n) frames
             else send_body_loop capacity payload (offset + sz) (Suc n)
               (frames @ [(slice offset (offset + sz) payload, offset + sz = length payload)]))"

definition send_body :: "(nat \<Rightarrow> nat option) \<Rightarrow> bytes \<Rightarrow> (work_error + (bytes \<times> bool) list) option" where
  "send_body capacity payload =
     (if payload = [] then Some (Inr [([], True)]) else send_body_loop capacity payload 0 0 [])"

section \<open>The requests of a connection\<close>

record h2_response =
  hs_status :: nat
  hs_status_text :: bytes
  hs_chunks :: "bytes list"
  hs_latency_us :: u64

definition http2_request :: "work_error + h2_response \<Rightarrow> bytes \<Rightarrow> work_error + (u64 \<times> nat \<times> nat)" where
  "http2_request answer payload =
     bind_res answer (\<lambda>r.
       if \<not> (200 \<le> hs_status r \<and> hs_status r < 300) then Inl (HttpErrorResponse (hs_status_text r))
       else Inr (hs_latency_us r, length payload, sum_list (map length (hs_chunks r))))"

text \<open>Turns of a replay go round; a replay without turns is refused when it is prepared.\<close>

definition cycled :: "replay_turn list option \<Rightarrow> nat \<Rightarrow> replay_turn option" where
  "cycled turns k = map_option (\<lambda>ts. ts ! (k mod length ts)) turns"

definition http2_payload :: "replay_turn list option \<Rightarrow> prepared_payloads \<Rightarrow> nat \<Rightarrow> bytes \<times> nat" where
  "http2_payload turns p launched =
     (case cycled turns (launched * 2) of None \<Rightarrow> pr_request p | Some t \<Rightarrow> rt_payload t,
      case cycled turns (launched * 2 + 1) of None \<Rightarrow> length (pr_response p) | Some t \<Rightarrow> length (rt_payload t))"

text \<open>A request under way: its number, its payload and the length it asks for.\<close>

type_synonym h2_pending = "(nat \<times> bytes \<times> nat) list"

record h2_run =
  hr_maximum :: nat
  hr_concurrency :: nat
  hr_turns :: "replay_turn list option"
  hr_payloads :: prepared_payloads
  hr_gate :: "nat \<Rightarrow> worker_gate"
  hr_answer :: "nat \<Rightarrow> bytes \<Rightarrow> nat \<Rightarrow> work_error + h2_response"
  hr_next :: "nat \<Rightarrow> nat"

definition may_launch :: "h2_run \<Rightarrow> nat \<Rightarrow> bool" where
  "may_launch R launched \<longleftrightarrow> hr_maximum R = 0 \<or> launched < hr_maximum R"

function http2_fill :: "h2_run \<Rightarrow> nat \<Rightarrow> h2_pending \<Rightarrow> nat \<Rightarrow> nat \<times> h2_pending \<times> nat" where
  "http2_fill R launched pending t =
     (if gate_enabled (hr_gate R t) \<and> length pending < hr_concurrency R \<and> may_launch R launched then
        let (payload, response_len) = http2_payload (hr_turns R) (hr_payloads R) launched
        in http2_fill R (launched + 1) (pending @ [(launched, payload, response_len)]) (Suc t)
      else (launched, pending, Suc t))"
  by pat_completeness auto
termination
  by (relation "measure (\<lambda>(R, launched, pending, t). hr_concurrency R - length pending)") auto

declare http2_fill.simps [simp del]

definition remove_nth :: "nat \<Rightarrow> 'a list \<Rightarrow> 'a list" where
  "remove_nth k xs = take k xs @ drop (Suc k) xs"

definition http2_completed :: "u64 \<times> nat \<times> nat \<Rightarrow> counters \<Rightarrow> counters" where
  "http2_completed r c =
     (case r of (latency, sent, received) \<Rightarrow>
        push_http_latency latency (transaction_completed (add_rx received (add_tx sent c))))"

partial_function (option) http2_loop :: "h2_run \<Rightarrow> nat \<Rightarrow> h2_pending \<Rightarrow> nat \<Rightarrow> counters
    \<Rightarrow> ((work_error + unit) \<times> counters) option" where
  "http2_loop R launched pending t c =
     (if \<not> ((gate_enabled (hr_gate R t) \<and> may_launch R launched) \<or> pending \<noteq> []) then Some (Inr (), c)
      else case http2_fill R launched pending (Suc t) of (launched, pending, t) \<Rightarrow>
        if pending = [] then Some (Inr (), c)
        else let k = hr_next R t mod length pending
          in case pending ! k of (i, payload, response_len) \<Rightarrow>
             (case http2_request (hr_answer R i payload response_len) payload of
                Inl e \<Rightarrow> Some (Inl e, c)
              | Inr r \<Rightarrow> http2_loop R launched (remove_nth k pending) t (http2_completed r c)))"

definition http2_transactions :: "h2_run \<Rightarrow> counters \<Rightarrow> ((work_error + unit) \<times> counters) option" where
  "http2_transactions R c = http2_loop R 0 [] 0 c"

text \<open>The limits of a scenario.\<close>

definition http2_limits :: "scenario \<Rightarrow> h2_run \<Rightarrow> bool" where
  "http2_limits s R \<longleftrightarrow>
     hr_maximum R = unat (rq_transactions_per_connection (sc_request s))
   \<and> hr_concurrency R = unat (h2_max_concurrent_streams (sc_http2 s))"

section \<open>The responder\<close>

definition http2_response_len :: "prepared_payloads \<Rightarrow> string option \<Rightarrow> nat" where
  "http2_response_len p header =
     (case Option.bind header (parse_str (2 ^ 64)) of None \<Rightarrow> length (pr_response p) | Some n \<Rightarrow> n)"

definition http2_reply_body :: "prepared_payloads \<Rightarrow> bytes option \<Rightarrow> nat \<Rightarrow> bytes" where
  "http2_reply_body p replay_response response_len =
     (case replay_response of
        Some body \<Rightarrow>
          if length body = response_len then body
          else if response_len = length (pr_response p) then pr_response p else replicate response_len 0
      | None \<Rightarrow> if response_len = length (pr_response p) then pr_response p else replicate response_len 0)"

text \<open>
  One request: its body may fail to arrive, and the answer may fail to be sent; either is an error
  of the transaction.
\<close>

definition transaction_failed :: "counters \<Rightarrow> counters" where
  "transaction_failed c = c\<lparr>ct_transaction_errors := ct_transaction_errors c + 1\<rparr>"

definition http2_serve_request :: "prepared_payloads \<Rightarrow> bytes option \<Rightarrow> string option \<Rightarrow> work_error + bytes list \<Rightarrow> bool
    \<Rightarrow> counters \<Rightarrow> bytes option \<times> counters" where
  "http2_serve_request p replay_response header body sent c =
     (case body of
        Inl e \<Rightarrow> (None, transaction_failed c)
      | Inr chunks \<Rightarrow>
          let n = http2_response_len p header;
              c = add_rx (sum_list (map length chunks)) c
          in if sent then (Some (if n = 0 then [] else http2_reply_body p replay_response n),
                transaction_completed (add_tx n c))
             else (None, transaction_failed c))"

section \<open>Facts\<close>

lemma slice_extend:
  "offset \<le> length xs \<Longrightarrow> take offset xs @ slice offset (offset + k) xs = take (offset + k) xs"
  by (simp add: slice_def take_add)

text \<open>The frames sent so far are the beginning of the body, none empty, none large, none final too soon.\<close>

definition frames_ok :: "bytes \<Rightarrow> nat \<Rightarrow> (bytes \<times> bool) list \<Rightarrow> bool" where
  "frames_ok payload offset frames \<longleftrightarrow>
     concat (map fst frames) = take offset payload \<and> offset \<le> length payload
   \<and> (\<forall>f\<in>set frames. 0 < length (fst f) \<and> length (fst f) \<le> 16 * 1024)
   \<and> map snd frames = map (\<lambda>i. offset = length payload \<and> Suc i = length frames) [0..<length frames]"

lemma frames_ok_next:
  assumes "frames_ok payload offset frames" and "0 < sz" and "sz \<le> 16 * 1024" and "sz \<le> length payload - offset"
  shows "frames_ok payload (offset + sz) (frames @ [(slice offset (offset + sz) payload, offset + sz = length payload)])"
proof -
  have "offset \<noteq> length payload" using assms(2,4) by auto
  then have flags: "map snd frames = map (\<lambda>i. offset + sz = length payload \<and> Suc i = length frames + 1) [0..<length frames]"
    using assms(1) by (auto simp: frames_ok_def)
  have "length (slice offset (offset + sz) payload) = sz" using assms by (simp add: slice_def)
  moreover from this have "slice offset (offset + sz) payload \<noteq> []" using assms(2) by auto
  ultimately show ?thesis
    using assms slice_extend [of offset payload sz] flags by (auto simp: frames_ok_def)
qed

lemma send_body_skip:
  "offset < length payload \<Longrightarrow> \<forall>j<m. capacity (n + j) = Some 0 \<Longrightarrow>
     send_body_loop capacity payload offset n frames = send_body_loop capacity payload offset (n + m) frames"
proof (induction m arbitrary: n)
  case (Suc m)
  have "capacity n = Some 0" using Suc.prems(2) by (metis add_0_right zero_less_Suc)
  then have "send_body_loop capacity payload offset n frames = send_body_loop capacity payload offset (Suc n) frames"
    using Suc.prems(1) by (subst send_body_loop.simps) simp
  also have "\<dots> = send_body_loop capacity payload offset (Suc n + m) frames"
    using Suc.prems by (intro Suc.IH) auto
  finally show ?case by simp
qed simp

lemma send_body_loop_ends:
  assumes cap: "\<And>n. capacity n \<noteq> None" and go: "\<And>n. \<exists>m. capacity (n + m) \<noteq> Some 0"
  shows "frames_ok payload offset frames \<Longrightarrow>
    \<exists>fs. send_body_loop capacity payload offset n frames = Some (Inr fs) \<and> frames_ok payload (length payload) fs
      \<and> length frames \<le> length fs"
proof (induction "length payload - offset" arbitrary: offset n frames rule: less_induct)
  case less
  show ?case
  proof (cases "length payload \<le> offset")
    case True
    then have "offset = length payload" using less.prems by (simp add: frames_ok_def)
    then show ?thesis using less.prems by (subst send_body_loop.simps) simp
  next
    case False
    define m where "m = (LEAST m. capacity (n + m) \<noteq> Some 0)"
    have m: "capacity (n + m) \<noteq> Some 0" unfolding m_def using go by (rule LeastI_ex)
    have "\<forall>j<m. capacity (n + j) = Some 0" unfolding m_def using not_less_Least by blast
    then have skip: "send_body_loop capacity payload offset n frames = send_body_loop capacity payload offset (n + m) frames"
      using False by (intro send_body_skip) simp_all
    obtain granted where g: "capacity (n + m) = Some granted" "0 < granted"
      using m cap [of "n + m"] by (cases "capacity (n + m)") auto
    define sz where "sz = min (min granted (16 * 1024)) (length payload - offset)"
    have sz: "0 < sz" "sz \<le> 16 * 1024" "sz \<le> length payload - offset" using g(2) False by (simp_all add: sz_def)
    have eq: "min (min granted 16384) (length payload - offset) = sz" by (simp add: sz_def)
    let ?frames = "frames @ [(slice offset (offset + sz) payload, offset + sz = length payload)]"
    have step: "send_body_loop capacity payload offset (n + m) frames
        = send_body_loop capacity payload (offset + sz) (Suc (n + m)) ?frames"
      using False g sz(1) eq by (subst send_body_loop.simps) (simp add: Let_def)
    have "length payload - (offset + sz) < length payload - offset" using sz by simp
    from less.hyps [OF this frames_ok_next [OF less.prems sz], of "Suc (n + m)"]
    show ?thesis using skip step by auto
  qed
qed

section \<open>Limits of the requests\<close>

text \<open>The numbers of the requests under way are those launched and not yet answered.\<close>

lemma http2_fill_bounds:
  assumes "http2_fill R launched pending t = (launched', pending', t')"
  shows "length pending' \<le> max (hr_concurrency R) (length pending)"
    and "launched' = launched + (length pending' - length pending)" and "length pending \<le> length pending'"
    and "hr_maximum R \<noteq> 0 \<Longrightarrow> launched \<le> hr_maximum R \<Longrightarrow> launched' \<le> hr_maximum R"
  using assms
proof (induction R launched pending t rule: http2_fill.induct)
  case (1 R launched pending t)
  obtain x y where xy: "http2_payload (hr_turns R) (hr_payloads R) launched = (x, y)"
    by (cases "http2_payload (hr_turns R) (hr_payloads R) launched")
  note IH = "1.IH" [OF _ xy [symmetric] refl]
  case 1 then show ?case using IH(1) xy by (auto simp: http2_fill.simps [of R launched] split: if_splits)
  case 2 then show ?case using IH(2,3) xy by (auto simp: http2_fill.simps [of R launched] split: if_splits)
  case 3 then show ?case using IH(3) xy by (auto simp: http2_fill.simps [of R launched] split: if_splits)
  case 4 then show ?case using IH(4) xy by (auto simp: http2_fill.simps [of R launched] may_launch_def split: if_splits)
qed

lemma http2_fill_launches:
  assumes "gate_enabled (hr_gate R t)" and "length pending < hr_concurrency R" and "may_launch R launched"
    and "http2_fill R launched pending t = (launched', pending', t')"
  shows "length pending < length pending'"
proof -
  obtain x y where xy: "http2_payload (hr_turns R) (hr_payloads R) launched = (x, y)"
    by (cases "http2_payload (hr_turns R) (hr_payloads R) launched")
  have "http2_fill R (launched + 1) (pending @ [(launched, x, y)]) (Suc t) = (launched', pending', t')"
    using assms xy by (subst (asm) http2_fill.simps) simp
  from http2_fill_bounds(3) [OF this] show ?thesis by simp
qed

lemma length_remove_nth: "k < length xs \<Longrightarrow> length (remove_nth k xs) = length xs - 1"
  by (simp add: remove_nth_def)

lemma http2_loop_ends:
  assumes gate: "\<And>t. gate_enabled (hr_gate R t)" and limits: "0 < hr_maximum R" "0 < hr_concurrency R"
    and answered: "\<And>i payload n. \<exists>r. http2_request (hr_answer R i payload n) payload = Inr r"
  shows "launched \<le> hr_maximum R \<Longrightarrow>
    \<exists>c'. http2_loop R launched pending t c = Some (Inr (), c')
      \<and> ct_transactions c' = ct_transactions c + of_nat (hr_maximum R - launched + length pending)"
proof (induction "hr_maximum R - launched + length pending" arbitrary: launched pending t c)
  case 0
  then have "hr_maximum R - launched = 0" "length pending = 0" by linarith+
  then have "\<not> may_launch R launched" "pending = []" using limits(1) by (simp_all add: may_launch_def)
  then show ?case using "0.hyps" by (subst http2_loop.simps) simp
next
  case (Suc n)
  obtain l p t1 where f: "http2_fill R launched pending (Suc t) = (l, p, t1)" by (cases "http2_fill R launched pending (Suc t)")
  note b = http2_fill_bounds [OF f]
  have go: "(gate_enabled (hr_gate R t) \<and> may_launch R launched) \<or> pending \<noteq> []"
    using Suc.hyps(2) gate by (auto simp: may_launch_def)
  have "p \<noteq> []"
  proof (cases "pending = []")
    case True
    then have "may_launch R launched" using go by simp
    with True have "length pending < length p" using http2_fill_launches [OF gate _ _ f] limits(2) by simp
    then show ?thesis by auto
  next
    case False
    then show ?thesis using b(3) by auto
  qed
  define k where "k = hr_next R t1 mod length p"
  have k: "k < length p" using \<open>p \<noteq> []\<close> by (simp add: k_def)
  obtain i payload m where pk: "p ! k = (i, payload, m)" by (cases "p ! k")
  obtain latency sent received where r: "http2_request (hr_answer R i payload m) payload = Inr (latency, sent, received)"
    using answered [of i payload m] by auto
  let ?c = "http2_completed (latency, sent, received) c"
  have step: "http2_loop R launched pending t c = http2_loop R l (remove_nth k p) t1 ?c"
    using go f \<open>p \<noteq> []\<close> pk r by (subst http2_loop.simps) (auto simp: Let_def simp flip: k_def)
  have l: "l \<le> hr_maximum R" using b(4) limits(1) Suc.prems by simp
  have len: "length (remove_nth k p) = length p - 1" using k by (rule length_remove_nth)
  have sum: "hr_maximum R - l + length p = hr_maximum R - launched + length pending"
    using b(2,3) l Suc.prems by simp
  have "n = hr_maximum R - l + length (remove_nth k p)" using Suc.hyps(2) sum len k by simp
  from Suc.hyps(1) [OF this l, of t1 ?c]
  obtain c' where c': "http2_loop R l (remove_nth k p) t1 ?c = Some (Inr (), c')"
    "ct_transactions c' = ct_transactions ?c + of_nat (hr_maximum R - l + length (remove_nth k p))" by auto
  have "ct_transactions ?c = ct_transactions c + 1"
    by (simp add: http2_completed_def push_http_latency_def transaction_completed_def add_rx_def add_tx_def)
  moreover have "hr_maximum R - launched + length pending = Suc (hr_maximum R - l + length (remove_nth k p))"
    using sum len k by simp
  ultimately show ?case using step c' by simp
qed

text \<open>
  C11. A connection of the HTTP/2 load ends with every transaction done. With the limits of a valid
  scenario that bounds the transactions of a connection, a gate that stays open and requests that
  are answered with success, in whatever order and however they are interleaved, the connection
  returns, it has counted exactly as many transactions as the scenario asks for, and the launching of
  requests never leaves more of them under way than the scenario allows concurrent streams.
\<close>

theorem http2_connection_completes:
  assumes "scenario_validate s = Inr ()" and "sc_protocol s = Http2" and "http2_limits s R"
    and "rq_transactions_per_connection (sc_request s) \<noteq> 0"
    and "\<And>t. gate_enabled (hr_gate R t)"
    and "\<And>i payload n. \<exists>r. http2_request (hr_answer R i payload n) payload = Inr r"
  shows "(\<exists>c'. http2_transactions R c = Some (Inr (), c')
      \<and> ct_transactions c' = ct_transactions c + of_nat (unat (rq_transactions_per_connection (sc_request s))))
    \<and> (\<forall>launched pending t. length pending \<le> unat (h2_max_concurrent_streams (sc_http2 s)) \<longrightarrow>
         length (fst (snd (http2_fill R launched pending t))) \<le> unat (h2_max_concurrent_streams (sc_http2 s)))"
proof -
  have "1 \<le> h2_max_concurrent_streams (sc_http2 s)"
    using assms(1,2) by (auto simp: scenario_validate_def protocol_checks_def simp del: run_checks.simps)
  then have "0 < hr_concurrency R" "0 < hr_maximum R"
    using assms(3,4) by (auto simp: http2_limits_def word_le_nat_alt unat_gt_0)
  then have "\<exists>c'. http2_transactions R c = Some (Inr (), c')
      \<and> ct_transactions c' = ct_transactions c + of_nat (unat (rq_transactions_per_connection (sc_request s)))"
    using http2_loop_ends [of R 0 "[]" 0 c] assms(3,5,6) by (simp add: http2_transactions_def http2_limits_def)
  moreover have "length (fst (snd (http2_fill R launched pending t))) \<le> unat (h2_max_concurrent_streams (sc_http2 s))"
    if "length pending \<le> unat (h2_max_concurrent_streams (sc_http2 s))" for launched pending t
    using http2_fill_bounds(1) [of R launched pending t] that assms(3)
    by (cases "http2_fill R launched pending t") (simp add: http2_limits_def)
  ultimately show ?thesis by blast
qed

definition http2_example :: scenario where
  "http2_example =
     (scenario_default 3 4)\<lparr>sc_path := ExplicitProxy ''a'' (V4 1) ''b'' (V4 2) 80 ''p:1'', sc_protocol := Http2,
       sc_tls := tls_profile_default\<lparr>tls_enabled := True, tls_server_cert_pem := Some ''c'', tls_server_key_pem := Some ''k''\<rparr>,
       sc_http2 := \<lparr>h2_max_concurrent_streams = 2\<rparr>,
       sc_request := http_request_profile_default\<lparr>rq_transactions_per_connection := 5\<rparr>\<rparr>"

definition h2_run_example :: h2_run where
  "h2_run_example =
     \<lparr>hr_maximum = 5, hr_concurrency = 2, hr_turns = None, hr_payloads = \<lparr>pr_request = [1], pr_response = [2]\<rparr>,
      hr_gate = (\<lambda>t. \<lparr>wg_running = True, wg_paused = False, wg_generating = True, wg_desired_clients = 1, wg_worker_index = 0\<rparr>),
      hr_answer = (\<lambda>i payload n. Inr \<lparr>hs_status = 200, hs_status_text = [], hs_chunks = [[2]], hs_latency_us = 7\<rparr>),
      hr_next = (\<lambda>t. t)\<rparr>"

theorem http2_connection_completes_witness:
  "\<exists>c'. http2_transactions h2_run_example (counters_default 0) = Some (Inr (), c') \<and> ct_transactions c' = 5"
proof -
  have v: "scenario_validate http2_example = Inr ()" "sc_protocol http2_example = Http2" by code_simp+
  have l: "http2_limits http2_example h2_run_example"
    by (simp add: http2_limits_def http2_example_def h2_run_example_def)
  show ?thesis
    using http2_connection_completes [OF v l, of "counters_default 0"]
    by (simp add: h2_run_example_def http2_example_def gate_enabled_def http2_request_def counters_default_def)
qed

text \<open>A body is sent once and whole, in frames of at most 16 KiB of which the last one ends the stream.\<close>

lemma send_body_complete:
  assumes "\<And>n. capacity n \<noteq> None" and "\<And>n. \<exists>m. capacity (n + m) \<noteq> Some 0"
  shows "\<exists>frames. send_body capacity payload = Some (Inr frames) \<and> concat (map fst frames) = payload
    \<and> frames \<noteq> [] \<and> map snd frames = map (\<lambda>i. Suc i = length frames) [0..<length frames]"
proof (cases "payload = []")
  case True
  then show ?thesis by (simp add: send_body_def)
next
  case False
  have "frames_ok payload 0 []" by (simp add: frames_ok_def)
  from send_body_loop_ends [OF assms this, of 0] obtain fs where
    "send_body capacity payload = Some (Inr fs)" "frames_ok payload (length payload) fs"
    using False by (auto simp: send_body_def)
  then show ?thesis using False by (auto simp: frames_ok_def)
qed

text \<open>
  The responder of a replay has the body of the first transaction of the first flow only: asked for a body of
  another length it sends zeroes.
\<close>

lemma replay_body_zeroes:
  "length body \<noteq> n \<Longrightarrow> n \<noteq> length (pr_response p) \<Longrightarrow> http2_reply_body p (Some body) n = replicate n 0"
  by (simp add: http2_reply_body_def)

end
