(* ===== verification/Runner.thy ===== *)
theory Runner
  imports Connector Workload_Http2 Workload_Tcp
begin

text \<open>
  A run on an agent (\<open>crates/agent/src/runner.rs\<close>): the clock of active time that follows the load
  schedule and leaves pauses out, what a worker does next, the whole of one connection on the
  client's and on the responder's side with its counters. Connections of a run share its counters by
  atomic additions; here they come one after the other. A connection whose protocol never returns is
  the error \<open>NeverReturns\<close>.
\<close>

section \<open>The environment of a run\<close>

record runner_env =
  rv_connect :: connect_env
  rv_error_text :: "work_error \<Rightarrow> bytes"
  rv_grant :: "u64 \<Rightarrow> nat \<Rightarrow> nat"
  rv_latency :: "u64 \<Rightarrow> nat \<Rightarrow> u64"
  rv_opened :: "u64 \<Rightarrow> nat"
  rv_closed :: "u64 \<Rightarrow> nat"
  rv_gate :: "u64 \<Rightarrow> nat \<Rightarrow> worker_gate"
  rv_h2 :: "u64 \<Rightarrow> io_stream \<Rightarrow> work_error + ((nat \<Rightarrow> bytes \<Rightarrow> nat \<Rightarrow> work_error + h2_response) \<times> (nat \<Rightarrow> nat))"

section \<open>A connection of the client\<close>

definition http2_workload :: "runner_env \<Rightarrow> u64 \<Rightarrow> scenario \<Rightarrow> prepared_payloads \<Rightarrow> replay_turn list option \<Rightarrow> unit action" where
  "http2_workload env idx s p turns w =
     (case rv_h2 env idx (fst w) of
        Inl e \<Rightarrow> (Inl e, w)
      | Inr (answer, nxt) \<Rightarrow>
          (case http2_transactions
              \<lparr>hr_maximum = unat (rq_transactions_per_connection (sc_request s)),
               hr_concurrency = unat (h2_max_concurrent_streams (sc_http2 s)), hr_turns = turns, hr_payloads = p,
               hr_gate = rv_gate env idx, hr_answer = answer, hr_next = nxt\<rparr> (snd w) of
             None \<Rightarrow> (Inl NeverReturns, w)
           | Some (r, c) \<Rightarrow> (r, fst w, c)))"

definition client_workload :: "runner_env \<Rightarrow> u64 \<Rightarrow> scenario \<Rightarrow> prepared_payloads \<Rightarrow> replay_turn list option \<Rightarrow> unit action" where
  "client_workload env idx s p turns =
     (if sc_protocol s = Http2 then http2_workload env idx s p turns
      else case turns of
        Some ts \<Rightarrow> replay_client (rv_latency env idx) (sc_protocol s = Http1) False ts
      | None \<Rightarrow>
          (case sc_protocol s of
             Http1 \<Rightarrow> http1_transactions (rv_grant env idx) (rv_latency env idx) (rv_gate env idx)
               (is_explicit_proxy s \<and> \<not> tls_enabled (sc_tls s)) s p
           | _ \<Rightarrow> tcp_transaction p))"

text \<open>The guard of an active connection is dropped at the end of the connection, however it ends.\<close>

definition open_guard :: "nat \<Rightarrow> counters \<Rightarrow> counters" where
  "open_guard now c = c\<lparr>ct_active := connection_opened now (ct_active c)\<rparr>"

definition drop_guard :: "nat \<Rightarrow> counters \<Rightarrow> counters" where
  "drop_guard now c = c\<lparr>ct_active := connection_dropped now (ct_active c)\<rparr>"

definition is_http :: "scenario \<Rightarrow> bool" where
  "is_http s \<longleftrightarrow> sc_protocol s \<in> {Http1, Http2}"

definition transact :: "runner_env \<Rightarrow> scenario \<Rightarrow> prepared_payloads \<Rightarrow> replay_turn list option \<Rightarrow> u64 \<Rightarrow> counters
    \<Rightarrow> (work_error + unit) \<times> counters" where
  "transact env s p turns idx c =
     (case connect_tcp (rv_connect env) s idx c of
        (Inl e, c) \<Rightarrow> (Inl e, c)
      | (Inr st, c) \<Rightarrow>
          (case bind_w (upgrade (rv_connect env) idx s) (\<lambda>_. client_workload env idx s p turns)
              (st, open_guard (rv_opened env idx) c) of
             (r, _, c) \<Rightarrow>
               (r, drop_guard (rv_closed env idx) (if \<not> isl r \<and> \<not> is_http s then transaction_completed c else c))))"

definition next_replay_flow :: "replay_flow list option \<Rightarrow> u64 \<Rightarrow> replay_flow option \<times> u64" where
  "next_replay_flow flows next_flow =
     (case flows of
        None \<Rightarrow> (None, next_flow)
      | Some fs \<Rightarrow> (Some (fs ! (unat next_flow mod length fs)), next_flow + 1))"

definition execute_connection :: "runner_env \<Rightarrow> scenario \<Rightarrow> prepared_payloads \<Rightarrow> replay_flow list option
    \<Rightarrow> u64 \<times> counters \<Rightarrow> u64 \<times> counters" where
  "execute_connection env s p flows x =
     (let (next_flow, c) = x;
          connection_index = ct_attempted c;
          c = c\<lparr>ct_attempted := ct_attempted c + 1\<rparr>;
          (flow, next_flow) = next_replay_flow flows next_flow
      in case transact env s p flow connection_index c of
           (Inr _, c) \<Rightarrow> (next_flow, c)
         | (Inl e, c) \<Rightarrow>
             (next_flow, record_failure (rv_error_text env e)
                (c\<lparr>ct_failed := ct_failed c + 1, ct_transaction_errors := ct_transaction_errors c + 1\<rparr>)))"

section \<open>A worker and the clock\<close>

datatype worker_action = WorkerEnds | WorkerSleeps | WorkerConnects

definition worker_next :: "worker_gate \<Rightarrow> worker_action" where
  "worker_next g =
     (if \<not> (wg_running g \<and> wg_generating g) then WorkerEnds
      else if wg_paused g \<or> wg_desired_clients g \<le> wg_worker_index g then WorkerSleeps
      else WorkerConnects)"

text \<open>The indices of the workers a client starts.\<close>

definition client_workers :: "scenario \<Rightarrow> nat list" where
  "client_workers s = [0..<unat (maximum_virtual_clients s)]"

text \<open>
  What a round of the clock finds: the two flags and the time on the monotonic clock in
  nanoseconds. The state of a clock is the active time so far, the time of the last round and
  what it last stored for the workers and the report.
\<close>

record tick =
  tk_running :: bool
  tk_paused :: bool
  tk_now :: nat

record load_clock =
  lc_elapsed :: nat
  lc_last :: nat
  lc_stage :: u32
  lc_desired :: u32
  lc_included :: bool

definition clock_start :: "nat \<Rightarrow> load_clock" where
  "clock_start now = \<lparr>lc_elapsed = 0, lc_last = now, lc_stage = 0, lc_desired = 0, lc_included = False\<rparr>"

definition load_tick :: "scenario \<Rightarrow> tick \<Rightarrow> load_clock \<Rightarrow> load_clock" where
  "load_tick s o' st =
     (if tk_paused o' then st\<lparr>lc_last := tk_now o'\<rparr>
      else
        let elapsed = lc_elapsed st + (tk_now o' - lc_last st);
            (stage, desired, included) = load_at s (of_nat (elapsed div 1000000))
        in \<lparr>lc_elapsed = elapsed, lc_last = tk_now o', lc_stage = of_nat stage, lc_desired = desired, lc_included = included\<rparr>)"

definition store_clock :: "load_clock \<Rightarrow> counters \<Rightarrow> counters" where
  "store_clock st c =
     c\<lparr>ct_load_stage_index := lc_stage st, ct_desired_virtual_clients := lc_desired st,
       ct_included_in_results := lc_included st\<rparr>"

partial_function (option) clock_loop :: "scenario \<Rightarrow> nat \<Rightarrow> (nat \<Rightarrow> tick) \<Rightarrow> nat \<Rightarrow> load_clock \<Rightarrow> (nat \<times> load_clock) option" where
  "clock_loop s duration rounds n st =
     (if lc_elapsed st < duration \<and> tk_running (rounds n)
      then clock_loop s duration rounds (Suc n) (load_tick s (rounds n) st)
      else Some (n, st))"

definition client_duration :: "scenario \<Rightarrow> nat" where
  "client_duration s = unat (effective_duration_secs s) * 1000000000"

definition server_duration :: "scenario \<Rightarrow> nat" where
  "server_duration s = unat (effective_duration_secs s * 1000 + 700) * 1000000"

text \<open>The client's clock from \<open>now\<close> on: the number of rounds and the state at the end.\<close>

definition client_clock :: "scenario \<Rightarrow> nat \<Rightarrow> (nat \<Rightarrow> tick) \<Rightarrow> (nat \<times> load_clock) option" where
  "client_clock s now rounds = clock_loop s (client_duration s) rounds 0 (clock_start now)"

definition server_clock :: "scenario \<Rightarrow> nat \<Rightarrow> (nat \<Rightarrow> tick) \<Rightarrow> (nat \<times> load_clock) option" where
  "server_clock s now rounds = clock_loop s (server_duration s) rounds 0 (clock_start now)"

section \<open>A connection of the responder\<close>

text \<open>What HTTP/2 gives the responder: for each request its length header, its body and whether the answer was sent.\<close>

record server_env =
  sv_tls :: "nat \<Rightarrow> io_stream \<Rightarrow> io_stream option"
  sv_h2 :: "nat \<Rightarrow> io_stream \<Rightarrow> (string option \<times> (work_error + bytes list) \<times> bool) list \<times> bool"
  sv_grant :: "nat \<Rightarrow> nat \<Rightarrow> nat"
  sv_opened :: "nat \<Rightarrow> nat"
  sv_closed :: "nat \<Rightarrow> nat"

definition http2_replay_response :: "replay_flow list option \<Rightarrow> bytes option" where
  "http2_replay_response flows =
     (case flows of
        Some (flow # _) \<Rightarrow> if 1 < length flow then Some (rt_payload (flow ! 1)) else None
      | _ \<Rightarrow> None)"

definition http2_serve :: "server_env \<Rightarrow> nat \<Rightarrow> prepared_payloads \<Rightarrow> bytes option \<Rightarrow> unit action" where
  "http2_serve env k p replay_response w =
     (let (requests, ok) = sv_h2 env k (fst w)
      in (if ok then Inr () else Inl (Http2Failed []), fst w,
          fold (\<lambda>(header, body, sent) c. snd (http2_serve_request p replay_response header body sent c)) requests (snd w)))"

definition server_workload :: "server_env \<Rightarrow> nat \<Rightarrow> scenario \<Rightarrow> prepared_payloads \<Rightarrow> replay_flow list option \<Rightarrow> unit action" where
  "server_workload env k s p flows =
     (if sc_protocol s = Http2 then http2_serve env k p (http2_replay_response flows)
      else case flows of
        Some fs \<Rightarrow> replay_server_detect (sc_protocol s = Http1) fs
      | None \<Rightarrow> if sc_protocol s = Http1 then http1_serve (sv_grant env k) p else tcp_serve p)"

definition server_connection :: "server_env \<Rightarrow> nat \<Rightarrow> scenario \<Rightarrow> prepared_payloads \<Rightarrow> replay_flow list option \<Rightarrow> io_stream
    \<Rightarrow> counters \<Rightarrow> counters" where
  "server_connection env k s p flows st c =
     (let c = open_guard (sv_opened env k) (connection_established c)
      in drop_guard (sv_closed env k)
           (case (if tls_enabled (sc_tls s) then sv_tls env k st else Some st) of
              None \<Rightarrow> transaction_failed c
            | Some st \<Rightarrow>
                (case server_workload env k s p flows (st, c) of
                   (Inr _, _, c) \<Rightarrow> if is_http s then c else transaction_completed c
                 | (Inl _, _, c) \<Rightarrow> transaction_failed c)))"

end
