(* ===== verification/Http1_Facts.thy ===== *)
theory Http1_Facts
  imports Workload_Http1
begin

text \<open>
  Client and responder of the HTTP/1.1 load: where a header ends, which fields are found in it, how a
  message is read whatever the sizes of the pieces it arrives in, and the whole connection of a
  client against the responder.
\<close>

section \<open>Where a header ends\<close>

lemma find_sub_skip:
  "a \<notin> set xs \<Longrightarrow> find_sub (a # p) (xs @ ys) = map_option (\<lambda>i. length xs + i) (find_sub (a # p) ys)"
  by (induction xs) (auto simp: find_sub_def map_option_case split: option.splits)

lemma find_sub_line_end:
  assumes "a \<noteq> b" and "\<forall>l\<in>set ls. l \<noteq> [] \<and> a \<notin> set l" and "ls \<noteq> []"
  shows "find_sub [a, b, a, b] (concat (map (\<lambda>l. l @ [a, b]) ls) @ [a, b])
    = Some (length (concat (map (\<lambda>l. l @ [a, b]) ls) @ [a, b]) - 4)"
  using assms(2,3)
proof (induction ls)
  case (Cons l ls)
  show ?case
  proof (cases ls)
    case Nil
    then show ?thesis using Cons.prems by (simp add: find_sub_skip) (simp add: find_sub_def)
  next
    case (Cons m ms)
    obtain x m' where m: "m = x # m'" "x \<noteq> a" using Cons Cons.prems by (cases m) auto
    let ?rest = "concat (map (\<lambda>l. l @ [a, b]) ls) @ [a, b]"
    have rest: "?rest = x # m' @ [a, b] @ concat (map (\<lambda>l. l @ [a, b]) ms) @ [a, b]" by (simp add: Cons m)
    have ih: "find_sub [a, b, a, b] ?rest = Some (length ?rest - 4)"
      using Cons.IH Cons.prems by (simp add: Cons)
    have "find_sub [a, b, a, b] ([a, b] @ ?rest) = Some (2 + (length ?rest - 4))"
      using ih assms(1) m(2) unfolding rest by (simp add: find_sub_def)
    moreover have "4 \<le> length ?rest" by (simp add: Cons m)
    ultimately show ?thesis
      using Cons.prems(1) find_sub_skip [of a l "[b, a, b]" "[a, b] @ ?rest"] by simp
  qed
qed simp

definition header_line :: "string \<Rightarrow> bool" where
  "header_line l \<longleftrightarrow> l \<noteq> [] \<and> (\<forall>c\<in>set l. of_char c < (128 :: nat) \<and> c \<noteq> CHR 0x0D \<and> c \<noteq> CHR 0x0A)"

lemma unat_of_char [simp]: "unat (of_char c :: u8) = of_char c"
  by (simp add: unat_of_nat flip: of_nat_of_char [where 'a = u8])

lemma of_char_eq_13: "of_char c = (13 :: u8) \<longleftrightarrow> c = CHR 0x0D"
proof -
  have "of_char c = (13 :: u8) \<longleftrightarrow> unat (of_char c :: u8) = unat (13 :: u8)" by (simp only: word_unat_eq_iff)
  also have "\<dots> \<longleftrightarrow> of_char c = (of_char (CHR 0x0D) :: nat)" by simp
  finally show ?thesis by (simp only: of_char_eq_iff)
qed

lemma bytes_of_lines:
  "bytes_of (http_lines ls) = concat (map (\<lambda>l. l @ [13, 10]) (map bytes_of ls)) @ [13, 10]"
  by (induction ls) (simp_all add: http_lines_def bytes_of_def)

lemma header_end:
  assumes "ls \<noteq> []" and "\<forall>l\<in>set ls. header_line l"
  shows "find_sub crlf2 (bytes_of (http_lines ls)) = Some (length (http_lines ls) - 4)"
proof -
  have "\<forall>l\<in>set (map bytes_of ls). l \<noteq> [] \<and> 13 \<notin> set l"
    using assms(2) by (fastforce simp: header_line_def bytes_of_def of_char_eq_13)
  then have "find_sub crlf2 (bytes_of (http_lines ls)) = Some (length (bytes_of (http_lines ls)) - 4)"
    unfolding bytes_of_lines crlf2_def using assms(1) by (intro find_sub_line_end) auto
  then show ?thesis by simp
qed

section \<open>The fields of a header\<close>

lemma text_of_ascii:
  assumes "\<forall>c\<in>set t. of_char c < (128 :: nat)"
  shows "text_of (bytes_of t) = t"
proof -
  have "utf8_lossy (bytes_of t) = bytes_of t" using assms by (intro utf8_lossy_ascii) (auto simp: bytes_of_def)
  then show ?thesis by (simp add: text_of_def bytes_of_def map_idI)
qed

lemma lines_of_http:
  assumes "\<forall>l\<in>set ls. header_line l"
  shows "str_lines (http_lines ls) = ls @ [[]]"
proof -
  have s: "split_by ((=) (CHR 0x0A)) (http_lines ls) = map (\<lambda>l. l @ [CHR 0x0D]) ls @ [[CHR 0x0D], []]"
    using assms
  proof (induction ls)
    case (Cons l ls)
    have "\<forall>x\<in>set (l @ [CHR 0x0D]). \<not> CHR 0x0A = x" using Cons.prems by (auto simp: header_line_def)
    from split_by_append_sep [OF this, of "CHR 0x0A" "http_lines ls"] show ?case
      using Cons by (simp add: http_lines_def)
  qed (simp add: http_lines_def)
  have "strip_suffix (l @ [CHR 0x0D]) [CHR 0x0D] = Some l" for l
    by (simp add: strip_suffix_def ends_with_def)
  moreover have "strip_suffix [CHR 0x0D] [CHR 0x0D] = Some []" by (simp add: strip_suffix_def ends_with_def)
  ultimately show ?thesis unfolding str_lines_def s by (simp add: Let_def butlast_append comp_def)
qed

lemma fields_of_http:
  assumes "\<forall>l\<in>set ls. header_line l"
  shows "header_fields (bytes_of (http_lines ls)) = List.map_filter (split_once (CHR '':'')) ls"
proof -
  have "\<forall>c\<in>set (http_lines ls). of_char c < (128 :: nat)" using assms by (auto simp: http_lines_def header_line_def)
  then show ?thesis
    by (simp add: header_fields_def text_of_ascii lines_of_http [OF assms] map_filter_def split_once_def)
qed

text \<open>A value is trimmed of the space before it.\<close>

definition printable :: "char \<Rightarrow> bool" where
  "printable c \<longleftrightarrow> 32 < (of_char c :: nat) \<and> of_char c < (127 :: nat)"

lemma white_space_ends:
  "\<forall>w\<in>set white_space. w \<noteq> [] \<and> (hd w \<le> 32 \<or> 127 \<le> hd w) \<and> (last w \<le> 32 \<or> 127 \<le> last w)"
  by (auto simp: white_space_def)

lemma strip_ws_none:
  assumes "\<forall>w\<in>set ws. w \<noteq> [] \<and> hd w \<noteq> c"
  shows "strip_ws ws k (c # r) = c # r"
proof -
  have "\<not> starts_with (c # r) w" if "w \<in> set ws" for w
    using assms that by (cases w) (auto simp: starts_with_def)
  then have "find (starts_with (c # r)) ws = None" by (auto simp: find_None_iff)
  then show ?thesis by (cases k) simp_all
qed

lemma printable_no_space:
  assumes "printable c"
  shows "\<forall>w\<in>set white_space. w \<noteq> [] \<and> hd w \<noteq> of_char c \<and> last w \<noteq> of_char c"
proof
  fix w assume "w \<in> set white_space"
  from bspec [OF white_space_ends this] assms show "w \<noteq> [] \<and> hd w \<noteq> of_char c \<and> last w \<noteq> of_char c"
    by (auto simp: printable_def)
qed

lemma str_trim_word:
  assumes "t \<noteq> []" and "printable (hd t)" and "printable (last t)"
  shows "str_trim (CHR '' '' # t) = t"
proof -
  let ?cs = "map of_char t :: nat list"
  obtain b u where b: "t = b # u" using assms(1) by (cases t) auto
  obtain v e where e: "t = v @ [e]" using assms(1) by (cases t rule: rev_cases) auto
  have "find (starts_with (32 # ?cs)) white_space = Some [32]" by (simp add: white_space_def starts_with_def)
  moreover have "strip_ws white_space k ?cs = ?cs" for k
    using printable_no_space [of b] assms(2) unfolding b list.map by (intro strip_ws_none) simp
  ultimately have front: "strip_ws white_space (Suc (length ?cs)) (32 # ?cs) = ?cs" by simp
  have "\<forall>w\<in>set (map rev white_space). w \<noteq> [] \<and> hd w \<noteq> of_char e"
    using printable_no_space [of e] assms(3) by (auto simp: e hd_rev)
  then have rear: "strip_ws (map rev white_space) k (rev ?cs) = rev ?cs" for k
    by (simp add: e strip_ws_none)
  show ?thesis using front rear by (simp add: str_trim_def Let_def comp_def)
qed

lemma printable_show_nat: "c \<in> set (show_nat n) \<Longrightarrow> printable c"
  using show_radix_digits [of 10 c n] by (auto simp: show_nat_def printable_def of_digit_char)

lemma trim_number [simp]: "str_trim (CHR '' '' # show_nat n) = show_nat n"
  by (rule str_trim_word) (simp_all add: printable_show_nat [OF hd_in_set] printable_show_nat [OF last_in_set])

lemma trim_connection [simp]:
  "str_trim '' keep-alive'' = ''keep-alive''" "str_trim '' close'' = ''close''"
  by (rule str_trim_word; simp add: printable_def)+

section \<open>Reading a message in pieces\<close>

text \<open>A piece is never empty while bytes are still to come.\<close>

lemma read_some_piece:
  assumes "io_in (fst w) \<noteq> []"
  obtains chunk rest where "read_some grant 8192 w = (Inr chunk, (fst w)\<lparr>io_in := rest\<rparr>, snd w)"
    "chunk \<noteq> []" "io_in (fst w) = chunk @ rest"
proof
  let ?n = "min 8192 (max 1 (grant (length (io_in (fst w)))))"
  show "read_some grant 8192 w = (Inr (take ?n (io_in (fst w))), (fst w)\<lparr>io_in := drop ?n (io_in (fst w))\<rparr>, snd w)"
    using assms by (simp add: read_some_def Let_def)
  show "take ?n (io_in (fst w)) \<noteq> []" using assms by simp
qed simp

text \<open>What is read is what was asked for, and only the bytes to come change.\<close>

definition reads_to :: "bytes \<Rightarrow> bytes \<Rightarrow> work \<Rightarrow> work \<Rightarrow> bool" where
  "reads_to rest pending w w' \<longleftrightarrow> (\<exists>left. w' = ((fst w)\<lparr>io_in := left\<rparr>, snd w) \<and> pending @ left = rest)"

lemma reads_to_refl: "pending @ io_in (fst w) = rest \<Longrightarrow> reads_to rest pending w w"
  by (auto simp: reads_to_def intro!: exI [of _ "io_in (fst w)"])

lemma reads_to_after:
  "reads_to rest pending w w' \<Longrightarrow> reads_to rest' pending' w' w'' \<Longrightarrow> reads_to rest' pending' w w''"
  by (auto simp: reads_to_def)

lemma read_headers_reads:
  assumes head: "find_sub crlf2 head = Some (length head - 4)"
  shows "length head \<le> limit \<Longrightarrow> pending @ io_in (fst w) = head @ rest \<Longrightarrow>
    \<exists>pending' w'. read_headers grant limit pending w = (Inr (head, pending'), w') \<and> reads_to rest pending' w w'"
proof (induction grant limit pending w rule: read_headers.induct)
  case (1 grant limit pending w)
  have four: "4 \<le> length head" using find_sub_bound [OF head] by simp
  show ?case
  proof (cases "length head \<le> length pending")
    case True
    define more where "more = drop (length head) pending"
    have "take (length head) pending = head" and "more @ io_in (fst w) = rest"
      using arg_cong [OF "1.prems"(2), of "take (length head)"] arg_cong [OF "1.prems"(2), of "drop (length head)"] True
      by (simp_all add: more_def)
    then have more: "pending = head @ more" "more @ io_in (fst w) = rest"
      unfolding more_def by (metis append_take_drop_id)+
    have "find_sub crlf2 pending = Some (length head - 4)" unfolding more(1) by (rule find_sub_append [OF head])
    then show ?thesis using more four by (subst read_headers.simps) (simp add: reads_to_refl)
  next
    case False
    define more where "more = drop (length pending) head"
    have "take (length pending) head = pending" and "io_in (fst w) = more @ rest"
      using arg_cong [OF "1.prems"(2), of "take (length pending)"] arg_cong [OF "1.prems"(2), of "drop (length pending)"] False
      by (simp_all add: more_def)
    then have more: "head = pending @ more" "io_in (fst w) = more @ rest"
      unfolding more_def by (metis append_take_drop_id)+
    have none: "find_sub crlf2 pending = None"
    proof (cases "find_sub crlf2 pending")
      case (Some i)
      then have "find_sub crlf2 head = Some i" unfolding more(1) by (rule find_sub_append)
      then show ?thesis using head find_sub_bound [OF Some] False four by simp
    qed
    have "io_in (fst w) \<noteq> []" using False more by auto
    then obtain chunk left where r: "read_some grant 8192 w = (Inr chunk, (fst w)\<lparr>io_in := left\<rparr>, snd w)"
      "chunk \<noteq> []" "io_in (fst w) = chunk @ left" by (rule read_some_piece)
    have "(pending @ chunk) @ io_in (fst ((fst w)\<lparr>io_in := left\<rparr>, snd w)) = head @ rest"
      using "1.prems"(2) r(3) by simp
    moreover have fits: "\<not> limit < length pending" using False "1.prems"(1) by linarith
    ultimately obtain pending' w' where
      "read_headers grant limit (pending @ chunk) ((fst w)\<lparr>io_in := left\<rparr>, snd w) = (Inr (head, pending'), w')"
      "reads_to rest pending' ((fst w)\<lparr>io_in := left\<rparr>, snd w) w'"
      using "1.IH" [OF none fits r(1) [symmetric] refl r(2) "1.prems"(1)] by blast
    then show ?thesis using none r(1,2) fits
      by (subst read_headers.simps) (auto simp: reads_to_def)
  qed
qed

lemma read_body_reads:
  "pending @ io_in (fst w) = body @ rest \<Longrightarrow>
    \<exists>pending' w'. read_body grant (length body) pending w = (Inr (body @ pending'), w') \<and> reads_to rest pending' w w'"
proof (induction grant "length body" pending w rule: read_body.induct)
  case (1 grant pending w)
  show ?case
  proof (cases "length body \<le> length pending")
    case True
    define more where "more = drop (length body) pending"
    have "take (length body) pending = body" and "more @ io_in (fst w) = rest"
      using arg_cong [OF "1.prems", of "take (length body)"] arg_cong [OF "1.prems", of "drop (length body)"] True
      by (simp_all add: more_def)
    then have "pending = body @ more" "more @ io_in (fst w) = rest"
      unfolding more_def by (metis append_take_drop_id)+
    then show ?thesis by (subst read_body.simps) (simp add: reads_to_refl)
  next
    case False
    then have "io_in (fst w) \<noteq> []" using arg_cong [OF "1.prems", of length] by auto
    then obtain chunk left where r: "read_some grant 8192 w = (Inr chunk, (fst w)\<lparr>io_in := left\<rparr>, snd w)"
      "chunk \<noteq> []" "io_in (fst w) = chunk @ left" by (rule read_some_piece)
    have "(pending @ chunk) @ io_in (fst ((fst w)\<lparr>io_in := left\<rparr>, snd w)) = body @ rest"
      using "1.prems" r(3) by simp
    with "1.hyps" [OF False r(1) [symmetric] refl r(2)]
    obtain pending' w' where
      "read_body grant (length body) (pending @ chunk) ((fst w)\<lparr>io_in := left\<rparr>, snd w) = (Inr (body @ pending'), w')"
      "reads_to rest pending' ((fst w)\<lparr>io_in := left\<rparr>, snd w) w'" by force
    then show ?thesis using r(1,2) False by (subst read_body.simps) (auto simp: reads_to_def)
  qed
qed

text \<open>A message is a header and as many bytes as it says.\<close>

definition http_message :: "bytes \<Rightarrow> bytes \<Rightarrow> bool" where
  "http_message head body \<longleftrightarrow>
     find_sub crlf2 head = Some (length head - 4) \<and> length head \<le> 65536 \<and> content_length head = length body"

lemma read_message_reads:
  assumes m: "http_message head body" and w: "pending @ io_in (fst w) = head @ body @ rest"
  obtains pending' w' where "read_message grant (64 * 1024) pending w = (Inr (head, length body, pending'), w')"
    "reads_to rest pending' w w'"
proof -
  have head: "find_sub crlf2 head = Some (length head - 4)" "length head \<le> 64 * 1024"
    using m by (simp_all add: http_message_def)
  obtain p1 w1 where h: "read_headers grant (64 * 1024) pending w = (Inr (head, p1), w1)" "reads_to (body @ rest) p1 w w1"
    using read_headers_reads [OF head(1,2) w] by blast
  then obtain p2 w2 where b: "read_body grant (length body) p1 w1 = (Inr (body @ p2), w2)" "reads_to rest p2 w1 w2"
    using read_body_reads [of p1 w1 body rest grant] by (auto simp: reads_to_def)
  show thesis
  proof
    show "read_message grant (64 * 1024) pending w = (Inr (head, length body, p2), w2)"
      using h(1) b(1) m by (simp add: read_message_def bind_w_def return_w_def http_message_def Let_def)
    show "reads_to rest p2 w w2" by (rule reads_to_after [OF h(2) b(2)])
  qed
qed

section \<open>The messages of both sides\<close>

lemma find_map_filter:
  "find P (List.map_filter f (x # xs)) =
     (case f x of None \<Rightarrow> find P (List.map_filter f xs) | Some y \<Rightarrow> if P y then Some y else find P (List.map_filter f xs))"
  by (simp add: map_filter_def split: option.splits)

lemma ex_map_filter:
  "list_ex P (List.map_filter f (x # xs)) \<longleftrightarrow>
     (case f x of None \<Rightarrow> False | Some y \<Rightarrow> P y) \<or> list_ex P (List.map_filter f xs)"
  by (simp add: map_filter_def split: option.splits)

lemma map_filter_Nil: "List.map_filter f [] = []"
  by (simp add: map_filter_def)

text \<open>A name with a space in it is none of the fields looked for.\<close>

lemma space_char: "char_of (32 :: nat) = CHR '' ''"
proof -
  have "char_of (of_char (CHR '' '') :: nat) = CHR '' ''" by (rule char_of_char)
  then show ?thesis by simp
qed

lemma named_space:
  assumes "CHR '' '' \<in> set h" and "CHR '' '' \<notin> set name"
  shows "\<not> named name (h, v)"
proof
  assume "named name (h, v)"
  then have eq: "map (to_ascii_lowercase \<circ> of_char) h = map (to_ascii_lowercase \<circ> of_char) name"
    by (simp add: named_def eq_ignore_ascii_case_def bytes_of_def)
  have "(32 :: u8) \<in> (to_ascii_lowercase \<circ> of_char) ` set h"
    using assms(1) by (rule rev_image_eqI) (simp add: to_ascii_lowercase_def is_ascii_uppercase_def)
  then have "(32 :: u8) \<in> (to_ascii_lowercase \<circ> of_char) ` set name" using eq by (metis list.set_map)
  then obtain c where c: "c \<in> set name" "to_ascii_lowercase (of_char c) = (32 :: u8)" by auto
  have "of_char c = (32 :: u8)"
  proof (cases "is_ascii_uppercase (of_char c)")
    case True
    then have "of_char c + 32 = (32 :: u8)" using c(2) by (simp add: to_ascii_lowercase_def)
    then have "of_char c = (0 :: u8)" by simp
    with True show ?thesis by (simp add: is_ascii_uppercase_def)
  qed (use c(2) in \<open>simp add: to_ascii_lowercase_def\<close>)
  then have "unat (of_char c :: u8) = 32" by simp
  then have "c = CHR '' ''" by (metis char_of_char space_char unat_of_char)
  with c(1) assms(2) show False by simp
qed

text \<open>A request line is none of the fields either when its method has no colon.\<close>

lemma request_line_skip:
  assumes "CHR '':'' \<notin> set method" and "CHR '' '' \<notin> set name"
  shows "find (named name) (List.map_filter (split_once (CHR '':'')) ((method @ '' '' @ t) # ls))
      = find (named name) (List.map_filter (split_once (CHR '':'')) ls)"
    and "list_ex (\<lambda>f. named name f \<and> P f) (List.map_filter (split_once (CHR '':'')) ((method @ '' '' @ t) # ls))
      \<longleftrightarrow> list_ex (\<lambda>f. named name f \<and> P f) (List.map_filter (split_once (CHR '':'')) ls)"
proof -
  have "\<not> named name f" if "split_once (CHR '':'') (method @ '' '' @ t) = Some f" for f
  proof -
    obtain h v where f: "f = (h, v)" by (cases f)
    then have l: "method @ '' '' @ t = h @ CHR '':'' # v" using split_once_Some [of "CHR '':''" _ h v] that by blast
    have "CHR '' '' \<in> set h"
    proof (rule ccontr)
      assume no: "CHR '' '' \<notin> set h"
      from l consider us where "method = h @ us" "us @ '' '' @ t = CHR '':'' # v"
        | us where "method @ us = h" "'' '' @ t = us @ CHR '':'' # v"
        by (auto simp: append_eq_append_conv2)
      then show False
      proof cases
        case 1
        then show False using assms(1) by (cases us) auto
      next
        case 2
        then show False using no by (cases us) auto
      qed
    qed
    then show ?thesis using named_space assms(2) f by blast
  qed
  then show "find (named name) (List.map_filter (split_once (CHR '':'')) ((method @ '' '' @ t) # ls))
      = find (named name) (List.map_filter (split_once (CHR '':'')) ls)"
    and "list_ex (\<lambda>f. named name f \<and> P f) (List.map_filter (split_once (CHR '':'')) ((method @ '' '' @ t) # ls))
      \<longleftrightarrow> list_ex (\<lambda>f. named name f \<and> P f) (List.map_filter (split_once (CHR '':'')) ls)"
    by (auto simp: find_map_filter ex_map_filter split: option.splits)
qed

lemma field_lines:
  "split_once (CHR '':'') (''Host: '' @ v) = Some (''Host'', CHR '' '' # v)"
  "split_once (CHR '':'') (''Connection: '' @ v) = Some (''Connection'', CHR '' '' # v)"
  "split_once (CHR '':'') (''Content-Length: '' @ v) = Some (''Content-Length'', CHR '' '' # v)"
  "split_once (CHR '':'') (''X-Response-Bytes: '' @ v) = Some (''X-Response-Bytes'', CHR '' '' # v)"
  "split_once (CHR '':'') ''HTTP/1.1 200 OK'' = None"
  by (simp_all add: split_once_def)

lemmas named_eval = named_def eq_ignore_ascii_case_def bytes_of_def to_ascii_lowercase_def is_ascii_uppercase_def

lemma field_names:
  "\<not> named ''content-length'' (''Host'', v)" "\<not> named ''x-response-bytes'' (''Host'', v)"
  "\<not> named ''connection'' (''Host'', v)" "\<not> named ''content-length'' (''Connection'', v)"
  "\<not> named ''x-response-bytes'' (''Connection'', v)" "named ''connection'' (''Connection'', v)"
  "named ''content-length'' (''Content-Length'', v)" "\<not> named ''x-response-bytes'' (''Content-Length'', v)"
  "\<not> named ''connection'' (''Content-Length'', v)" "named ''x-response-bytes'' (''X-Response-Bytes'', v)"
  "\<not> named ''connection'' (''X-Response-Bytes'', v)"
  by (simp_all add: named_eval)

lemma connection_values:
  "eq_ignore_ascii_case (bytes_of ''keep-alive'') (bytes_of ''keep-alive'')"
  "\<not> eq_ignore_ascii_case (bytes_of ''close'') (bytes_of ''keep-alive'')"
  by (simp_all add: named_eval)

lemmas field_simps = find_map_filter ex_map_filter map_filter_Nil field_lines [unfolded append.simps] field_names connection_values

text \<open>What a scenario must not have in the texts of a request, and sizes that fit.\<close>

definition header_text :: "string \<Rightarrow> bool" where
  "header_text t \<longleftrightarrow> (\<forall>c\<in>set t. of_char c < (128 :: nat) \<and> c \<noteq> CHR 0x0D \<and> c \<noteq> CHR 0x0A)"

definition request_ok :: "bool \<Rightarrow> scenario \<Rightarrow> prepared_payloads \<Rightarrow> bool" where
  "request_ok absolute s p \<longleftrightarrow>
     header_text (rq_method (sc_request s)) \<and> CHR '':'' \<notin> set (rq_method (sc_request s))
   \<and> header_text (request_target absolute s) \<and> header_text (rq_host (sc_request s))
   \<and> length (http1_request absolute s p False) \<le> 65536
   \<and> length (pr_request p) < 2 ^ 64 \<and> length (pr_response p) < 2 ^ 64"

lemma header_text_nat [simp]: "header_text (show_nat n)"
  unfolding header_text_def
proof
  fix c assume "c \<in> set (show_nat n)"
  then have "printable c" by (rule printable_show_nat)
  then show "of_char c < (128 :: nat) \<and> c \<noteq> CHR 0x0D \<and> c \<noteq> CHR 0x0A" by (auto simp: printable_def)
qed

lemma header_line_append: "header_line (a @ b) \<longleftrightarrow> header_text a \<and> header_text b \<and> (a \<noteq> [] \<or> b \<noteq> [])"
  by (auto simp: header_line_def header_text_def)

lemma header_text_append: "header_text (a @ b) \<longleftrightarrow> header_text a \<and> header_text b"
  by (auto simp: header_text_def)

lemma header_text_Cons [simp]:
  "header_text []"
  "header_text (c # t) \<longleftrightarrow> of_char c < (128 :: nat) \<and> c \<noteq> CHR 0x0D \<and> c \<noteq> CHR 0x0A \<and> header_text t"
  "header_line (c # t) \<longleftrightarrow> header_text (c # t)"
  by (auto simp: header_text_def header_line_def)

lemma length_show_radix: "n < r ^ Suc k \<Longrightarrow> length (show_radix r n) \<le> Suc k"
proof (induction k arbitrary: n)
  case 0
  then show ?case by (subst show_radix.simps) simp
next
  case (Suc k)
  show ?case
  proof (cases "n < r \<or> r < 2")
    case False
    then have "n div r < r ^ Suc k" using Suc.prems by (simp add: less_mult_imp_div_less mult.commute)
    from Suc.IH [OF this] False show ?thesis by (subst show_radix.simps) simp
  qed (subst show_radix.simps, simp)
qed

lemma length_show_nat_le: "n < 2 ^ 64 \<Longrightarrow> length (show_nat n) \<le> 20"
  using length_show_radix [of n 10 19] by (simp add: show_nat_def)

lemma request_message:
  assumes ok: "request_ok absolute s p"
  shows "http_message (http1_request absolute s p last_one) (pr_request p)"
    and "parse_numeric_header (http1_request absolute s p last_one) ''x-response-bytes'' = Some (length (pr_response p))"
    and "header_equals (http1_request absolute s p last_one) ''connection'' ''keep-alive''
      \<longleftrightarrow> rq_keep_alive (sc_request s) \<and> \<not> last_one"
proof -
  let ?c = "if rq_keep_alive (sc_request s) \<and> \<not> last_one then ''keep-alive'' else ''close''"
  define fs where "fs = [''Host: '' @ rq_host (sc_request s), ''Connection: '' @ ?c,
        ''Content-Length: '' @ show_nat (length (pr_request p)),
        ''X-Response-Bytes: '' @ show_nat (length (pr_response p))]"
  define ls where "ls = (rq_method (sc_request s) @ '' '' @ request_target absolute s @ '' HTTP/1.1'') # fs"
  have r: "http1_request absolute s p last_one = bytes_of (http_lines ls)"
    by (simp add: http1_request_def ls_def fs_def)
  have lines: "\<forall>l\<in>set ls. header_line l"
    using ok unfolding ls_def fs_def request_ok_def by (auto simp: header_line_append header_text_append)
  have colon: "CHR '':'' \<notin> set (rq_method (sc_request s))" using ok by (simp add: request_ok_def)
  have fields: "header_fields (http1_request absolute s p last_one) = List.map_filter (split_once (CHR '':'')) ls"
    unfolding r by (rule fields_of_http [OF lines])
  note skip = request_line_skip [OF colon, where t = "request_target absolute s @ '' HTTP/1.1''" and ls = fs, folded ls_def]
  have "find_sub crlf2 (http1_request absolute s p last_one) = Some (length (http1_request absolute s p last_one) - 4)"
    using header_end [OF _ lines] unfolding r by (simp add: ls_def)
  moreover have "length (http1_request absolute s p last_one) \<le> length (http1_request absolute s p False)"
    by (simp add: http1_request_def http_lines_def)
  moreover have "content_length (http1_request absolute s p last_one) = length (pr_request p)"
    using ok skip(1) [of "''content-length''"]
    by (simp add: content_length_def parse_numeric_header_def fields fs_def field_simps request_ok_def parse_str_show_nat)
  ultimately show "http_message (http1_request absolute s p last_one) (pr_request p)"
    using ok by (simp add: http_message_def request_ok_def)
  show "parse_numeric_header (http1_request absolute s p last_one) ''x-response-bytes'' = Some (length (pr_response p))"
    using ok skip(1) [of "''x-response-bytes''"]
    by (simp add: parse_numeric_header_def fields fs_def field_simps request_ok_def parse_str_show_nat)
  show "header_equals (http1_request absolute s p last_one) ''connection'' ''keep-alive''
      \<longleftrightarrow> rq_keep_alive (sc_request s) \<and> \<not> last_one"
    using skip(2) [of "''connection''"] by (simp add: header_equals_def fields fs_def field_simps)
qed

lemma response_message:
  assumes "n < 2 ^ 64" and "length body = n"
  shows "http_message (http1_response_head n keep) body" "starts_with (http1_response_head n keep) (bytes_of ''HTTP/1.1 2'')"
proof -
  define ls where "ls = [''HTTP/1.1 200 OK'', ''Content-Length: '' @ show_nat n,
        ''Connection: '' @ (if keep then ''keep-alive'' else ''close'')]"
  have r: "http1_response_head n keep = bytes_of (http_lines ls)" by (simp add: http1_response_head_def ls_def)
  have lines: "\<forall>l\<in>set ls. header_line l" unfolding ls_def by (auto simp: header_line_append)
  have fields: "header_fields (http1_response_head n keep) = List.map_filter (split_once (CHR '':'')) ls"
    unfolding r by (rule fields_of_http [OF lines])
  have "find_sub crlf2 (http1_response_head n keep) = Some (length (http1_response_head n keep) - 4)"
    using header_end [OF _ lines] unfolding r by (simp add: ls_def)
  moreover have "content_length (http1_response_head n keep) = n"
    using assms(1) fields by (simp add: content_length_def parse_numeric_header_def ls_def field_simps parse_str_show_nat)
  moreover have "length (http1_response_head n keep) \<le> 65536"
    using length_show_nat_le [of n] assms(1) by (simp add: r ls_def http_lines_def)
  ultimately show "http_message (http1_response_head n keep) body" using assms(2) by (simp add: http_message_def)
  show "starts_with (http1_response_head n keep) (bytes_of ''HTTP/1.1 2'')"
    by (simp add: r ls_def http_lines_def starts_with_def bytes_of_def)
qed

section \<open>A connection\<close>

text \<open>What is left to be exchanged of \<open>n\<close> transactions from the \<open>i\<close>-th on.\<close>

definition requests_from :: "bool \<Rightarrow> scenario \<Rightarrow> prepared_payloads \<Rightarrow> nat \<Rightarrow> nat \<Rightarrow> bytes" where
  "requests_from absolute s p n i =
     concat (map (\<lambda>j. http1_request absolute s p (Suc j = n) @ pr_request p) [i..<n])"

definition replies_from :: "scenario \<Rightarrow> prepared_payloads \<Rightarrow> nat \<Rightarrow> nat \<Rightarrow> bytes" where
  "replies_from s p n i =
     concat (map (\<lambda>j. http1_response_head (length (pr_response p)) (rq_keep_alive (sc_request s) \<and> Suc j \<noteq> n)
       @ pr_response p) [i..<n])"

lemma requests_from_step:
  "i < n \<Longrightarrow> requests_from absolute s p n i
     = http1_request absolute s p (Suc i = n) @ pr_request p @ requests_from absolute s p n (Suc i)"
  "requests_from absolute s p n n = []"
  by (simp_all add: requests_from_def upt_conv_Cons)

lemma replies_from_step:
  "i < n \<Longrightarrow> replies_from s p n i
     = http1_response_head (length (pr_response p)) (rq_keep_alive (sc_request s) \<and> Suc i \<noteq> n)
       @ pr_response p @ replies_from s p n (Suc i)"
  "replies_from s p n n = []"
  by (simp_all add: replies_from_def upt_conv_Cons)

text \<open>The counters after \<open>sent\<close> and \<open>received\<close> bytes in \<open>k\<close> transactions.\<close>

definition counted :: "nat \<Rightarrow> nat \<Rightarrow> nat \<Rightarrow> counters \<Rightarrow> counters \<Rightarrow> bool" where
  "counted sent received k c c' \<longleftrightarrow>
     ct_tx c' = ct_tx c + of_nat sent \<and> ct_rx c' = ct_rx c + of_nat received
   \<and> ct_transactions c' = ct_transactions c + of_nat k"

lemma counted_trans:
  "counted a b k c1 c2 \<Longrightarrow> counted a' b' k' c2 c3 \<Longrightarrow> counted (a + a') (b + b') (k + k') c1 c3"
  by (simp add: counted_def)

lemma counted_refl: "counted 0 0 0 c c"
  by (simp add: counted_def)

lemma wait_paused_ends:
  "\<not> gate_waits (g (t + k)) \<Longrightarrow> \<exists>t'. wait_paused g t = Some t'"
proof (induction k arbitrary: t)
  case 0
  then show ?case by (subst wait_paused.simps) simp
next
  case (Suc k)
  then show ?case using Suc.IH [of "Suc t"] by (subst wait_paused.simps) simp
qed

lemma http1_exchange_runs:
  assumes ok: "request_ok absolute s p"
    and w: "pending @ io_in st = http1_response_head (length (pr_response p)) keep @ pr_response p @ rest"
  obtains pending' left c' where
    "http1_exchange grant lat absolute s p last_one pending (st, c)
      = (Inr pending', st\<lparr>io_in := left, io_out := io_out st @ http1_request absolute s p last_one @ pr_request p\<rparr>, c')"
    "pending' @ left = rest"
    "counted (length (http1_request absolute s p last_one @ pr_request p))
       (length (http1_response_head (length (pr_response p)) keep @ pr_response p)) 1 c c'"
proof -
  let ?head = "http1_response_head (length (pr_response p)) keep"
  let ?req = "http1_request absolute s p last_one"
  let ?st = "st\<lparr>io_out := (io_out st @ ?req) @ pr_request p\<rparr>"
  let ?c = "add_tx (length ?req + length (pr_request p)) c"
  have "length (pr_response p) < 2 ^ 64" using ok by (simp add: request_ok_def)
  from response_message [OF this refl]
  have m: "http_message ?head (pr_response p)" and starts: "starts_with ?head (bytes_of ''HTTP/1.1 2'')" by blast+
  have "pending @ io_in (fst (?st, ?c)) = ?head @ pr_response p @ rest" using w by simp
  then obtain pending' w' where
    r: "read_message grant (64 * 1024) pending (?st, ?c) = (Inr (?head, length (pr_response p), pending'), w')"
       "reads_to rest pending' (?st, ?c) w'"
    by (rule read_message_reads [OF m])
  then obtain left where w': "w' = (?st\<lparr>io_in := left\<rparr>, ?c)" "pending' @ left = rest" by (auto simp: reads_to_def)
  have t: "bind_w (timeout_w (read_message grant (64 * 1024) pending)) f (?st, ?c)
      = f (?head, length (pr_response p), pending') (?st\<lparr>io_in := left\<rparr>, ?c)" for f :: "bytes \<times> nat \<times> bytes \<Rightarrow> bytes action"
    using r(1) w'(1) by (intro bind_w_simps(1)) simp
  let ?c1 = "transaction_completed (add_rx (length ?head + length (pr_response p)) ?c)"
  have "http1_exchange grant lat absolute s p last_one pending (st, c)
      = (Inr pending', st\<lparr>io_in := left, io_out := io_out st @ ?req @ pr_request p\<rparr>,
          push_http_latency (lat (length (ct_http_latencies_us ?c1))) ?c1)"
    using starts
    by (simp add: http1_exchange_def Let_def t [simplified] return_w_def)
  moreover have "counted (length (?req @ pr_request p)) (length (?head @ pr_response p)) 1 c
      (push_http_latency (lat (length (ct_http_latencies_us ?c1))) ?c1)"
    by (simp add: counted_def push_http_latency_def transaction_completed_def add_rx_def add_tx_def)
  ultimately show thesis using w'(2) that by blast
qed

lemma http1_loop_runs:
  assumes ok: "request_ok absolute s p" and n: "n = unat (rq_transactions_per_connection (sc_request s))"
    and gate: "\<And>t. gate_enabled (g t)" "\<And>t. \<exists>k. \<not> wg_paused (g (t + k))"
  shows "i < n \<Longrightarrow> unat index = i \<Longrightarrow> pending @ io_in st = replies_from s p n i \<Longrightarrow>
    \<exists>c'. http1_loop grant lat g absolute s p pending index t (st, c)
      = (Inr (), st\<lparr>io_in := [], io_out := io_out st @ requests_from absolute s p n i\<rparr>, c')
    \<and> counted (length (requests_from absolute s p n i)) (length (replies_from s p n i)) (n - i) c c'"
proof (induction "n - i" arbitrary: i index pending st t c)
  case 0
  then show ?case by simp
next
  case (Suc m)
  let ?max = "rq_transactions_per_connection (sc_request s)"
  have bounds: "0 < ?max" "\<not> ?max \<le> index" using Suc.prems n by (simp_all add: word_less_nat_alt word_le_nat_alt)
  have idx: "unat (index + 1) = Suc i"
    using Suc.prems(1,2) n unsigned_less [of ?max, where 'a = nat] by (simp add: unat_word_ariths)
  then have last_one: "(0 < ?max \<and> index + 1 = ?max) \<longleftrightarrow> Suc i = n" using bounds(1) n by (metis word_unat_eq_iff)
  obtain k where "\<not> gate_waits (g (Suc t + k))" using gate(2) [of "Suc t"] by (auto simp: gate_waits_def)
  then obtain t' where t': "wait_paused g (Suc t) = Some t'" using wait_paused_ends by blast
  let ?req = "http1_request absolute s p (Suc i = n) @ pr_request p"
  let ?rep = "http1_response_head (length (pr_response p)) (rq_keep_alive (sc_request s) \<and> Suc i \<noteq> n) @ pr_response p"
  have "pending @ io_in st = http1_response_head (length (pr_response p)) (rq_keep_alive (sc_request s) \<and> Suc i \<noteq> n)
      @ pr_response p @ replies_from s p n (Suc i)"
    using Suc.prems(1,3) replies_from_step(1) by simp
  then obtain pending' left c1 where
    x: "http1_exchange grant lat absolute s p (Suc i = n) pending (st, c)
        = (Inr pending', st\<lparr>io_in := left, io_out := io_out st @ ?req\<rparr>, c1)"
      "pending' @ left = replies_from s p n (Suc i)" "counted (length ?req) (length ?rep) 1 c c1"
    by (rule http1_exchange_runs [OF ok])
  let ?st = "st\<lparr>io_in := left, io_out := io_out st @ ?req\<rparr>"
  have step: "http1_loop grant lat g absolute s p pending index t (st, c)
      = http1_loop grant lat g absolute s p pending' (index + 1) (Suc t') (?st, c1)"
    using bounds gate(1) t' x(1) last_one by (subst http1_loop.simps) (simp add: Let_def)
  show ?case
  proof (cases "Suc i = n")
    case True
    then have "http1_loop grant lat g absolute s p pending' (index + 1) (Suc t') (?st, c1) = (Inr (), ?st, c1)"
      using idx n by (subst http1_loop.simps) (simp add: Let_def word_less_nat_alt word_le_nat_alt)
    moreover have "left = []" using x(2) True by (simp add: replies_from_step)
    ultimately show ?thesis
      using step x(3) True Suc.prems(1) by (auto simp: requests_from_step replies_from_step)
  next
    case False
    have "m = n - Suc i" "Suc i < n" using Suc.hyps(2) Suc.prems(1) False by simp_all
    from Suc.hyps(1) [OF this idx, of pending' ?st "Suc t'" c1] x(2)
    obtain c' where c': "http1_loop grant lat g absolute s p pending' (index + 1) (Suc t') (?st, c1)
          = (Inr (), ?st\<lparr>io_in := [], io_out := io_out ?st @ requests_from absolute s p n (Suc i)\<rparr>, c')"
        "counted (length (requests_from absolute s p n (Suc i))) (length (replies_from s p n (Suc i))) (n - Suc i) c1 c'"
      by auto
    have "counted (length (requests_from absolute s p n i)) (length (replies_from s p n i)) (n - i) c c'"
      using counted_trans [OF x(3) c'(2)] Suc.prems(1) by (simp add: requests_from_step replies_from_step add.assoc Suc_diff_Suc)
    then show ?thesis using step c'(1) Suc.prems(1) by (auto simp: requests_from_step)
  qed
qed

lemma http1_serve_one_runs:
  assumes ok: "request_ok absolute s p"
    and w: "pending @ io_in st = http1_request absolute s p last_one @ pr_request p @ rest"
  obtains pending' left d' where
    "http1_serve_one grant p pending (st, d)
      = (Inr (rq_keep_alive (sc_request s) \<and> \<not> last_one, pending'),
         st\<lparr>io_in := left, io_out := io_out st
           @ http1_response_head (length (pr_response p)) (rq_keep_alive (sc_request s) \<and> \<not> last_one) @ pr_response p\<rparr>, d')"
    "pending' @ left = rest"
    "counted (length (http1_response_head (length (pr_response p)) (rq_keep_alive (sc_request s) \<and> \<not> last_one) @ pr_response p))
       (length (http1_request absolute s p last_one @ pr_request p)) 1 d d'"
proof -
  let ?req = "http1_request absolute s p last_one"
  note m = request_message [OF ok, of last_one]
  have "pending @ io_in (fst (st, d)) = ?req @ pr_request p @ rest" using w by simp
  then obtain pending' w' where
    r: "read_message grant (64 * 1024) pending (st, d) = (Inr (?req, length (pr_request p), pending'), w')"
       "reads_to rest pending' (st, d) w'"
    by (rule read_message_reads [OF m(1)])
  then obtain left where w': "w' = (st\<lparr>io_in := left\<rparr>, d)" "pending' @ left = rest" by (auto simp: reads_to_def)
  have t: "bind_w (read_message grant (64 * 1024) pending) f (st, d)
      = f (?req, length (pr_request p), pending') (st\<lparr>io_in := left\<rparr>, d)" for f :: "bytes \<times> nat \<times> bytes \<Rightarrow> (bool \<times> bytes) action"
    using r(1) w'(1) by (intro bind_w_simps(1)) simp
  have a: "bind_w (http1_answer p (length (pr_response p)) k) f (st', c)
      = f () (st'\<lparr>io_out := io_out st' @ http1_response_head (length (pr_response p)) k @ pr_response p\<rparr>,
          transaction_completed (add_tx (length (http1_response_head (length (pr_response p)) k) + length (pr_response p)) c))"
    for k f st' c
    by (simp add: bind_w_def http1_answer_eq)
  show thesis
  proof (rule that [OF _ w'(2)])
    let ?k = "rq_keep_alive (sc_request s) \<and> \<not> last_one"
    let ?d = "transaction_completed (add_tx (length (http1_response_head (length (pr_response p)) ?k) + length (pr_response p))
        (add_rx (length ?req + length (pr_request p)) d))"
    show "http1_serve_one grant p pending (st, d)
        = (Inr (?k, pending'), st\<lparr>io_in := left, io_out := io_out st
           @ http1_response_head (length (pr_response p)) ?k @ pr_response p\<rparr>, ?d)"
      by (simp add: http1_serve_one_def t [simplified] Let_def m(2,3) a return_w_def)
    show "counted (length (http1_response_head (length (pr_response p)) ?k @ pr_response p))
       (length (?req @ pr_request p)) 1 d ?d"
      by (simp add: counted_def transaction_completed_def add_rx_def add_tx_def)
  qed
qed

lemma http1_serve_loop_runs:
  assumes ok: "request_ok absolute s p" and keep: "rq_keep_alive (sc_request s) \<or> n = 1"
  shows "i < n \<Longrightarrow> pending @ io_in st = requests_from absolute s p n i \<Longrightarrow>
    \<exists>d'. http1_serve_loop grant p pending (st, d)
      = (Inr (), st\<lparr>io_in := [], io_out := io_out st @ replies_from s p n i\<rparr>, d')
    \<and> counted (length (replies_from s p n i)) (length (requests_from absolute s p n i)) (n - i) d d'"
proof (induction "n - i" arbitrary: i pending st d)
  case 0
  then show ?case by simp
next
  case (Suc m)
  let ?k = "rq_keep_alive (sc_request s) \<and> \<not> Suc i = n"
  let ?rep = "http1_response_head (length (pr_response p)) ?k @ pr_response p"
  let ?req = "http1_request absolute s p (Suc i = n) @ pr_request p"
  have "pending @ io_in st = http1_request absolute s p (Suc i = n) @ pr_request p @ requests_from absolute s p n (Suc i)"
    using Suc.prems requests_from_step(1) by simp
  then obtain pending' left d1 where
    x: "http1_serve_one grant p pending (st, d)
        = (Inr (?k, pending'), st\<lparr>io_in := left, io_out := io_out st @ ?rep\<rparr>, d1)"
      "pending' @ left = requests_from absolute s p n (Suc i)" "counted (length ?rep) (length ?req) 1 d d1"
    by (rule http1_serve_one_runs [OF ok])
  let ?st = "st\<lparr>io_in := left, io_out := io_out st @ ?rep\<rparr>"
  show ?case
  proof (cases "Suc i = n")
    case True
    then have "http1_serve_loop grant p pending (st, d) = (Inr (), ?st, d1)"
      using x(1) by (subst http1_serve_loop.simps) simp
    moreover have "left = []" using x(2) True by (simp add: requests_from_step)
    ultimately show ?thesis using x(3) True Suc.prems(1) by (auto simp: requests_from_step replies_from_step)
  next
    case False
    then have k: "?k" using keep Suc.prems(1) by auto
    have m: "m = n - Suc i" "Suc i < n" using Suc.hyps(2) Suc.prems(1) False by simp_all
    have step: "http1_serve_loop grant p pending (st, d) = http1_serve_loop grant p pending' (?st, d1)"
      using x(1) k by (subst http1_serve_loop.simps) simp
    from Suc.hyps(1) [OF m, of pending' ?st d1] x(2)
    obtain d' where d': "http1_serve_loop grant p pending' (?st, d1)
          = (Inr (), ?st\<lparr>io_in := [], io_out := io_out ?st @ replies_from s p n (Suc i)\<rparr>, d')"
        "counted (length (replies_from s p n (Suc i))) (length (requests_from absolute s p n (Suc i))) (n - Suc i) d1 d'"
      by auto
    have "counted (length (replies_from s p n i)) (length (requests_from absolute s p n i)) (n - i) d d'"
      using counted_trans [OF x(3) d'(2)] Suc.prems(1)
      by (simp add: requests_from_step replies_from_step add.assoc Suc_diff_Suc)
    then show ?thesis using step d'(1) Suc.prems(1) by (auto simp: replies_from_step)
  qed
qed

lemma validated_keep_alive:
  "scenario_validate s = Inr () \<Longrightarrow> sc_protocol s = Http1 \<Longrightarrow>
     rq_keep_alive (sc_request s) \<or> rq_transactions_per_connection (sc_request s) = 1"
  by (auto simp: scenario_validate_def run_checks_ok protocol_checks_def simp del: run_checks.simps)


definition http1_example :: scenario where
  "http1_example =
     (scenario_default 3 4)\<lparr>sc_name := ''s'', sc_path := ExplicitProxy ''a'' (V4 1) ''b'' (V4 2) 80 ''p:1'', sc_protocol := Http1,
       sc_request := http_request_profile_default\<lparr>rq_transactions_per_connection := 2\<rparr>\<rparr>"

definition payloads_example :: prepared_payloads where
  "payloads_example = \<lparr>pr_request = [1, 2], pr_response = [7, 8, 9]\<rparr>"

lemma http1_example_valid: "scenario_validate http1_example = Inr ()" "sc_protocol http1_example = Http1"
  by code_simp+

lemma request_example_ok: "request_ok True http1_example payloads_example"
  by code_simp


end
