(* ===== verification/Runner_Facts.thy ===== *)
theory Runner_Facts
  imports Runner Http1_Facts
begin

text \<open>
  Facts about a run on an agent: its clock returns and follows the schedule over the active time,
  and every connection is accounted for in the counters however it ends.
\<close>

section \<open>The clock\<close>

text \<open>
  The abstract clock: the active time after \<open>n\<close> rounds is the sum of the time between each round
  that found the run going and the round before it.
\<close>

fun active_time :: "nat \<Rightarrow> (nat \<Rightarrow> tick) \<Rightarrow> nat \<Rightarrow> nat" where
  "active_time now rounds 0 = 0"
| "active_time now rounds (Suc n) =
     active_time now rounds n
     + (if tk_paused (rounds n) then 0 else tk_now (rounds n) - (if n = 0 then now else tk_now (rounds (n - 1))))"

fun clock_after :: "scenario \<Rightarrow> nat \<Rightarrow> (nat \<Rightarrow> tick) \<Rightarrow> nat \<Rightarrow> load_clock" where
  "clock_after s now rounds 0 = clock_start now"
| "clock_after s now rounds (Suc n) = load_tick s (rounds n) (clock_after s now rounds n)"

lemma clock_after_last: "lc_last (clock_after s now rounds n) = (if n = 0 then now else tk_now (rounds (n - 1)))"
  by (cases n) (auto simp: load_tick_def clock_start_def Let_def split: prod.splits)

lemma clock_after_elapsed: "lc_elapsed (clock_after s now rounds n) = active_time now rounds n"
proof (induction n)
  case (Suc n)
  then show ?case using clock_after_last [of s now rounds n]
    by (auto simp: load_tick_def Let_def split: prod.splits)
qed (simp add: clock_start_def)

text \<open>What the clock stored last is what the schedule says of the active time at that round.\<close>

definition stored :: "load_clock \<Rightarrow> u32 \<times> u32 \<times> bool" where
  "stored st = (lc_stage st, lc_desired st, lc_included st)"

definition scheduled :: "scenario \<Rightarrow> nat \<Rightarrow> u32 \<times> u32 \<times> bool" where
  "scheduled s elapsed = (case load_at s (of_nat (elapsed div 1000000)) of (stage, desired, included) \<Rightarrow>
     (of_nat stage, desired, included))"

lemma clock_after_stored:
  "i < n \<Longrightarrow> \<not> tk_paused (rounds i) \<Longrightarrow> (\<And>j. i < j \<Longrightarrow> j < n \<Longrightarrow> tk_paused (rounds j)) \<Longrightarrow>
     stored (clock_after s now rounds n) = scheduled s (active_time now rounds (Suc i))"
proof (induction n)
  case (Suc n)
  show ?case
  proof (cases "i = n")
    case True
    have "lc_elapsed (clock_after s now rounds (Suc n)) = active_time now rounds (Suc n)" by (rule clock_after_elapsed)
    then have "active_time now rounds (Suc n)
        = lc_elapsed (clock_after s now rounds n) + (tk_now (rounds n) - lc_last (clock_after s now rounds n))"
      using True Suc.prems(2) by (auto simp: load_tick_def Let_def split: prod.splits)
    then show ?thesis using True Suc.prems(2)
      by (auto simp: load_tick_def Let_def stored_def scheduled_def split: prod.splits)
  next
    case False
    then have "stored (clock_after s now rounds n) = scheduled s (active_time now rounds (Suc i))"
      using Suc by simp
    moreover have "tk_paused (rounds n)" using Suc.prems False by simp
    ultimately show ?thesis by (simp add: load_tick_def stored_def)
  qed
qed simp

lemma clock_loop_until:
  "\<forall>m<k. lc_elapsed (clock_after s now rounds (n + m)) < duration \<and> tk_running (rounds (n + m)) \<Longrightarrow>
     clock_loop s duration rounds n (clock_after s now rounds n)
     = clock_loop s duration rounds (n + k) (clock_after s now rounds (n + k))"
proof (induction k arbitrary: n)
  case (Suc k)
  then have "clock_loop s duration rounds n (clock_after s now rounds n)
      = clock_loop s duration rounds (Suc n) (clock_after s now rounds (Suc n))"
    using Suc.prems [rule_format, of 0] by (subst clock_loop.simps) simp
  also have "\<dots> = clock_loop s duration rounds (Suc n + k) (clock_after s now rounds (Suc n + k))"
    using Suc.prems by (intro Suc.IH) auto
  finally show ?case by simp
qed simp

text \<open>Rounds take at least the fifty milliseconds they sleep, and pauses end.\<close>

definition rounds_go_on :: "nat \<Rightarrow> (nat \<Rightarrow> tick) \<Rightarrow> bool" where
  "rounds_go_on now rounds \<longleftrightarrow>
     (\<forall>n. tk_now (rounds n) + 50000000 \<le> tk_now (rounds (Suc n)))
   \<and> (\<forall>n. \<exists>m. \<not> tk_paused (rounds (n + m)))"

lemma active_time_grows:
  assumes "rounds_go_on now rounds"
  shows "\<exists>n. k * 50000000 \<le> active_time now rounds n"
proof (induction k)
  case (Suc k)
  then obtain n where n: "k * 50000000 \<le> active_time now rounds n" by blast
  obtain m where m: "\<not> tk_paused (rounds (Suc n + m))" using assms unfolding rounds_go_on_def by blast
  have mono: "active_time now rounds n \<le> active_time now rounds (n + j)" for j
    by (induction j) auto
  have "tk_now (rounds (n + m)) + 50000000 \<le> tk_now (rounds (Suc (n + m)))"
    using assms unfolding rounds_go_on_def by blast
  then have "active_time now rounds (n + Suc m) + 50000000 \<le> active_time now rounds (Suc (n + Suc m))"
    using m by simp
  then show ?case using n mono [of "Suc m"] by (intro exI [of _ "Suc (n + Suc m)"]) simp
qed simp

text \<open>
  C9. The clock of a run returns, and refines the schedule over active time. When rounds take the time
  they sleep and pauses end, the client's clock stops after some round; until then the run was
  going and its active time was short of the scenario's duration; the time it counted is the
  time of the rounds that were not paused; it stops because that time has reached the duration or
  because the run was stopped; and what it stored last for the workers and the report is what the
  load schedule says of the active time at the last round that was not paused.
\<close>

theorem client_clock_follows_active_time:
  assumes "rounds_go_on now rounds"
  shows "\<exists>n st. client_clock s now rounds = Some (n, st) \<and> lc_elapsed st = active_time now rounds n
    \<and> (\<forall>m<n. active_time now rounds m < client_duration s \<and> tk_running (rounds m))
    \<and> (client_duration s \<le> active_time now rounds n \<or> \<not> tk_running (rounds n))
    \<and> (\<forall>i<n. \<not> tk_paused (rounds i) \<and> (\<forall>j. i < j \<and> j < n \<longrightarrow> tk_paused (rounds j)) \<longrightarrow>
         stored st = scheduled s (active_time now rounds (Suc i)))"
proof -
  let ?stop = "\<lambda>n. \<not> (active_time now rounds n < client_duration s \<and> tk_running (rounds n))"
  have "client_duration s \<le> client_duration s * 50000000" by simp
  then have "\<exists>n. ?stop n" using active_time_grows [OF assms, of "client_duration s"] by (meson leD le_trans)
  then obtain n where n: "?stop n" "\<forall>m<n. \<not> ?stop m" using exists_least_iff [of ?stop] by blast
  let ?st = "clock_after s now rounds n"
  have "client_clock s now rounds = clock_loop s (client_duration s) rounds n ?st"
    using clock_loop_until [of n s now rounds 0 "client_duration s"] n(2)
    by (simp add: client_clock_def clock_after_elapsed)
  also have "\<dots> = Some (n, ?st)" using n(1) by (subst clock_loop.simps) (auto simp: clock_after_elapsed)
  finally have "client_clock s now rounds = Some (n, ?st)" .
  then show ?thesis
    using n clock_after_elapsed [of s now rounds n] clock_after_stored [of _ n rounds s now]
    by (intro exI [of _ n] exI [of _ ?st]) auto
qed

theorem client_clock_follows_active_time_witness:
  "\<exists>n st. client_clock (scenario_default 3 4) 0 (\<lambda>n. \<lparr>tk_running = True, tk_paused = odd n, tk_now = 50000000 * Suc n\<rparr>)
     = Some (n, st) \<and> 10000000000 \<le> lc_elapsed st"
proof -
  let ?rounds = "\<lambda>n. \<lparr>tk_running = True, tk_paused = odd n, tk_now = 50000000 * Suc n\<rparr>"
  have "\<exists>m. \<not> odd (n + m)" for n :: nat by (intro exI [of _ n]) simp
  then have "rounds_go_on 0 ?rounds" by (simp add: rounds_go_on_def)
  moreover have "client_duration (scenario_default 3 4) = 10000000000"
    by (simp add: client_duration_def effective_duration_secs_def scenario_default_def)
  ultimately show ?thesis
    using client_clock_follows_active_time [of 0 ?rounds "scenario_default 3 4"] by fastforce
qed

text \<open>The responder's clock runs seven tenths of a second longer, unless the sum leaves 64 bits.\<close>

lemma server_duration_longer:
  "unat (effective_duration_secs s) * 1000 + 700 < 2 ^ 64 \<Longrightarrow>
     server_duration s = client_duration s + 700000000"
  by (simp add: server_duration_def client_duration_def unat_word_ariths)

section \<open>What a connection accounts for\<close>

text \<open>The counters a workload leaves alone.\<close>

definition kept :: "counters \<Rightarrow> u64 \<times> u64 \<times> u64 \<times> u64 \<times> active_window" where
  "kept c = (ct_attempted c, ct_established c, ct_failed c, ct_transaction_errors c, ct_active c)"

definition keeps_counts :: "'a action \<Rightarrow> bool" where
  "keeps_counts m \<longleftrightarrow> (\<forall>w. kept (snd (snd (m w))) = kept (snd w))"

named_theorems counts_kept

lemma keeps_countsD: "keeps_counts m \<Longrightarrow> m w = (r, w') \<Longrightarrow> kept (snd w') = kept (snd w)"
  unfolding keeps_counts_def by (metis snd_conv)

lemma keeps_countsI: "(\<And>w r w'. m w = (r, w') \<Longrightarrow> kept (snd w') = kept (snd w)) \<Longrightarrow> keeps_counts m"
  unfolding keeps_counts_def by (metis prod.collapse)

lemma counts_bind [counts_kept]:
  assumes "keeps_counts m" and "\<And>a. keeps_counts (f a)"
  shows "keeps_counts (bind_w m f)"
proof (rule keeps_countsI)
  fix w r w' assume b: "bind_w m f w = (r, w')"
  obtain r1 w1 where m: "m w = (r1, w1)" by (cases "m w")
  show "kept (snd w') = kept (snd w)"
    using keeps_countsD [OF assms(1) m] keeps_countsD [OF assms(2)] b m
    by (cases r1) (auto simp: bind_w_def)
qed

lemma kept_simps [simp]:
  "kept (add_tx n c) = kept c" "kept (add_rx n c) = kept c" "kept (transaction_completed c) = kept c"
  "kept (push_http_latency us c) = kept c" "kept (complete_replayed lat b c) = kept c"
  "kept (http2_completed r c) = kept c"
  by (simp_all add: kept_def add_tx_def add_rx_def transaction_completed_def push_http_latency_def
      complete_replayed_def http2_completed_def Let_def split: prod.splits)

lemma keeps_primitives [counts_kept]:
  "keeps_counts (return_w a)" "keeps_counts (fail_w e)" "keeps_counts (write_all bs)"
  "keeps_counts (read_exact timed n)" "keeps_counts (read_some grant cap)"
  by (auto simp: keeps_counts_def return_w_def fail_w_def write_all_def read_exact_def read_some_def Let_def)

lemma keeps_count [counts_kept]: "(\<And>c. kept (g c) = kept c) \<Longrightarrow> keeps_counts (count_w g)"
  by (simp add: keeps_counts_def count_w_def)

lemma keeps_wrapped [counts_kept]:
  "keeps_counts m \<Longrightarrow> keeps_counts (timeout_w m)" "keeps_counts m \<Longrightarrow> keeps_counts (context_w f m)"
proof -
  have "snd (timeout_w m w) = snd (m w)" "snd (context_w f m w) = snd (m w)" for w
    by (auto simp: timeout_w_def context_w_def split: prod.splits sum.splits work_error.splits)
  then show "keeps_counts m \<Longrightarrow> keeps_counts (timeout_w m)" "keeps_counts m \<Longrightarrow> keeps_counts (context_w f m)"
    by (simp_all add: keeps_counts_def)
qed

lemma counts_if [counts_kept]: "keeps_counts m \<Longrightarrow> keeps_counts m' \<Longrightarrow> keeps_counts (if b then m else m')"
  by simp

lemma keeps_read_exact_count [counts_kept]: "keeps_counts (read_exact_count timed n)"
proof (rule keeps_countsI)
  fix w r w' assume "read_exact_count timed n w = (r, w')"
  then show "kept (snd w') = kept (snd w)"
    using read_exact_count_ok [of n "fst w" timed "snd w"] read_exact_count_short [of "fst w" n timed "snd w"]
    by (cases "n \<le> length (io_in (fst w))") auto
qed

lemma keeps_write_zeroes [counts_kept]: "keeps_counts (write_zeroes n)"
  by (simp add: keeps_counts_def write_zeroes_eq)

lemma keeps_replay [counts_kept]:
  "keeps_counts (replay_client lat http1 started turns)" "keeps_counts (replay_server http1 turns)"
proof -
  show "keeps_counts (replay_client lat http1 started turns)"
    by (induction turns arbitrary: started) (auto intro!: counts_kept split: direction.split)
  show "keeps_counts (replay_server http1 turns)"
    by (induction turns) (auto intro!: counts_kept split: direction.split)
qed

lemma keeps_detect [counts_kept]: "keeps_counts (replay_server_detect http1 flows)"
proof -
  have "kept (snd (snd (detect_loop http1 flows received candidates w))) = kept (snd w)" for received candidates w
  proof (induction http1 flows received candidates w rule: detect_loop.induct)
    case (1 http1 flows received candidates w)
    show ?case
      using "1.IH" keeps_replay(2) [of http1] unfolding keeps_counts_def
      by (subst detect_loop.simps) (auto simp: Let_def split: list.split)
  qed
  then show ?thesis by (simp add: keeps_counts_def replay_server_detect_def)
qed

lemma keeps_read_message [counts_kept]: "keeps_counts (read_message grant limit pending)"
proof -
  have "kept (snd (snd (read_headers grant limit pending w))) = kept (snd w)" for pending w
  proof (induction grant limit pending w rule: read_headers.induct)
    case (1 grant limit pending w)
    obtain r w1 where r: "read_some grant 8192 w = (r, w1)" by (cases "read_some grant 8192 w")
    have "kept (snd w1) = kept (snd w)" by (rule keeps_countsD [OF keeps_primitives(5) r])
    then show ?case using "1.IH" r by (subst read_headers.simps) (auto split: option.split sum.split)
  qed
  moreover have "kept (snd (snd (read_body grant n pending w))) = kept (snd w)" for n pending w
  proof (induction grant n pending w rule: read_body.induct)
    case (1 grant n pending w)
    obtain r w1 where r: "read_some grant 8192 w = (r, w1)" by (cases "read_some grant 8192 w")
    have "kept (snd w1) = kept (snd w)" by (rule keeps_countsD [OF keeps_primitives(5) r])
    then show ?case using "1.IH" r by (subst read_body.simps) (auto split: sum.split)
  qed
  ultimately have "keeps_counts (read_headers grant limit pending)" "\<And>n pending. keeps_counts (read_body grant n pending)"
    by (simp_all add: keeps_counts_def)
  then show ?thesis unfolding read_message_def by (auto simp: Let_def intro!: counts_kept split: prod.splits)
qed

lemma keeps_exchange: "keeps_counts (http1_exchange grant lat absolute s p last_one pending)"
  unfolding http1_exchange_def by (auto simp: Let_def intro!: counts_kept split: prod.splits)

lemma keeps_http1 [counts_kept]: "keeps_counts (http1_transactions grant lat g absolute s p)"
proof -
  have "kept (snd (snd (http1_loop grant lat g absolute s p pending index t w))) = kept (snd w)" for pending index t w
  proof (induction grant lat g absolute s p pending index t w rule: http1_loop.induct)
    case (1 grant lat g absolute s p pending index t w)
    let ?l = "0 < rq_transactions_per_connection (sc_request s) \<and> index + 1 = rq_transactions_per_connection (sc_request s)"
    obtain r w1 where r: "http1_exchange grant lat absolute s p ?l pending w = (r, w1)"
      by (cases "http1_exchange grant lat absolute s p ?l pending w")
    have "kept (snd w1) = kept (snd w)" by (rule keeps_countsD [OF keeps_exchange r])
    then show ?case using "1.IH" r by (subst http1_loop.simps) (auto simp: Let_def split: option.split sum.split)
  qed
  then show ?thesis by (simp add: keeps_counts_def http1_transactions_def)
qed

lemma keeps_serve_one: "keeps_counts (http1_serve_one grant p pending)"
  unfolding http1_serve_one_def http1_answer_def by (auto simp: Let_def intro!: counts_kept split: prod.splits)

lemma keeps_http1_serve [counts_kept]: "keeps_counts (http1_serve grant p)"
proof -
  have "kept (snd (snd (http1_serve_loop grant p pending w))) = kept (snd w)" for pending w
  proof (induction grant p pending w rule: http1_serve_loop.induct)
    case (1 grant p pending w)
    obtain r w1 where r: "http1_serve_one grant p pending w = (r, w1)" by (cases "http1_serve_one grant p pending w")
    have "kept (snd w1) = kept (snd w)" by (rule keeps_countsD [OF keeps_serve_one r])
    then show ?case using "1.IH" r by (subst http1_serve_loop.simps) (auto split: sum.split prod.splits)
  qed
  then show ?thesis by (simp add: keeps_counts_def http1_serve_def)
qed

lemma keeps_tcp [counts_kept]: "keeps_counts (tcp_transaction p)" "keeps_counts (tcp_serve p)"
  unfolding tcp_transaction_def tcp_serve_def by (intro counts_kept; simp)+

lemma http2_loop_keeps:
  assumes "http2_loop R launched pending t c = Some rc"
  shows "kept (snd rc) = kept c"
proof (rule http2_loop.raw_induct [where P = "\<lambda>R launched pending t c rc. kept (snd rc) = kept c", OF _ assms])
  fix loop :: "h2_run \<Rightarrow> nat \<Rightarrow> h2_pending \<Rightarrow> nat \<Rightarrow> counters \<Rightarrow> ((work_error + unit) \<times> counters) option"
    and R launched pending t c rc
  assume IH: "\<And>R launched pending t c rc. loop R launched pending t c = Some rc \<Longrightarrow> kept (snd rc) = kept c"
    and step: "(if \<not> ((gate_enabled (hr_gate R t) \<and> may_launch R launched) \<or> pending \<noteq> []) then Some (Inr (), c)
      else case http2_fill R launched pending (Suc t) of (launched, pending, t) \<Rightarrow>
        if pending = [] then Some (Inr (), c)
        else let k = hr_next R t mod length pending
          in case pending ! k of (i, payload, response_len) \<Rightarrow>
             (case http2_request (hr_answer R i payload response_len) payload of
                Inl e \<Rightarrow> Some (Inl e, c)
              | Inr r \<Rightarrow> loop R launched (remove_nth k pending) t (http2_completed r c))) = Some rc"
  show "kept (snd rc) = kept c"
    using step by (auto simp: Let_def split: if_splits sum.splits prod.splits dest!: IH)
qed

lemma keeps_http2 [counts_kept]: "keeps_counts (http2_workload env idx s p turns)"
proof (rule keeps_countsI)
  fix w r w' assume "http2_workload env idx s p turns w = (r, w')"
  then show "kept (snd w') = kept (snd w)"
    by (auto simp: http2_workload_def http2_transactions_def split: sum.splits option.splits prod.splits dest!: http2_loop_keeps)
qed

lemma keeps_connect_loop: "keeps_counts (read_connect_loop response)"
proof -
  have "kept (snd (snd (read_connect_loop response w))) = kept (snd w)" for w
  proof (induction response w rule: read_connect_loop.induct)
    case (1 response w)
    obtain r w1 where r: "read_exact False 1 w = (r, w1)" by (cases "read_exact False 1 w")
    have "kept (snd w1) = kept (snd w)" by (rule keeps_countsD [OF keeps_primitives(4) r])
    then show ?case using "1.IH" r by (subst read_connect_loop.simps) (auto simp: Let_def split: sum.split)
  qed
  then show ?thesis by (simp add: keeps_counts_def)
qed

lemma keeps_upgrade [counts_kept]: "keeps_counts (upgrade env idx s)"
proof -
  have t: "keeps_counts (connect_tunnel s)"
    unfolding connect_tunnel_def read_connect_headers_def
    by (auto simp: Let_def intro!: counts_kept keeps_connect_loop)
  have "keeps_counts (\<lambda>w. if tls_enabled (sc_tls s) then
         case ce_tls env idx s (fst w) of Inl e \<Rightarrow> (Inl e, w) | Inr st \<Rightarrow> (Inr (), st, snd w) else (Inr (), w))"
    by (auto simp: keeps_counts_def split: sum.split)
  then show ?thesis unfolding upgrade_def by (intro counts_kept t)
qed

lemma keeps_client_workload [counts_kept]: "keeps_counts (client_workload env idx s p turns)"
  unfolding client_workload_def by (auto intro!: counts_kept split: option.split protocol.split)

lemma kept_record_failure [simp]: "kept (record_failure e c) = kept c"
  by (simp add: kept_def record_failure_def Let_def)

text \<open>
  One connection: it is attempted, fails as a connection and as a transaction or not at all, fails
  when it is not established, and is no longer active at its end.
\<close>

definition accounted :: "counters \<Rightarrow> counters \<Rightarrow> nat \<Rightarrow> nat \<Rightarrow> bool" where
  "accounted c c' established failed \<longleftrightarrow>
     ct_attempted c' = ct_attempted c + 1 \<and> ct_established c' = ct_established c + of_nat established
   \<and> ct_failed c' = ct_failed c + of_nat failed \<and> ct_transaction_errors c' = ct_transaction_errors c + of_nat failed
   \<and> established \<le> 1 \<and> failed \<le> 1 \<and> 1 \<le> established + failed
   \<and> (aw_current (ct_active c) = 0 \<longrightarrow> aw_current (ct_active c') = 0)"

lemma guards_balance:
  "aw_current w = 0 \<Longrightarrow> aw_current (connection_dropped t (connection_opened t' w)) = 0"
  by (simp add: connection_dropped_def connection_opened_def account_until_def Let_def sat_sub_def)

lemma transact_accounted:
  assumes "transact env s p turns idx c = (r, c')"
  shows "\<exists>e\<le>1. ct_attempted c' = ct_attempted c \<and> ct_established c' = ct_established c + of_nat e
    \<and> ct_failed c' = ct_failed c \<and> ct_transaction_errors c' = ct_transaction_errors c
    \<and> (aw_current (ct_active c) = 0 \<longrightarrow> aw_current (ct_active c') = 0) \<and> (e = 0 \<longrightarrow> isl r)"
proof (cases "ce_connect (rv_connect env) idx (connect_addr s) (source_ip s idx)")
  case (Inl e)
  then show ?thesis using assms by (intro exI [of _ 0]) (auto simp: transact_def connect_tcp_def)
next
  case (Inr st)
  let ?c1 = "connection_established (c\<lparr>ct_tcp_connect_latencies_us := ct_tcp_connect_latencies_us c @ [ce_connect_us (rv_connect env) idx]\<rparr>)"
  let ?m = "bind_w (upgrade (rv_connect env) idx s) (\<lambda>_. client_workload env idx s p turns)"
  obtain r2 st2 c2 where m: "?m (st, open_guard (rv_opened env idx) ?c1) = (r2, st2, c2)"
    by (cases "?m (st, open_guard (rv_opened env idx) ?c1)")
  have "keeps_counts ?m" by (intro counts_kept)
  from keeps_countsD [OF this m] have k: "kept c2 = kept (open_guard (rv_opened env idx) ?c1)" by simp
  have c': "c' = drop_guard (rv_closed env idx) (if \<not> isl r2 \<and> \<not> is_http s then transaction_completed c2 else c2)"
    using assms m Inr by (auto simp: transact_def connect_tcp_def)
  have "kept (if \<not> isl r2 \<and> \<not> is_http s then transaction_completed c2 else c2) = kept c2" by simp
  with k have "kept (if \<not> isl r2 \<and> \<not> is_http s then transaction_completed c2 else c2)
      = kept (open_guard (rv_opened env idx) ?c1)" by simp
  then show ?thesis
    unfolding c' by (intro exI [of _ 1])
      (auto simp: kept_def drop_guard_def open_guard_def connection_established_def guards_balance)
qed

lemma execute_connection_accounted:
  assumes "execute_connection env s p flows (k, c) = (k', c')"
  shows "\<exists>e f. accounted c c' e f" and "k' = k + (if flows = None then 0 else 1)"
proof -
  let ?c = "c\<lparr>ct_attempted := ct_attempted c + 1\<rparr>"
  obtain flow k1 where n: "next_replay_flow flows k = (flow, k1)" by (cases "next_replay_flow flows k")
  obtain r c1 where t: "transact env s p flow (ct_attempted c) ?c = (r, c1)" by (cases "transact env s p flow (ct_attempted c) ?c")
  from transact_accounted [OF t] obtain e where e: "e \<le> 1" "ct_attempted c1 = ct_attempted c + 1"
    "ct_established c1 = ct_established c + of_nat e" "ct_failed c1 = ct_failed c"
    "ct_transaction_errors c1 = ct_transaction_errors c"
    "aw_current (ct_active c) = 0 \<longrightarrow> aw_current (ct_active c1) = 0" "e = 0 \<longrightarrow> isl r" by auto
  show "\<exists>e f. accounted c c' e f"
  proof (cases r)
    case (Inl x)
    let ?c2 = "c1\<lparr>ct_failed := ct_failed c1 + 1, ct_transaction_errors := ct_transaction_errors c1 + 1\<rparr>"
    have "c' = record_failure (rv_error_text env x) ?c2" using assms n t Inl by (simp add: execute_connection_def Let_def)
    moreover have "kept (record_failure (rv_error_text env x) ?c2) = kept ?c2" by simp
    ultimately have "accounted c c' e 1" using e by (simp add: accounted_def kept_def)
    then show ?thesis by blast
  next
    case (Inr u)
    then have "c' = c1" using assms n t by (simp add: execute_connection_def Let_def)
    then have "accounted c c' e 0" using e Inr by (cases e) (auto simp: accounted_def)
    then show ?thesis by blast
  qed
  show "k' = k + (if flows = None then 0 else 1)"
    using assms n t by (cases flows; cases r) (auto simp: execute_connection_def next_replay_flow_def Let_def)
qed

lemma connections_accounted:
  "((execute_connection env s p flows) ^^ n) (0, counters_default now) = (k, c) \<Longrightarrow>
    \<exists>e f. ct_attempted c = of_nat n \<and> ct_established c = of_nat e \<and> ct_failed c = of_nat f
      \<and> ct_transaction_errors c = of_nat f \<and> e \<le> n \<and> f \<le> n \<and> n \<le> e + f
      \<and> aw_current (ct_active c) = 0 \<and> k = (if flows = None then 0 else of_nat n)"
proof (induction n arbitrary: k c)
  case 0
  then show ?case by (auto simp: counters_default_def active_window_default_def)
next
  case (Suc n)
  obtain k1 c1 where p: "((execute_connection env s p flows) ^^ n) (0, counters_default now) = (k1, c1)"
    by (cases "((execute_connection env s p flows) ^^ n) (0, counters_default now)")
  then have x: "execute_connection env s p flows (k1, c1) = (k, c)" using Suc.prems by simp
  obtain e1 f1 where ih: "ct_attempted c1 = of_nat n" "ct_established c1 = of_nat e1" "ct_failed c1 = of_nat f1"
      "ct_transaction_errors c1 = of_nat f1" "e1 \<le> n" "f1 \<le> n" "n \<le> e1 + f1"
      "aw_current (ct_active c1) = 0" "k1 = (if flows = None then 0 else of_nat n)"
    using Suc.IH [OF p] by blast
  obtain e f where "accounted c1 c e f" "k = k1 + (if flows = None then 0 else 1)"
    using execute_connection_accounted [OF x] by blast
  then show ?case using ih
    by (intro exI [of _ "e1 + e"] exI [of _ "f1 + f"]) (auto simp: accounted_def algebra_simps)
qed

text \<open>
  C12. Every connection of a client is accounted for. After any number of connections, whatever the
  network, the proxy, TLS and the peers did to each of them, the client has attempted that
  many; as many transactions as connections have failed; every connection was established or failed,
  and none is still counted as active; and a replay has gone round its flows once for each.
\<close>

theorem client_counts_consistent:
  assumes "((execute_connection env s p flows) ^^ n) (0, counters_default now) = (k, c)" and "n < 2 ^ 64"
  shows "unat (ct_attempted c) = n \<and> ct_failed c = ct_transaction_errors c
    \<and> unat (ct_established c) \<le> n \<and> unat (ct_failed c) \<le> n
    \<and> n \<le> unat (ct_established c) + unat (ct_failed c)
    \<and> aw_current (ct_active c) = 0 \<and> k = (if flows = None then 0 else of_nat n)"
  using connections_accounted [OF assms(1)] assms(2) by (auto simp: unat_of_nat)

theorem client_counts_consistent_witness:
  "\<exists>env k c. ((execute_connection env (scenario_default 3 4) \<lparr>pr_request = [], pr_response = []\<rparr> None) ^^ 2)
      (0, counters_default 0) = (k, c) \<and> unat (ct_attempted c) = 2 \<and> 2 \<le> unat (ct_established c) + unat (ct_failed c)"
proof -
  fix env
  obtain k c where x: "((execute_connection env (scenario_default 3 4) \<lparr>pr_request = [], pr_response = []\<rparr> None) ^^ 2)
      (0, counters_default 0) = (k, c)"
    by (cases "((execute_connection env (scenario_default 3 4) \<lparr>pr_request = [], pr_response = []\<rparr> None) ^^ 2)
      (0, counters_default 0)")
  from client_counts_consistent [OF x] x show ?thesis by auto
qed

end
