(* ===== verification/Launch_Agents.thy ===== *)
theory Launch_Agents
  imports Control_Facts Agent_Session_Facts
begin

text \<open>
  The two ends of a start together: what the control plane sends to an agent when it launches a run,
  handled by the session of that agent.
\<close>

text \<open>What a session is sent of the messages of a launch.\<close>

definition messages_for :: "uuid \<Rightarrow> (uuid \<times> control_message) list \<Rightarrow> control_message list" where
  "messages_for g ms = map snd (filter (\<lambda>x. fst x = g) ms)"

definition at_runtime :: "endpoint_runtime \<Rightarrow> ip_addr list \<Rightarrow> scenario \<Rightarrow> scenario" where
  "at_runtime rt ips s =
     (case rt of (target, ifc, ns, sources) \<Rightarrow>
        s\<lparr>sc_runtime_target_addr := non_empty target, sc_runtime_interface := non_empty ifc,
          sc_runtime_namespace := non_empty ns, sc_runtime_source_ips := ips\<rparr>)"

lemma validate_at_runtime: "scenario_validate (at_runtime rt ips s) = scenario_validate s"
  by (cases rt) (simp add: at_runtime_def scenario_validate_def load_checks_def protocol_checks_def
      maximum_virtual_clients_def del: run_checks.simps run_checks_ok)

text \<open>An agent that can prepare a run: it reads what it is sent, and has what the run needs.\<close>

definition can_prepare :: "('k, 'd) agent_env \<Rightarrow> 'k session_state \<Rightarrow> string \<Rightarrow> string \<Rightarrow> role \<Rightarrow> endpoint_runtime \<Rightarrow> prepared \<Rightarrow> bool" where
  "can_prepare env st run json role rt job \<longleftrightarrow>
     (\<exists>s ips. ae_parse_scenario env json = Some s \<and> scenario_validate s = Inr ()
        \<and> parse_sources (ae_parse_ip env) (snd (snd (snd rt))) = Inr ips
        \<and> ae_parse_uuid env run = Some (pd_run_id job) \<and> pd_scenario job = at_runtime rt ips s
        \<and> prepared_payloads_new (ae_random env (sn_tick st) False) (ae_random env (sn_tick st) True)
            (pd_scenario job) (as_completed (sn_store st)) = Inr (pd_payloads job)
        \<and> prepare_replay env (sn_store st) (pd_scenario job) role = Inr (pd_replay job))"

lemma prepare_job_ok:
  assumes "can_prepare env st run json role rt job" and "prepare_message run json r rt = Prepare p"
  shows "prepare_job env (sn_tick st) (sn_store st) role (p\<lparr>pr_command_id := i\<rparr>) = Inr job"
proof -
  obtain target ifc ns sources where rt: "rt = (target, ifc, ns, sources)" by (cases rt)
  obtain s ips where c: "ae_parse_scenario env json = Some s" "scenario_validate s = Inr ()"
     "parse_sources (ae_parse_ip env) sources = Inr ips" "ae_parse_uuid env run = Some (pd_run_id job)"
     "pd_scenario job = at_runtime rt ips s"
     "prepared_payloads_new (ae_random env (sn_tick st) False) (ae_random env (sn_tick st) True)
            (pd_scenario job) (as_completed (sn_store st)) = Inr (pd_payloads job)"
     "prepare_replay env (sn_store st) (pd_scenario job) role = Inr (pd_replay job)"
    using assms(1) unfolding can_prepare_def rt by auto
  have p: "p = \<lparr>pr_run_id = run, pr_scenario_json = json, pr_command_id = [], pr_endpoint_role = r, pr_target_addr = target,
      pr_interface_name = ifc, pr_namespace = ns, pr_source_ips = sources\<rparr>"
    using assms(2) by (simp add: prepare_message_def rt)
  have "runtime_scenario (p\<lparr>pr_command_id := i\<rparr>) ips s = pd_scenario job"
    unfolding c(5) by (simp add: runtime_scenario_def at_runtime_def rt p)
  moreover have "scenario_validate (pd_scenario job) = Inr ()" unfolding c(5) validate_at_runtime by (rule c(2))
  ultimately show ?thesis
    using c by (simp add: prepare_job_def p ok_or_def bind_res_def map_err_def Let_def)
qed

lemma seen_after_remember: "command_seen (remember_command a m) b \<Longrightarrow> command_seen m b \<or> a = b"
  by (auto simp: command_seen_def remember_command_def Let_def split: if_splits)

lemma prepare_handled:
  assumes "sn_open st" and "as_incoming (sn_store st) = Map.empty" and "\<not> command_seen (sn_memory st) i"
    and "can_prepare env st run json role rt job"
  shows "handle_command env (with_command_id (prepare_message run json (role_proto role) rt) i) st
    = (None, (remember i (st\<lparr>sn_prepared := (sn_prepared st)(role_proto role \<mapsto> job), sn_tick := Suc (sn_tick st)\<rparr>))
        \<lparr>sn_sent := sn_sent st @ [ack i run ''prepare'' True []]\<rparr>)"
proof -
  obtain p where p: "prepare_message run json (role_proto role) rt = Prepare p"
    by (cases rt) (simp add: prepare_message_def)
  then have f: "pr_endpoint_role p = role_proto role" "pr_run_id p = run" by (auto simp: prepare_message_def split: prod.splits)
  have "role_from_proto (role_proto role) = Some role" by (cases role) (simp_all add: role_from_proto_def)
  then show ?thesis
    using assms(1-3) prepare_job_ok [OF assms(4) p, of i] f
    by (simp add: p handle_command_def handle_prepare_def send_agent_def remember_def)
qed

lemma start_handled:
  assumes "sn_open st" and "\<not> command_seen (sn_memory st) i" and "sn_prepared st (role_proto role) = Some job"
    and "\<forall>n. \<not> sn_running st n"
  shows "handle_command env (with_command_id (start_message run ms (role_proto role)) i) st
    = (None, (remember i (start_worker (role_proto role) role job ms st))\<lparr>sn_sent := sn_sent st @ [ack i run ''start'' True []]\<rparr>)"
proof -
  have "role_from_proto (role_proto role) = Some role" by (cases role) (simp_all add: role_from_proto_def)
  moreover have "\<not> active_run_conflicts (sn_active st) (sn_running st) (role_proto role) (pd_run_id job)"
    using assms(4) by (auto simp: active_run_conflicts_def split: option.splits)
  ultimately show ?thesis
    using assms(1-3)
    by (simp add: start_message_def handle_command_def handle_start_def send_agent_def remember_def start_worker_def Let_def)
qed

text \<open>
  C8. What the control plane sends when it launches a run makes each agent work on it. Let the launch
  go to two sessions, and let the session of one of them be idle, with the artifacts of the run
  transferred. Handling its share of the launch, in order, it acknowledges the preparation and the
  start, and then has one more worker, which is running, for the endpoint the launch gave the
  agent, on a job of this run whose scenario has the addresses, interface and namespace of that endpoint.
\<close>

theorem launched_run_works:
  fixes st :: "'k session_state"
  assumes "c \<noteq> v" and "(g, role, rt) \<in> {(c, ClientRole, crt), (v, ServerRole, vrt)}"
    and "distinct [i1, i2, i3, i4]"
    and "sn_open st" and "as_incoming (sn_store st) = Map.empty" and "\<forall>n. \<not> sn_running st n"
    and "\<forall>i\<in>{i1, i2, i3, i4}. \<not> command_seen (sn_memory st) i"
    and "can_prepare env st run json role rt job"
  shows "\<exists>st' pid sid wk.
      handle_commands env (messages_for g (launch_messages run json ms (c, crt) (v, vrt) (i1, i2, i3, i4))) st = (None, st')
    \<and> sn_sent st' = sn_sent st @ [ack pid run ''prepare'' True [], ack sid run ''start'' True []]
    \<and> sn_workers st' = sn_workers st @ [wk] \<and> sn_running st' (wk_number wk)
    \<and> wk_role wk = role \<and> wk_job wk = job \<and> wk_start_ms wk = ms"
proof -
  let ?r = "role_proto role"
  obtain pid sid where i: "messages_for g (launch_messages run json ms (c, crt) (v, vrt) (i1, i2, i3, i4))
      = [with_command_id (prepare_message run json ?r rt) pid, with_command_id (start_message run ms ?r) sid]"
    "pid \<noteq> sid" "\<not> command_seen (sn_memory st) pid" "\<not> command_seen (sn_memory st) sid"
    using assms(1-3,7) by (auto simp: messages_for_def launch_messages_def)
  let ?st1 = "(remember pid (st\<lparr>sn_prepared := (sn_prepared st)(?r \<mapsto> job), sn_tick := Suc (sn_tick st)\<rparr>))
        \<lparr>sn_sent := sn_sent st @ [ack pid run ''prepare'' True []]\<rparr>"
  let ?st2 = "(remember sid (start_worker ?r role job ms ?st1))\<lparr>sn_sent := sn_sent ?st1 @ [ack sid run ''start'' True []]\<rparr>"
  have p: "handle_command env (with_command_id (prepare_message run json ?r rt) pid) st = (None, ?st1)"
    using assms(4,5) i(3) assms(8) by (rule prepare_handled)
  have "\<not> command_seen (sn_memory ?st1) sid" using seen_after_remember i(2,4) by (auto simp: remember_def)
  then have s: "handle_command env (with_command_id (start_message run ms ?r) sid) ?st1 = (None, ?st2)"
    using assms(4,6) by (intro start_handled) (simp_all add: remember_def)
  have "handle_commands env (messages_for g (launch_messages run json ms (c, crt) (v, vrt) (i1, i2, i3, i4))) st = (None, ?st2)"
    unfolding i(1) using p s by simp
  then show ?thesis
    by (intro exI [of _ ?st2] exI [of _ pid] exI [of _ "sid"]
        exI [of _ "\<lparr>wk_number = sn_next st, wk_job = job, wk_role = role, wk_start_ms = ms\<rparr>"])
      (simp add: remember_def start_worker_def Let_def)
qed

theorem launched_run_works_witness:
  "\<exists>st'. handle_commands example_env
      (messages_for 7 (launch_messages ''1'' ''{}'' 5 (7, [], [], [], []) (8, [], [], [], []) (''a'', ''b'', ''c'', ''d''))) fresh_session
      = (None, st')
    \<and> (\<exists>wk. sn_workers st' = [wk] \<and> sn_running st' (wk_number wk) \<and> pd_run_id (wk_job wk) = 1)"
proof -
  let ?s = "(scenario_default 3 4)\<lparr>sc_path := ExplicitProxy ''n'' (V4 0) ''n'' (V4 0) 80 ''p:1''\<rparr>"
  have valid: "scenario_validate ?s = Inr ()" by code_simp
  have "\<exists>payloads. prepared_payloads_new (ae_random example_env (sn_tick fresh_session) False)
      (ae_random example_env (sn_tick fresh_session) True) (at_runtime ([], [], [], []) [] ?s)
      (as_completed (sn_store fresh_session)) = Inr payloads"
    by (simp add: prepared_payloads_new_def at_runtime_def example_env_def fresh_session_def scenario_default_def
        payload_fixed_def materialize_def bind_res_def Let_def)
  then obtain payloads where pay: "prepared_payloads_new (ae_random example_env (sn_tick fresh_session) False)
      (ae_random example_env (sn_tick fresh_session) True) (at_runtime ([], [], [], []) [] ?s)
      (as_completed (sn_store fresh_session)) = Inr payloads" by blast
  define job where "job = \<lparr>pd_run_id = 1, pd_scenario = at_runtime ([], [], [], []) [] ?s, pd_payloads = payloads, pd_replay = None\<rparr>"
  have can: "can_prepare example_env fresh_session ''1'' ''{}'' ClientRole ([], [], [], []) job"
    unfolding can_prepare_def using valid pay
    by (intro exI [of _ ?s] exI [of _ "[]"])
      (simp add: job_def example_env_def prepare_replay_def at_runtime_def scenario_default_def del: run_checks_ok)
  have idle: "sn_open fresh_session" "as_incoming (sn_store fresh_session) = Map.empty" "\<forall>n. \<not> sn_running fresh_session n"
    "\<forall>i\<in>{''a'', ''b'', ''c'', ''d''}. \<not> command_seen (sn_memory fresh_session) i"
    by (simp_all add: fresh_session_def empty_store_def command_seen_def blank_memory_def)
  show ?thesis
    using launched_run_works [of 7 8 7 ClientRole "([], [], [], [])" "([], [], [], [])" "([], [], [], [])"
        "''a''" "''b''" "''c''" "''d''", OF _ _ _ idle can, of 5]
    by (auto simp: fresh_session_def job_def)
qed

end
