(* ===== verification/Artifact_Upload.thy ===== *)
theory Artifact_Upload
  imports Capture Wire
begin

text \<open>
  Artifacts on the control plane: the handler that receives a payload or a capture as a multipart
  upload, hashes it on the way into a temporary file and stores it under its digest
  (\<open>upload_artifact\<close> in \<open>crates/control/src/main.rs\<close>), and the removal of artifacts no scenario and no
  run refers to (\<open>cleanup_orphan_artifacts\<close> in \<open>database.rs\<close>). The directory is a map from file names to
  contents, the table a list of rows; SHA-256, identifiers and the success of the n-th operation on a
  file or the database are parameters.
\<close>

section \<open>The store\<close>

datatype upload_error =
    KindUnknown | MultipartBroken | FileFieldMissing | FileFailed | UploadTooLarge | NotACapture capture_error
  | RowsFailed | OtherArtifactKind | StoredIdMalformed

record artifact_row =
  aw_id :: string
  aw_name :: string
  aw_sha256 :: string
  aw_size_bytes :: u64
  aw_format :: string
  aw_packet_count :: u64
  aw_captured_bytes :: u64
  aw_path :: string
  aw_created_at :: string
  aw_kind :: string
  aw_analysis :: json

record upload_store =
  us_files :: "string \<Rightarrow> bytes option"
  us_rows :: "artifact_row list"
  us_tick :: nat

record 'd upload_env =
  ue_sha256 :: "bytes \<Rightarrow> string"
  ue_fresh :: "nat \<Rightarrow> uuid"
  ue_show_uuid :: "uuid \<Rightarrow> string"
  ue_parse_uuid :: "string \<Rightarrow> uuid option"
  ue_ok :: "nat \<Rightarrow> bool"
  ue_now :: "nat \<Rightarrow> string"
  ue_hpack :: "'d hpack"
  ue_decoder :: 'd

type_synonym 'a store_action = "upload_store \<Rightarrow> (upload_error + 'a) \<times> upload_store"

definition bind_u :: "'a store_action \<Rightarrow> ('a \<Rightarrow> 'b store_action) \<Rightarrow> 'b store_action" where
  "bind_u m f st = (case m st of (Inl e, st) \<Rightarrow> (Inl e, st) | (Inr x, st) \<Rightarrow> f x st)"

definition return_u :: "'a \<Rightarrow> 'a store_action" where "return_u x st = (Inr x, st)"

definition fail_u :: "upload_error \<Rightarrow> 'a store_action" where "fail_u e st = (Inl e, st)"

text \<open>An operation on a file or the database: done, or the error and nothing done.\<close>

definition attempt_u :: "'d upload_env \<Rightarrow> upload_error \<Rightarrow> (upload_store \<Rightarrow> upload_store) \<Rightarrow> unit store_action" where
  "attempt_u env e f st =
     (let st' = st\<lparr>us_tick := Suc (us_tick st)\<rparr>
      in if ue_ok env (us_tick st) then (Inr (), f st') else (Inl e, st'))"

definition ignore_u :: "unit store_action \<Rightarrow> unit store_action" where
  "ignore_u m st = (Inr (), snd (m st))"

definition write_file :: "string \<Rightarrow> bytes \<Rightarrow> upload_store \<Rightarrow> upload_store" where
  "write_file path data st = st\<lparr>us_files := (us_files st)(path \<mapsto> data)\<rparr>"

definition remove_file :: "string \<Rightarrow> upload_store \<Rightarrow> upload_store" where
  "remove_file path st = st\<lparr>us_files := (us_files st)(path := None)\<rparr>"

definition rename_file :: "string \<Rightarrow> string \<Rightarrow> upload_store \<Rightarrow> upload_store" where
  "rename_file old new st = st\<lparr>us_files := (us_files st)(new := us_files st old, old := None)\<rparr>"

section \<open>Receiving the file\<close>

text \<open>
  A part of a multipart request: its name, its file name, its chunks and whether they end well. The
  chunks received are written and hashed; \<open>data\<close> is what was hashed so far.
\<close>

datatype multipart_part = Part "string option" "string option" "bytes list" bool | BrokenPart

definition upload_limit :: "string \<Rightarrow> u64 option" where
  "upload_limit kind =
     (if kind = ''payload'' then Some (64 * 1024 * 1024) else if kind = ''pcap'' then Some (512 * 1024 * 1024) else None)"

definition append_file :: "string \<Rightarrow> bytes \<Rightarrow> upload_store \<Rightarrow> upload_store" where
  "append_file path data st =
     write_file path ((case us_files st path of None \<Rightarrow> [] | Some old \<Rightarrow> old) @ data) st"

fun receive_chunks :: "'d upload_env \<Rightarrow> u64 \<Rightarrow> string \<Rightarrow> bytes list \<Rightarrow> bool \<Rightarrow> u64 \<Rightarrow> bytes \<Rightarrow> (u64 \<times> bytes) store_action" where
  "receive_chunks env limit path [] ended sz data =
     (if \<not> ended then fail_u MultipartBroken
      else bind_u (attempt_u env FileFailed (\<lambda>st. st)) (\<lambda>_. return_u (sz, data)))"
| "receive_chunks env limit path (chunk # chunks) ended sz data =
     (let sz = sat_add sz (of_nat (length chunk))
      in if limit < sz then bind_u (ignore_u (attempt_u env FileFailed (remove_file path))) (\<lambda>_. fail_u UploadTooLarge)
         else bind_u (attempt_u env FileFailed (append_file path chunk)) (\<lambda>_.
                receive_chunks env limit path chunks ended sz (data @ chunk)))"

definition temporary_name :: "'d upload_env \<Rightarrow> nat \<Rightarrow> string" where
  "temporary_name env n = ''.upload-'' @ ue_show_uuid env (ue_fresh env n)"

definition receive_part :: "'d upload_env \<Rightarrow> u64 \<Rightarrow> string \<Rightarrow> string option \<Rightarrow> bytes list \<Rightarrow> bool
    \<Rightarrow> (string \<times> string \<times> u64 \<times> string) option store_action" where
  "receive_part env limit path title chunks ended =
     bind_u (attempt_u env FileFailed (write_file path [])) (\<lambda>_.
     bind_u (receive_chunks env limit path chunks ended 0 []) (\<lambda>(sz, data).
       return_u (Some (case title of None \<Rightarrow> ''capture.pcap'' | Some f \<Rightarrow> f, path, sz, ue_sha256 env data))))"

text \<open>The parts up to the first one named \<open>file\<close>: its file name, the temporary file, its size and its digest.\<close>

fun receive_file :: "'d upload_env \<Rightarrow> u64 \<Rightarrow> multipart_part list \<Rightarrow> (string \<times> string \<times> u64 \<times> string) option store_action" where
  "receive_file env limit [] = return_u None"
| "receive_file env limit (BrokenPart # parts) = fail_u MultipartBroken"
| "receive_file env limit (Part name title chunks ended # parts) =
     (if name \<noteq> Some ''file'' then receive_file env limit parts
      else (\<lambda>st. receive_part env limit (temporary_name env (us_tick st)) title chunks ended st))"

section \<open>What is kept of a capture\<close>

definition count_json :: "nat \<Rightarrow> json" where "count_json n = JNumber (int n)"

definition exclusions_json :: "exclusions \<Rightarrow> json" where
  "exclusions_json ex = JObject
     (map (\<lambda>(k, f). (k, count_json (unat (f ex))))
       [(''non_tcp_packets'', ex_non_tcp_packets), (''fragmented_packets'', ex_fragmented_packets),
        (''truncated_packets'', ex_truncated_packets), (''unsupported_link_packets'', ex_unsupported_link_packets),
        (''incomplete_flows'', ex_incomplete_flows), (''encrypted_tls_flows'', ex_encrypted_tls_flows),
        (''non_http_flows'', ex_non_http_flows), (''unsupported_http_flows'', ex_unsupported_http_flows),
        (''http_upgrade_flows'', ex_http_upgrade_flows), (''unsupported_http2_flows'', ex_unsupported_http2_flows)])"

definition capture_summary :: "capture_analysis \<Rightarrow> json" where
  "capture_summary a =
     (let flows = ca_flows a in JObject
       [(''supported_flow_count'', count_json (length flows)),
        (''http_flow_count'', count_json (length (filter (\<lambda>f. rf_http_transactions f \<noteq> []) flows))),
        (''http_transaction_count'', count_json (sum_list (map (length \<circ> rf_http_transactions) flows))),
        (''http2_flow_count'', count_json (length (filter (\<lambda>f. rf_http2_transactions f \<noteq> []) flows))),
        (''http2_transaction_count'', count_json (sum_list (map (length \<circ> rf_http2_transactions) flows))),
        (''retransmitted_bytes'', count_json (unat (sum_list (map rf_retransmitted_bytes flows)))),
        (''exclusions'', exclusions_json (ca_exclusions a))])"

definition format_name :: "capture_format \<Rightarrow> string" where
  "format_name f = (case f of Pcap \<Rightarrow> ''pcap'' | PcapNg \<Rightarrow> ''pcapng'')"

text \<open>Format, packets, bytes and summary; a file that is no capture is removed.\<close>

definition examine_upload :: "'d upload_env \<Rightarrow> string \<Rightarrow> string \<Rightarrow> u64 \<Rightarrow> (string \<times> u64 \<times> u64 \<times> json) store_action" where
  "examine_upload env kind path sz =
     (if kind = ''payload'' then
        return_u (''raw'', 0, sz, JObject [(''supported_flow_count'', JNumber 0), (''exclusions'', JObject [])])
      else bind_u (attempt_u env FileFailed (\<lambda>st. st)) (\<lambda>_ st.
        case us_files st path of
          None \<Rightarrow> (Inl FileFailed, st)
        | Some capture \<Rightarrow>
            (case analyze_capture (ue_hpack env) (ue_decoder env) capture of
               Inl e \<Rightarrow> bind_u (ignore_u (attempt_u env FileFailed (remove_file path))) (\<lambda>_. fail_u (NotACapture e)) st
             | Inr (format, a) \<Rightarrow>
                 (Inr (format_name format, ca_packet_count a, ca_captured_bytes a, capture_summary a), st))))"

section \<open>Storing it\<close>

text \<open>The temporary file takes the name of the digest, or goes when there is a file of that name.\<close>

definition keep_file :: "'d upload_env \<Rightarrow> string \<Rightarrow> string \<Rightarrow> unit store_action" where
  "keep_file env temporary path st =
     (if ue_ok env (us_tick st) \<and> us_files st path \<noteq> None
      then attempt_u env FileFailed (remove_file temporary) (st\<lparr>us_tick := Suc (us_tick st)\<rparr>)
      else attempt_u env FileFailed (rename_file temporary path) (st\<lparr>us_tick := Suc (us_tick st)\<rparr>))"

text \<open>
  The insertion of a row: nothing when a row has the digest, an error when one has the identifier.
  The number of rows inserted is returned.
\<close>

definition insert_row :: "'d upload_env \<Rightarrow> artifact_row \<Rightarrow> nat store_action" where
  "insert_row env row =
     bind_u (attempt_u env RowsFailed (\<lambda>st. st)) (\<lambda>_ st.
       if aw_sha256 row \<in> aw_sha256 ` set (us_rows st) then (Inr 0, st)
       else if aw_id row \<in> aw_id ` set (us_rows st) then (Inl RowsFailed, st)
       else (Inr 1, st\<lparr>us_rows := us_rows st @ [row]\<rparr>))"

definition existing_row :: "'d upload_env \<Rightarrow> string \<Rightarrow> string \<Rightarrow> uuid store_action" where
  "existing_row env sha kind =
     bind_u (attempt_u env RowsFailed (\<lambda>st. st)) (\<lambda>_ st.
       case find (\<lambda>r. aw_sha256 r = sha) (us_rows st) of
         None \<Rightarrow> (Inl RowsFailed, st)
       | Some r \<Rightarrow>
           if aw_kind r \<noteq> kind then (Inl OtherArtifactKind, st)
           else case ue_parse_uuid env (aw_id r) of None \<Rightarrow> (Inl StoredIdMalformed, st) | Some i \<Rightarrow> (Inr i, st))"

text \<open>The row is inserted, or the row of the same content gives the identifier.\<close>

definition register_row :: "'d upload_env \<Rightarrow> artifact_row \<Rightarrow> uuid \<Rightarrow> uuid store_action" where
  "register_row env row fresh =
     bind_u (insert_row env row) (\<lambda>inserted.
       if inserted = 0 then existing_row env (aw_sha256 row) (aw_kind row) else return_u fresh)"

definition upload_answer :: "'d upload_env \<Rightarrow> artifact_row \<Rightarrow> uuid \<Rightarrow> json" where
  "upload_answer env row i = JObject
     [(''id'', JString (ue_show_uuid env i)), (''kind'', JString (aw_kind row)), (''name'', JString (aw_name row)),
      (''sha256'', JString (aw_sha256 row)), (''size_bytes'', count_json (unat (aw_size_bytes row))),
      (''format'', JString (aw_format row)), (''packet_count'', count_json (unat (aw_packet_count row))),
      (''captured_bytes'', count_json (unat (aw_captured_bytes row))), (''analysis'', aw_analysis row),
      (''status'', JString ''validated'')]"

definition upload_row :: "'d upload_env \<Rightarrow> string \<Rightarrow> string \<Rightarrow> u64 \<Rightarrow> string \<Rightarrow> string \<times> u64 \<times> u64 \<times> json \<Rightarrow> uuid \<Rightarrow> string
    \<Rightarrow> artifact_row" where
  "upload_row env kind name sz sha examined fresh created =
     (case examined of (format, packets, captured, analysis) \<Rightarrow>
        \<lparr>aw_id = ue_show_uuid env fresh, aw_name = name, aw_sha256 = sha, aw_size_bytes = sz, aw_format = format,
         aw_packet_count = packets, aw_captured_bytes = captured, aw_path = sha, aw_created_at = created,
         aw_kind = kind, aw_analysis = analysis\<rparr>)"

text \<open>What follows when the file has been examined.\<close>

definition store_upload :: "'d upload_env \<Rightarrow> string \<Rightarrow> string \<Rightarrow> string \<Rightarrow> u64 \<Rightarrow> string \<Rightarrow> string \<times> u64 \<times> u64 \<times> json
    \<Rightarrow> json store_action" where
  "store_upload env kind name tmp sz sha examined st =
     (let fresh = ue_fresh env (us_tick st)
      in bind_u (keep_file env tmp sha) (\<lambda>_ st.
         let row = upload_row env kind name sz sha examined fresh (ue_now env (us_tick st))
         in bind_u (register_row env row fresh) (\<lambda>i. return_u (upload_answer env row i)) st) st)"

definition upload_kind :: "string option \<Rightarrow> string" where
  "upload_kind requested = (case requested of None \<Rightarrow> ''pcap'' | Some k \<Rightarrow> k)"

definition upload_artifact :: "'d upload_env \<Rightarrow> string option \<Rightarrow> multipart_part list \<Rightarrow> json store_action" where
  "upload_artifact env requested parts =
     (let kind = upload_kind requested
      in case upload_limit kind of
           None \<Rightarrow> fail_u KindUnknown
         | Some limit \<Rightarrow>
             bind_u (receive_file env limit parts) (\<lambda>received. case received of
               None \<Rightarrow> fail_u FileFieldMissing
             | Some (name, tmp, sz, sha) \<Rightarrow>
                 bind_u (examine_upload env kind tmp sz) (store_upload env kind name tmp sz sha)))"

section \<open>Orphans\<close>

text \<open>\<open>LIKE '%id%'\<close> finds a text that contains the identifier, in either case.\<close>

definition mentions :: "string \<Rightarrow> string \<Rightarrow> bool" where
  "mentions i text \<longleftrightarrow>
     find_window (length i) (\<lambda>part. eq_ignore_ascii_case (bytes_of part) (bytes_of i)) text \<noteq> None"

definition remove_orphan :: "'d upload_env \<Rightarrow> string list \<Rightarrow> string list \<Rightarrow> artifact_row \<Rightarrow> unit store_action" where
  "remove_orphan env scenarios runs row =
     bind_u (attempt_u env RowsFailed (\<lambda>st. st)) (\<lambda>_.
     bind_u (attempt_u env RowsFailed (\<lambda>st. st)) (\<lambda>_ st.
       if list_ex (mentions (aw_id row)) scenarios \<or> list_ex (mentions (aw_id row)) runs then (Inr (), st)
       else
         let missing = us_files st (aw_path row) = None;
             removed = ue_ok env (us_tick st);
             st = st\<lparr>us_tick := Suc (us_tick st)\<rparr>
         in if \<not> removed \<and> \<not> missing then (Inr (), st)
            else attempt_u env RowsFailed (\<lambda>st. st\<lparr>us_rows := filter (\<lambda>r. aw_id r \<noteq> aw_id row) (us_rows st)\<rparr>)
                   (remove_file (aw_path row) st)))"

fun remove_orphans :: "'d upload_env \<Rightarrow> string list \<Rightarrow> string list \<Rightarrow> artifact_row list \<Rightarrow> unit store_action" where
  "remove_orphans env scenarios runs [] = return_u ()"
| "remove_orphans env scenarios runs (row # rows) =
     bind_u (remove_orphan env scenarios runs row) (\<lambda>_. remove_orphans env scenarios runs rows)"

text \<open>\<open>before cutoff\<close> says which creation times are before the cutoff.\<close>

definition cleanup_orphan_artifacts :: "'d upload_env \<Rightarrow> (string \<Rightarrow> bool) \<Rightarrow> string list \<Rightarrow> string list \<Rightarrow> unit store_action" where
  "cleanup_orphan_artifacts env before scenarios runs =
     bind_u (attempt_u env RowsFailed (\<lambda>st. st)) (\<lambda>_ st.
       remove_orphans env scenarios runs (filter (\<lambda>r. before (aw_created_at r)) (us_rows st)) st)"

end
