(* ===== verification/Upload_Facts.thy ===== *)
theory Upload_Facts
  imports Artifact_Upload "HOL-Library.AList"
begin

text \<open>
  The store of artifacts: a file that is not temporary has the content its name is the digest of, a
  row describes the content it has the digest of, and no two rows have a digest or an identifier in common. Uploads
  keep this, whatever fails, and the removal of orphans does.
\<close>

section \<open>The invariant\<close>

definition temporary :: "string \<Rightarrow> bool" where "temporary name \<longleftrightarrow> starts_with name ''.upload-''"

definition describes :: "'d upload_env \<Rightarrow> artifact_row \<Rightarrow> bytes \<Rightarrow> bool" where
  "describes env row data \<longleftrightarrow>
     aw_sha256 row = ue_sha256 env data \<and> aw_path row = aw_sha256 row \<and> aw_size_bytes row = of_nat (length data)
   \<and> (\<exists>limit. upload_limit (aw_kind row) = Some limit \<and> length data \<le> unat limit)
   \<and> (\<exists>i. aw_id row = ue_show_uuid env i)"

definition files_ok :: "'d upload_env \<Rightarrow> upload_store \<Rightarrow> bool" where
  "files_ok env st \<longleftrightarrow> (\<forall>name data. us_files st name = Some data \<longrightarrow> \<not> temporary name \<longrightarrow> ue_sha256 env data = name)"

definition rows_ok :: "'d upload_env \<Rightarrow> upload_store \<Rightarrow> bool" where
  "rows_ok env st \<longleftrightarrow>
     distinct (map aw_sha256 (us_rows st)) \<and> distinct (map aw_id (us_rows st))
   \<and> (\<forall>row\<in>set (us_rows st). \<exists>data. describes env row data)"

definition store_ok :: "'d upload_env \<Rightarrow> upload_store \<Rightarrow> bool" where
  "store_ok env st \<longleftrightarrow> files_ok env st \<and> rows_ok env st"

text \<open>
  What is relied on of the digest and of identifiers: different contents have different digests, none of which looks
  like the name of a temporary file, and an identifier is read back from its text.
\<close>

definition env_ok :: "'d upload_env \<Rightarrow> bool" where
  "env_ok env \<longleftrightarrow>
     (\<forall>a b. ue_sha256 env a = ue_sha256 env b \<longrightarrow> a = b) \<and> (\<forall>a. \<not> temporary (ue_sha256 env a))
   \<and> (\<forall>i. ue_parse_uuid env (ue_show_uuid env i) = Some i)"

lemma env_okD:
  assumes "env_ok env"
  shows "ue_sha256 env a = ue_sha256 env b \<Longrightarrow> a = b" and "\<not> temporary (ue_sha256 env a)"
    and "ue_parse_uuid env (ue_show_uuid env i) = Some i"
  using assms by (auto simp: env_ok_def)

section \<open>Only temporary files\<close>

text \<open>Up to the moment the file is kept, nothing but a temporary file changes.\<close>

definition only_temporary :: "upload_store \<Rightarrow> upload_store \<Rightarrow> bool" where
  "only_temporary st st' \<longleftrightarrow>
     us_rows st' = us_rows st \<and> (\<forall>name. \<not> temporary name \<longrightarrow> us_files st' name = us_files st name)"

definition framed :: "'a store_action \<Rightarrow> bool" where
  "framed m \<longleftrightarrow> (\<forall>st. only_temporary st (snd (m st)))"

lemma framedI: "(\<And>st r st'. m st = (r, st') \<Longrightarrow> only_temporary st st') \<Longrightarrow> framed m"
  unfolding framed_def by (metis prod.collapse)

lemma framedD: "framed m \<Longrightarrow> m st = (r, st') \<Longrightarrow> only_temporary st st'"
  unfolding framed_def by (metis snd_conv)

lemma only_temporary_refl [simp]: "only_temporary st st"
  by (simp add: only_temporary_def)

lemma only_temporary_trans: "only_temporary a b \<Longrightarrow> only_temporary b c \<Longrightarrow> only_temporary a c"
  by (simp add: only_temporary_def)

lemma framed_bind:
  assumes "framed m" and "\<And>x. framed (f x)"
  shows "framed (bind_u m f)"
proof (rule framedI)
  fix st r st' assume b: "bind_u m f st = (r, st')"
  obtain q st1 where m: "m st = (q, st1)" by (cases "m st")
  show "only_temporary st st'"
    using b m framedD [OF assms(1) m] framedD [OF assms(2)] only_temporary_trans
    by (cases q) (auto simp: bind_u_def)
qed

lemma framed_pure [simp]: "framed (return_u x)" "framed (fail_u e)"
  by (simp_all add: framed_def return_u_def fail_u_def)

lemma framed_attempt:
  "(\<And>st. only_temporary st (f st)) \<Longrightarrow> framed (attempt_u env e f)"
  by (rule framedI) (auto simp: attempt_u_def Let_def only_temporary_def split: if_splits)

lemma framed_ignore: "framed m \<Longrightarrow> framed (ignore_u m)"
  by (simp add: framed_def ignore_u_def)

lemma framed_files:
  assumes "temporary path"
  shows "only_temporary st (write_file path data st)" "only_temporary st (remove_file path st)"
    "only_temporary st (append_file path data st)"
  using assms by (auto simp: only_temporary_def write_file_def remove_file_def append_file_def)

lemma framed_receive_chunks:
  "temporary path \<Longrightarrow> framed (receive_chunks env limit path chunks ended sz data)"
  by (induction chunks arbitrary: sz data)
    (auto intro!: framed_bind framed_attempt framed_ignore framed_files simp: Let_def)

lemma temporary_name [simp]: "temporary (temporary_name env n)"
  by (simp add: temporary_def temporary_name_def starts_with_def)

lemma framed_receive_part: "temporary path \<Longrightarrow> framed (receive_part env limit path title chunks ended)"
  unfolding receive_part_def
  by (auto intro!: framed_bind framed_attempt framed_files framed_receive_chunks split: prod.split)

lemma framed_receive_file: "framed (receive_file env limit parts)"
proof (induction env limit parts rule: receive_file.induct)
  case (3 env limit name title chunks ended parts)
  then show ?case
    using framedD [OF framed_receive_part [OF temporary_name]] by (auto intro!: framedI)
qed simp_all

lemma framed_examine:
  assumes "temporary path"
  shows "framed (examine_upload env kind path sz)"
proof -
  have "framed (bind_u (ignore_u (attempt_u env FileFailed (remove_file path))) (\<lambda>_. fail_u e))" for e :: upload_error
    using assms by (intro framed_bind framed_ignore framed_attempt framed_files framed_pure)
  from framedD [OF this] show ?thesis
    unfolding examine_upload_def
    by (auto intro!: framed_bind framed_attempt framedI [where m = "\<lambda>st. case us_files st path of None \<Rightarrow> _ st | Some c \<Rightarrow> _ c st"]
      split: option.splits sum.splits)
qed

section \<open>What a successful upload has done\<close>

lemma bind_u_InrE:
  assumes "bind_u m f st = (Inr y, st')"
  obtains x st1 where "m st = (Inr x, st1)" "f x st1 = (Inr y, st')"
  using assms by (auto simp: bind_u_def split: prod.splits sum.splits)

lemma attempt_u_Inr: "attempt_u env e f st = (Inr u, st') \<Longrightarrow> st' = f (st\<lparr>us_tick := Suc (us_tick st)\<rparr>)"
  by (auto simp: attempt_u_def Let_def split: if_splits)

text \<open>The chunks received are in the file, and their size is what was counted, at most the limit.\<close>

definition chunks_fit :: "bytes list \<Rightarrow> bool" where
  "chunks_fit chunks \<longleftrightarrow> (\<forall>c\<in>set chunks. length c < 2 ^ 64)"

lemma sat_add_counted:
  fixes limit :: u64
  assumes "\<not> limit < sat_add (of_nat m) (of_nat n)" and "m \<le> unat limit" and "n < 2 ^ 64" and "unat limit < 2 ^ 64 - 1"
  shows "sat_add (of_nat m) (of_nat n) = (of_nat (m + n) :: u64) \<and> m + n \<le> unat limit"
proof -
  have "unat (of_nat m :: u64) = m" "unat (of_nat n :: u64) = n" using assms(2-4) by (simp_all add: unat_of_nat)
  moreover from this have "min (m + n) (2 ^ 64 - 1) \<le> unat limit"
    using assms(1) unat_sat_add [of "of_nat m :: u64" "of_nat n"] by (simp add: not_less word_le_nat_alt)
  ultimately show ?thesis using assms(4) by (auto simp: sat_add_def)
qed

lemma receive_chunks_Inr:
  "receive_chunks env limit path chunks ended (of_nat (length data)) data st = (Inr (sz', data'), st') \<Longrightarrow>
    us_files st path = Some data \<Longrightarrow> length data \<le> unat limit \<Longrightarrow> unat limit < 2 ^ 64 - 1 \<Longrightarrow> chunks_fit chunks \<Longrightarrow>
    data' = data @ concat chunks \<and> us_files st' path = Some data' \<and> sz' = of_nat (length data') \<and> length data' \<le> unat limit"
proof (induction chunks arbitrary: data st)
  case Nil
  then show ?case
    by (auto simp: fail_u_def return_u_def elim!: bind_u_InrE dest!: attempt_u_Inr split: if_splits)
next
  case (Cons chunk chunks)
  let ?sz = "sat_add (of_nat (length data)) (of_nat (length chunk)) :: u64"
  have ok: "\<not> limit < ?sz" using Cons.prems(1) by (auto simp: Let_def fail_u_def elim!: bind_u_InrE split: if_splits)
  have sz: "?sz = of_nat (length (data @ chunk))" "length (data @ chunk) \<le> unat limit"
    using sat_add_counted [OF ok] Cons.prems by (simp_all add: chunks_fit_def)
  obtain st1 where "st1 = append_file path chunk (st\<lparr>us_tick := Suc (us_tick st)\<rparr>)"
      "receive_chunks env limit path chunks ended ?sz (data @ chunk) st1 = (Inr (sz', data'), st')"
    using Cons.prems(1) ok by (auto simp: Let_def elim!: bind_u_InrE dest!: attempt_u_Inr)
  then have st1: "st1 = append_file path chunk (st\<lparr>us_tick := Suc (us_tick st)\<rparr>)"
      "receive_chunks env limit path chunks ended (of_nat (length (data @ chunk))) (data @ chunk) st1 = (Inr (sz', data'), st')"
    unfolding sz(1) by simp_all
  have "us_files st1 path = Some (data @ chunk)"
    using Cons.prems(2) by (simp add: st1(1) append_file_def write_file_def)
  then show ?case using Cons.IH [OF st1(2)] sz(2) Cons.prems(4,5) by (auto simp: chunks_fit_def)
qed

text \<open>The part of a request that is the file.\<close>

fun uploaded :: "multipart_part list \<Rightarrow> bytes list" where
  "uploaded (Part name title chunks ended # parts) = (if name = Some ''file'' then chunks else uploaded parts)"
| "uploaded _ = []"

lemma receive_file_Inr:
  "receive_file env limit parts st = (Inr (Some (name, path, sz, sha)), st') \<Longrightarrow> unat limit < 2 ^ 64 - 1 \<Longrightarrow>
    chunks_fit (uploaded parts) \<Longrightarrow>
    temporary path \<and> us_files st' path = Some (concat (uploaded parts)) \<and> sha = ue_sha256 env (concat (uploaded parts))
    \<and> sz = of_nat (length (concat (uploaded parts))) \<and> length (concat (uploaded parts)) \<le> unat limit"
proof (induction env limit parts rule: receive_file.induct)
  case (3 env limit field title chunks ended parts)
  show ?case
  proof (cases "field = Some ''file''")
    case False
    then show ?thesis using 3 by simp
  next
    case True
    have "receive_part env limit (temporary_name env (us_tick st)) title chunks ended st = (Inr (Some (name, path, sz, sha)), st')"
      using "3.prems"(1) True by simp
    then obtain st1 data where r: "path = temporary_name env (us_tick st)" "st1 = write_file path [] (st\<lparr>us_tick := Suc (us_tick st)\<rparr>)"
        "receive_chunks env limit path chunks ended (of_nat (length ([] :: bytes))) [] st1 = (Inr (sz, data), st')"
        "sha = ue_sha256 env data"
      by (auto simp: receive_part_def return_u_def elim!: bind_u_InrE dest!: attempt_u_Inr split: prod.splits)
    have "us_files st1 path = Some []" by (simp add: r(2) write_file_def)
    from receive_chunks_Inr [OF r(3) this] show ?thesis using r(1,4) True "3.prems"(2,3) by auto
  qed
qed (simp_all add: return_u_def fail_u_def)

lemma examine_upload_Inr:
  "examine_upload env kind path sz st = (Inr x, st') \<Longrightarrow> us_files st' = us_files st"
  unfolding examine_upload_def
  by (auto simp: return_u_def fail_u_def elim!: bind_u_InrE dest!: attempt_u_Inr split: if_splits option.splits sum.splits)

lemma keep_file_cases:
  assumes "keep_file env tmp path st = (r, st')" and "us_files st tmp = Some data" and "tmp \<noteq> path"
  shows "us_rows st' = us_rows st"
    and "us_files st' = us_files st \<or> us_files st' = (us_files st)(path \<mapsto> data, tmp := None)
      \<or> us_files st path \<noteq> None \<and> us_files st' = (us_files st)(tmp := None)"
    and "r = Inr u \<Longrightarrow> us_files st' \<noteq> us_files st"
  using assms
  by (auto simp: keep_file_def attempt_u_def Let_def remove_file_def rename_file_def dest: fun_cong [of _ _ tmp] split: if_splits)

lemma insert_row_cases:
  assumes "insert_row env row st = (r, st')"
  shows "us_files st' = us_files st
    \<and> (r = Inr 0 \<and> us_rows st' = us_rows st \<or> (\<exists>e. r = Inl e) \<and> us_rows st' = us_rows st
      \<or> r = Inr 1 \<and> us_rows st' = us_rows st @ [row] \<and> aw_sha256 row \<notin> aw_sha256 ` set (us_rows st)
        \<and> aw_id row \<notin> aw_id ` set (us_rows st))"
  using assms by (auto simp: insert_row_def bind_u_def attempt_u_def Let_def split: if_splits)

lemma find_member: "find P xs = Some x \<Longrightarrow> x \<in> set xs \<and> P x"
  by (auto simp: find_Some_iff)

lemma existing_row_cases:
  assumes "existing_row env sha kind st = (r, st')"
  shows "us_files st' = us_files st \<and> us_rows st' = us_rows st
    \<and> (\<forall>i. r = Inr i \<longrightarrow> (\<exists>row\<in>set (us_rows st). aw_sha256 row = sha \<and> aw_kind row = kind \<and> ue_parse_uuid env (aw_id row) = Some i))"
  using assms
  by (auto simp: existing_row_def bind_u_def attempt_u_def Let_def dest!: find_member split: if_splits option.splits)

section \<open>Uploads keep the store\<close>

lemma store_ok_only_temporary: "store_ok env st \<Longrightarrow> only_temporary st st' \<Longrightarrow> store_ok env st'"
  by (auto simp: store_ok_def files_ok_def rows_ok_def only_temporary_def)

text \<open>What a step of storing does: at most one row is added, and no file that is not temporary changes its content.\<close>

definition stored_more :: "'d upload_env \<Rightarrow> upload_store \<Rightarrow> upload_store \<Rightarrow> bool" where
  "stored_more env st st' \<longleftrightarrow>
     store_ok env st' \<and> (\<exists>new. us_rows st' = us_rows st @ new \<and> length new \<le> 1)
   \<and> (\<forall>name data. \<not> temporary name \<longrightarrow> us_files st name = Some data \<longrightarrow> us_files st' name = Some data)"

lemma stored_more_temporary: "store_ok env st \<Longrightarrow> only_temporary st st' \<Longrightarrow> stored_more env st st'"
  using store_ok_only_temporary by (auto simp: stored_more_def only_temporary_def)

lemma stored_more_after: "only_temporary st st1 \<Longrightarrow> stored_more env st1 st2 \<Longrightarrow> stored_more env st st2"
  by (auto simp: stored_more_def only_temporary_def)

lemma rows_ok_insert:
  assumes "rows_ok env st" and "us_rows st' = us_rows st @ [row]" and "describes env row data"
    and "aw_sha256 row \<notin> aw_sha256 ` set (us_rows st)" and "aw_id row \<notin> aw_id ` set (us_rows st)"
  shows "rows_ok env st'"
  using assms by (auto simp: rows_ok_def)

lemma keep_file_files:
  assumes env: "env_ok env" and ok: "store_ok env st" and tmp: "temporary tmp" "us_files st tmp = Some data"
    and keep: "keep_file env tmp (ue_sha256 env data) st = (r, st')"
  shows "files_ok env st' \<and> us_rows st' = us_rows st
    \<and> (\<forall>name d. \<not> temporary name \<longrightarrow> us_files st name = Some d \<longrightarrow> us_files st' name = Some d)
    \<and> (\<forall>u. r = Inr u \<longrightarrow> us_files st' (ue_sha256 env data) = Some data)"
proof -
  let ?sha = "ue_sha256 env data"
  have n: "tmp \<noteq> ?sha" using env_okD(2) [OF env, of data] tmp(1) by auto
  have same: "d = data" if "us_files st ?sha = Some d" for d
    using ok that env_okD(2) [OF env, of data] env_okD(1) [OF env] unfolding store_ok_def files_ok_def by blast
  note k = keep_file_cases [OF keep tmp(2) n]
  have f: "us_files st' = us_files st \<or> us_files st' = (us_files st)(?sha \<mapsto> data, tmp := None)
      \<or> us_files st ?sha = Some data \<and> us_files st' = (us_files st)(tmp := None)"
    using k(2) same by auto
  show ?thesis
  proof (intro conjI)
    show "files_ok env st'" using f ok tmp(1) by (auto simp: store_ok_def files_ok_def split: if_splits)
    show "us_rows st' = us_rows st" by (rule k(1))
    show "\<forall>name d. \<not> temporary name \<longrightarrow> us_files st name = Some d \<longrightarrow> us_files st' name = Some d"
      using f tmp(1) same by auto
    show "\<forall>u. r = Inr u \<longrightarrow> us_files st' ?sha = Some data" using f k(3) n by auto
  qed
qed

text \<open>The identifier given is that of a row that describes the content.\<close>

definition registered :: "'d upload_env \<Rightarrow> string \<Rightarrow> bytes \<Rightarrow> string \<Rightarrow> upload_store \<Rightarrow> bool" where
  "registered env kind data i st \<longleftrightarrow>
     (\<exists>row\<in>set (us_rows st). aw_id row = i \<and> aw_kind row = kind \<and> describes env row data)"

lemma register_row_keeps:
  assumes env: "env_ok env" and ok: "rows_ok env st" and d: "describes env row data" "aw_id row = ue_show_uuid env fresh"
    and run: "register_row env row fresh st = (r, st')"
  shows "rows_ok env st' \<and> us_files st' = us_files st \<and> (\<exists>new. us_rows st' = us_rows st @ new \<and> length new \<le> 1)
    \<and> (\<forall>i. r = Inr i \<longrightarrow> registered env (aw_kind row) data (ue_show_uuid env i) st')"
proof -
  obtain q st1 where i: "insert_row env row st = (q, st1)" by (cases "insert_row env row st")
  note ins = insert_row_cases [OF i]
  have ok1: "rows_ok env st1" using ok ins rows_ok_insert [OF ok _ d(1)] by (auto simp: rows_ok_def)
  consider e where "q = Inl e" "r = Inl e" "st' = st1"
    | n where "q = Inr n" "n \<noteq> 0" "r = Inr fresh" "st' = st1"
    | "q = Inr 0" "existing_row env (aw_sha256 row) (aw_kind row) st1 = (r, st')"
    using run i by (cases q) (auto simp: register_row_def bind_u_def return_u_def split: if_splits)
  then show ?thesis
  proof cases
    case 1
    then show ?thesis using ok1 ins by auto
  next
    case 2
    then show ?thesis using ok1 ins d by (auto simp: registered_def)
  next
    case 3
    note ex = existing_row_cases [OF 3(2)]
    have "registered env (aw_kind row) data (ue_show_uuid env i) st'" if "r = Inr i" for i
    proof -
      obtain old where old: "old \<in> set (us_rows st1)" "aw_sha256 old = aw_sha256 row" "aw_kind old = aw_kind row"
          "ue_parse_uuid env (aw_id old) = Some i" using ex \<open>r = Inr i\<close> by blast
      obtain d' where d': "describes env old d'" using ok1 old(1) by (auto simp: rows_ok_def)
      have "d' = data" using d' d(1) old(2) env_okD(1) [OF env] by (simp add: describes_def)
      moreover have "ue_show_uuid env i = aw_id old" using d' old(4) env_okD(3) [OF env] by (auto simp: describes_def)
      ultimately show ?thesis using old d' ex by (auto simp: registered_def)
    qed
    then show ?thesis using ok1 ex ins 3(1) by (auto simp: rows_ok_def)
  qed
qed

lemma store_upload_keeps:
  assumes env: "env_ok env" and ok: "store_ok env st" and tmp: "temporary tmp" "us_files st tmp = Some data"
    and kind: "upload_limit kind = Some limit" "length data \<le> unat limit"
    and run: "store_upload env kind name tmp (of_nat (length data)) (ue_sha256 env data) x st = (r, st')"
  shows "stored_more env st st'
    \<and> (\<forall>v. r = Inr v \<longrightarrow> (\<exists>i. json_get v ''id'' = JString i \<and> registered env kind data i st'
        \<and> us_files st' (ue_sha256 env data) = Some data))"
proof -
  let ?sha = "ue_sha256 env data" and ?fresh = "ue_fresh env (us_tick st)"
  obtain q st1 where k: "keep_file env tmp ?sha st = (q, st1)" by (cases "keep_file env tmp ?sha st")
  note kf = keep_file_files [OF env ok tmp k]
  have rows: "rows_ok env st1" using ok kf by (simp add: store_ok_def rows_ok_def)
  show ?thesis
  proof (cases q)
    case (Inl e)
    then have "r = Inl e" "st' = st1" using run k by (simp_all add: store_upload_def bind_u_def Let_def)
    then show ?thesis using kf rows by (simp add: stored_more_def store_ok_def)
  next
    case (Inr u)
    define row where "row = upload_row env kind name (of_nat (length data)) ?sha x ?fresh (ue_now env (us_tick st1))"
    have d: "describes env row data" "aw_kind row = kind" "aw_id row = ue_show_uuid env ?fresh"
      using kind by (auto simp: describes_def row_def upload_row_def split: prod.split)
    obtain p st2 where g: "register_row env row ?fresh st1 = (p, st2)" by (cases "register_row env row ?fresh st1")
    note reg = register_row_keeps [OF env rows d(1,3) g]
    have "st' = st2 \<and> (\<forall>v. r = Inr v \<longrightarrow> (\<exists>i. p = Inr i \<and> v = upload_answer env row i))"
      using run k Inr g by (cases p) (auto simp: store_upload_def bind_u_def return_u_def Let_def row_def)
    then show ?thesis using kf reg d(2) Inr
      by (auto simp: stored_more_def store_ok_def files_ok_def upload_answer_def json_get_def)
  qed
qed

text \<open>An upload is refused before it is stored, or its file has been received, measured and examined.\<close>

lemma upload_artifact_cases:
  assumes "upload_artifact env requested parts st = (r, st')" and "chunks_fit (uploaded parts)"
  obtains e where "r = Inl e" "only_temporary st st'"
  | limit name tmp examined st1 where "upload_limit (upload_kind requested) = Some limit" "temporary tmp"
      "only_temporary st st1" "us_files st1 tmp = Some (concat (uploaded parts))"
      "length (concat (uploaded parts)) \<le> unat limit"
      "store_upload env (upload_kind requested) name tmp (of_nat (length (concat (uploaded parts))))
         (ue_sha256 env (concat (uploaded parts))) examined st1 = (r, st')"
proof (cases "upload_limit (upload_kind requested)")
  case None
  then show ?thesis using assms(1) that(1) [of KindUnknown] by (auto simp: upload_artifact_def fail_u_def)
next
  case (Some limit)
  let ?kind = "upload_kind requested"
  have small: "unat limit < 2 ^ 64 - 1" using Some by (auto simp: upload_limit_def split: if_splits)
  obtain q st1 where f: "receive_file env limit parts st = (q, st1)" by (cases "receive_file env limit parts st")
  note t1 = framedD [OF framed_receive_file f]
  show ?thesis
  proof (cases "\<exists>name tmp sz sha. q = Inr (Some (name, tmp, sz, sha))")
    case False
    then have "(\<exists>e. r = Inl e) \<and> st' = st1"
      using assms(1) Some f by (cases q) (auto simp: upload_artifact_def Let_def bind_u_def fail_u_def split: option.splits)
    then show ?thesis using t1 that(1) by blast
  next
    case True
    then obtain name tmp sz sha where q: "q = Inr (Some (name, tmp, sz, sha))" by blast
    note got = receive_file_Inr [OF f [unfolded q] small assms(2)]
    obtain p st2 where x: "examine_upload env ?kind tmp sz st1 = (p, st2)" by (cases "examine_upload env ?kind tmp sz st1")
    have t2: "only_temporary st st2" using t1 framedD [OF framed_examine x] got only_temporary_trans by blast
    show ?thesis
    proof (cases p)
      case (Inl e)
      then show ?thesis using assms(1) Some f q x t2 that(1) by (auto simp: upload_artifact_def Let_def bind_u_def)
    next
      case (Inr examined)
      have "store_upload env ?kind name tmp (of_nat (length (concat (uploaded parts)))) (ue_sha256 env (concat (uploaded parts)))
          examined st2 = (r, st')"
        using assms(1) Some f q x Inr got by (simp add: upload_artifact_def Let_def bind_u_def)
      from that(2) [OF Some _ t2 _ _ this] show ?thesis using got examine_upload_Inr [OF x [unfolded Inr]] by simp
    qed
  qed
qed

lemma upload_stored_more:
  assumes "env_ok env" and "store_ok env st" and "chunks_fit (uploaded parts)"
    and "upload_artifact env requested parts st = (r, st')"
  shows "stored_more env st st'
    \<and> (\<forall>v. r = Inr v \<longrightarrow> (\<exists>i. json_get v ''id'' = JString i
        \<and> registered env (upload_kind requested) (concat (uploaded parts)) i st'
        \<and> us_files st' (ue_sha256 env (concat (uploaded parts))) = Some (concat (uploaded parts))))"
  using assms(4,3)
proof (cases rule: upload_artifact_cases)
  case (1 e)
  then show ?thesis using stored_more_temporary [OF assms(2) 1(2)] by simp
next
  case (2 limit name tmp examined st1)
  note kept = store_upload_keeps [OF assms(1) store_ok_only_temporary [OF assms(2) 2(3)] 2(2,4,1,5,6)]
  show ?thesis using stored_more_after [OF 2(3) conjunct1 [OF kept]] conjunct2 [OF kept] by (rule conjI)
qed


definition upload_example :: "unit upload_env" where
  "upload_example =
     \<lparr>ue_sha256 = (\<lambda>d. CHR ''x'' # map (char_of \<circ> unat) d), ue_fresh = (\<lambda>n. of_nat n), ue_show_uuid = (\<lambda>u. show_nat (unat u)),
      ue_parse_uuid = (\<lambda>t. map_option of_nat (parse_str (2 ^ 128) t)), ue_ok = (\<lambda>n. True), ue_now = (\<lambda>n. []),
      ue_hpack = (\<lambda>d b. None), ue_decoder = ()\<rparr>"

lemma upload_example_ok: "env_ok upload_example"
proof -
  have "inj (char_of \<circ> unat :: u8 \<Rightarrow> char)"
  proof (rule injI)
    fix a b :: u8 assume "(char_of \<circ> unat) a = (char_of \<circ> unat) b"
    then have "(of_char (char_of (unat a)) :: nat) = of_char (char_of (unat b))" by simp
    then have "unat a = unat b" using unsigned_less [of a, where ?'a = nat] unsigned_less [of b, where ?'a = nat] by simp
    then show "a = b" by (simp only: word_unat_eq_iff)
  qed
  then show ?thesis
    by (auto simp: env_ok_def upload_example_def temporary_def starts_with_def inj_map_eq_map parse_str_show_nat [OF unsigned_less [where 'b = 128, simplified]])
qed


section \<open>Orphans\<close>

lemma row_of:
  assumes "rows_ok env st" and "a \<in> set (us_rows st)" and "b \<in> set (us_rows st)" and "aw_id a = aw_id b \<or> aw_path a = aw_path b"
  shows "a = b"
proof -
  have path: "aw_path c = aw_sha256 c" if "c \<in> set (us_rows st)" for c
    using assms(1) that by (auto simp: rows_ok_def describes_def)
  have "inj_on aw_sha256 (set (us_rows st))" "inj_on aw_id (set (us_rows st))"
    using assms(1) by (simp_all add: rows_ok_def distinct_map)
  then show ?thesis using assms(2-4) path by (auto dest: inj_onD)
qed

definition referenced :: "string list \<Rightarrow> string list \<Rightarrow> artifact_row \<Rightarrow> bool" where
  "referenced scenarios runs row \<longleftrightarrow> list_ex (mentions (aw_id row)) scenarios \<or> list_ex (mentions (aw_id row)) runs"

lemma remove_orphan_cases:
  assumes "remove_orphan env scenarios runs row st = (r, st')"
  shows "us_rows st' = us_rows st \<and> us_files st' = us_files st
    \<or> \<not> referenced scenarios runs row \<and> us_files st' = (us_files st)(aw_path row := None)
      \<and> (us_rows st' = us_rows st \<or> us_rows st' = filter (\<lambda>r. aw_id r \<noteq> aw_id row) (us_rows st))"
  using assms
  by (auto simp: remove_orphan_def bind_u_def attempt_u_def Let_def remove_file_def referenced_def split: if_splits)

lemma rows_ok_filter: "rows_ok env st \<Longrightarrow> us_rows st' = filter P (us_rows st) \<Longrightarrow> rows_ok env st'"
  by (auto simp: rows_ok_def distinct_map_filter)

lemma remove_orphan_keeps:
  assumes "store_ok env st" and "remove_orphan env scenarios runs row st = (r, st')"
  shows "store_ok env st'"
  using assms(1) remove_orphan_cases [OF assms(2)] rows_ok_filter [of env st]
  by (auto simp: store_ok_def files_ok_def rows_ok_def [of env st'] rows_ok_def [of env st] distinct_map_filter split: if_splits)

lemma remove_orphans_keep:
  "remove_orphans env scenarios runs rows st = (r, st') \<Longrightarrow> store_ok env st \<Longrightarrow> k \<in> set (us_rows st) \<Longrightarrow>
    (\<And>row. row \<in> set rows \<Longrightarrow> row = k \<and> referenced scenarios runs k \<or> aw_id row \<noteq> aw_id k \<and> aw_path row \<noteq> aw_path k) \<Longrightarrow>
    store_ok env st' \<and> k \<in> set (us_rows st') \<and> us_files st' (aw_path k) = us_files st (aw_path k)"
proof (induction rows arbitrary: st)
  case Nil
  then show ?case by (simp add: return_u_def)
next
  case (Cons row rows)
  obtain q st1 where o1: "remove_orphan env scenarios runs row st = (q, st1)" by (cases "remove_orphan env scenarios runs row st")
  note c = remove_orphan_cases [OF o1]
  have k: "k \<in> set (us_rows st1)" "us_files st1 (aw_path k) = us_files st (aw_path k)"
    using c Cons.prems(3) Cons.prems(4) [of row] by auto
  have ok: "store_ok env st1" by (rule remove_orphan_keeps [OF Cons.prems(2) o1])
  show ?case
  proof (cases q)
    case (Inl e)
    then show ?thesis using Cons.prems(1) o1 k ok by (simp add: bind_u_def)
  next
    case (Inr u)
    then have "remove_orphans env scenarios runs rows st1 = (r, st')" using Cons.prems(1) o1 by (simp add: bind_u_def)
    from Cons.IH [OF this ok k(1)] show ?thesis using Cons.prems(4) k(2) by simp
  qed
qed

text \<open>
  Only orphans are removed. After the removal of artifacts before a cutoff, however it ends, the store
  is still well-formed, and every artifact that is not before the cutoff, or that the text of a scenario or of a run
  mentions, still has its row and its file.
\<close>

theorem only_orphans_removed:
  assumes "store_ok env st" and "cleanup_orphan_artifacts env before scenarios runs st = (r, st')"
    and "k \<in> set (us_rows st)" and "\<not> before (aw_created_at k) \<or> referenced scenarios runs k"
  shows "store_ok env st' \<and> k \<in> set (us_rows st') \<and> us_files st' (aw_path k) = us_files st (aw_path k)"
proof -
  let ?old = "filter (\<lambda>r. before (aw_created_at r)) (us_rows st)" and ?st = "st\<lparr>us_tick := Suc (us_tick st)\<rparr>"
  have ok: "store_ok env ?st" using assms(1) by (simp add: store_ok_def files_ok_def rows_ok_def)
  have other: "row = k \<and> referenced scenarios runs k \<or> aw_id row \<noteq> aw_id k \<and> aw_path row \<noteq> aw_path k" if "row \<in> set ?old" for row
    using that assms(3,4) row_of [of env st row k] assms(1) by (auto simp: store_ok_def)
  show ?thesis
    using assms(2,3) remove_orphans_keep [of env scenarios runs ?old ?st r st' k] ok other
    by (auto simp: cleanup_orphan_artifacts_def bind_u_def attempt_u_def Let_def split: if_splits)
qed

definition stored_example :: upload_store where
  "stored_example =
     \<lparr>us_files = [''x'' \<mapsto> []],
      us_rows = [\<lparr>aw_id = show_nat 0, aw_name = ''n'', aw_sha256 = ''x'', aw_size_bytes = 0, aw_format = ''raw'', aw_packet_count = 0,
        aw_captured_bytes = 0, aw_path = ''x'', aw_created_at = [], aw_kind = ''payload'', aw_analysis = JNull\<rparr>],
      us_tick = 0\<rparr>"

theorem only_orphans_removed_witness:
  "\<exists>r st'. cleanup_orphan_artifacts upload_example (\<lambda>t. True) [show_nat 0] [] stored_example = (r, st')
     \<and> us_files st' ''x'' = Some [] \<and> us_rows st' \<noteq> []"
proof -
  obtain r st' where c: "cleanup_orphan_artifacts upload_example (\<lambda>t. True) [show_nat 0] [] stored_example = (r, st')"
    by (cases "cleanup_orphan_artifacts upload_example (\<lambda>t. True) [show_nat 0] [] stored_example")
  have "\<exists>i. show_nat 0 = show_nat (unat (i :: uuid))" by (rule exI [of _ 0]) simp
  then have ok: "store_ok upload_example stored_example"
    by (auto simp: store_ok_def files_ok_def rows_ok_def stored_example_def upload_example_def describes_def upload_limit_def
        intro!: exI [of _ "[] :: bytes"] split: if_splits)
  have "find_window (length (show_nat 0)) (\<lambda>part. eq_ignore_ascii_case (bytes_of part) (bytes_of (show_nat 0))) (show_nat 0) \<noteq> None"
    using show_nat_not_Nil [of 0] by (cases "show_nat 0") (simp_all add: eq_ignore_ascii_case_def)
  then have "referenced [show_nat 0] [] (hd (us_rows stored_example))"
    by (simp add: referenced_def mentions_def stored_example_def)
  from only_orphans_removed [OF ok c _ disjI2 [OF this]] show ?thesis
    using c by (intro exI [of _ r] exI [of _ st']) (auto simp: stored_example_def)
qed

end
