(* ===== verification/Run_Views.thy ===== *)
theory Run_Views
  imports Wire "HOL-Library.AList"
begin

text \<open>
  What the control plane shows of runs (the handlers of \<open>crates/control/src/main.rs\<close> that read, over
  \<open>repository/runs.rs\<close> and \<open>repository/diagnostics.rs\<close>): the list of runs page by page, the samples of
  a run thinned out, the scenario of a run without its secrets, the metadata of its payloads, its export and its
  events. The tables are lists of rows, oldest first; reading and printing JSON is a parameter.
\<close>

section \<open>Rows\<close>

record run_record =
  rc_rowid :: i64
  rc_id :: string
  rc_scenario_id :: "string option"
  rc_run_name :: "string option"
  rc_status :: string
  rc_started_at :: "string option"
  rc_finished_at :: "string option"
  rc_error :: "string option"
  rc_scenario_json :: string

record metric_sample =
  ms_run_id :: string
  ms_agent_id :: string
  ms_role :: i64
  ms_unix_ms :: i64
  ms_metrics_json :: string

record view_env =
  vw_parse :: "string \<Rightarrow> json option"
  vw_print :: "json \<Rightarrow> string"
  vw_pretty :: "json \<Rightarrow> string"
  vw_scenario :: "string \<Rightarrow> scenario option"
  vw_show_uuid :: "uuid \<Rightarrow> string"

definition json_text :: "view_env \<Rightarrow> string \<Rightarrow> json" where
  "json_text V t = (case vw_parse V t of None \<Rightarrow> JNull | Some v \<Rightarrow> v)"

section \<open>Without secrets\<close>

text \<open>A member of an object that is a member of an object is set; what is not an object stays.\<close>

definition json_put :: "string \<Rightarrow> json \<Rightarrow> (string \<times> json) list \<Rightarrow> (string \<times> json) list" where
  "json_put k v members = AList.update k v members"

definition set_member :: "string \<Rightarrow> string \<Rightarrow> json \<Rightarrow> json \<Rightarrow> json" where
  "set_member outer inner x value =
     (case value of
        JObject members \<Rightarrow>
          (case as_object (json_get value outer) of
             None \<Rightarrow> value
           | Some nested \<Rightarrow> JObject (json_put outer (JObject (json_put inner x nested)) members))
      | _ \<Rightarrow> value)"

definition redacted_scenario :: "view_env \<Rightarrow> string \<Rightarrow> json" where
  "redacted_scenario V body =
     (let value = json_text V body;
          value = set_member ''tls'' ''server_key_pem'' JNull value
      in fold (\<lambda>direction. set_member direction ''text'' (JString [])) [''request_payload'', ''response_payload''] value)"

section \<open>Lists of runs\<close>

definition run_list_json :: "view_env \<Rightarrow> run_record \<Rightarrow> json" where
  "run_list_json V r = JObject
     [(''id'', JString (rc_id r)), (''scenario_id'', optional JString (rc_scenario_id r)),
      (''run_name'', optional JString (rc_run_name r)), (''status'', JString (rc_status r)),
      (''started_at'', optional JString (rc_started_at r)), (''finished_at'', optional JString (rc_finished_at r)),
      (''error'', optional JString (rc_error r)), (''scenario'', redacted_scenario V (rc_scenario_json r))]"

definition newest_first :: "run_record list \<Rightarrow> run_record list" where
  "newest_first rows = rev (sort_key rc_rowid rows)"

definition list_recent :: "run_record list \<Rightarrow> nat \<Rightarrow> run_record list" where
  "list_recent rows limit = take limit (newest_first rows)"

definition list_runs :: "view_env \<Rightarrow> run_record list \<Rightarrow> json" where
  "list_runs V rows = JArray (map (run_list_json V) (list_recent rows 100))"

definition list_page :: "run_record list \<Rightarrow> i64 \<Rightarrow> nat \<Rightarrow> run_record list" where
  "list_page rows cursor limit = take limit (newest_first (filter (\<lambda>r. rc_rowid r < cursor) rows))"

definition i64_max :: i64 where "i64_max = 2 ^ 63 - 1"
definition i64_min :: i64 where "i64_min = - (2 ^ 63)"

definition page_limit :: "u32 option \<Rightarrow> nat" where
  "page_limit limit = min 100 (max 1 (unat (case limit of None \<Rightarrow> 25 | Some n \<Rightarrow> n)))"

text \<open>The runs of a page and the cursor of the next one.\<close>

definition run_page :: "run_record list \<Rightarrow> u32 option \<Rightarrow> i64 option \<Rightarrow> run_record list \<times> i64 option" where
  "run_page rows limit cursor =
     (let limit = page_limit limit;
          cursor = (case cursor of None \<Rightarrow> i64_max | Some c \<Rightarrow> c);
          found = list_page rows cursor (limit + 1);
          next_cursor = (if limit < length found then Some (rc_rowid (found ! (limit - 1))) else None)
      in (take limit found, next_cursor))"

definition list_runs_page :: "view_env \<Rightarrow> run_record list \<Rightarrow> u32 option \<Rightarrow> i64 option \<Rightarrow> json" where
  "list_runs_page V rows limit cursor =
     (case run_page rows limit cursor of (items, next_cursor) \<Rightarrow>
        JObject [(''items'', JArray (map (run_list_json V) items)),
                 (''next_cursor'', case next_cursor of None \<Rightarrow> JNull | Some c \<Rightarrow> JNumber c)])"

section \<open>Samples\<close>

definition samples_between :: "metric_sample list \<Rightarrow> string \<Rightarrow> i64 \<Rightarrow> i64 \<Rightarrow> metric_sample list" where
  "samples_between rows run_id from to =
     sort_key ms_unix_ms (filter (\<lambda>r. ms_run_id r = run_id \<and> from \<le> ms_unix_ms r \<and> ms_unix_ms r \<le> to) rows)"

definition metric_sample_json :: "view_env \<Rightarrow> metric_sample \<Rightarrow> json" where
  "metric_sample_json V r = JObject
     [(''agent_id'', JString (ms_agent_id r)), (''role'', JNumber (ms_role r)), (''unix_ms'', JNumber (ms_unix_ms r)),
      (''metrics'', json_text V (ms_metrics_json r))]"

definition maximum_points :: "u32 option \<Rightarrow> nat" where
  "maximum_points n = min 10000 (max 10 (unat (case n of None \<Rightarrow> 2000 | Some n \<Rightarrow> n)))"

definition sample_stride :: "nat \<Rightarrow> nat \<Rightarrow> nat" where
  "sample_stride count maximum = max ((count + (maximum - 1)) div maximum) 1"

definition every_nth :: "nat \<Rightarrow> 'a list \<Rightarrow> 'a list" where
  "every_nth stride xs = map snd (filter (\<lambda>(i, _). i mod stride = 0) (enumerate 0 xs))"

definition run_samples :: "view_env \<Rightarrow> metric_sample list \<Rightarrow> string \<Rightarrow> i64 option \<Rightarrow> i64 option \<Rightarrow> u32 option \<Rightarrow> json" where
  "run_samples V rows run_id from to max_points =
     (let from = (case from of None \<Rightarrow> i64_min | Some n \<Rightarrow> n);
          to = (case to of None \<Rightarrow> i64_max | Some n \<Rightarrow> n);
          maximum = maximum_points max_points;
          found = samples_between rows run_id from to;
          stride = sample_stride (length found) maximum
      in JObject [(''samples'', JArray (map (metric_sample_json V) (every_nth stride found))),
                  (''downsampled'', JBool (1 < stride)), (''stride'', JNumber (int stride))])"

section \<open>One run\<close>

definition payload_kind_name :: "payload_kind \<Rightarrow> string" where
  "payload_kind_name k =
     (case k of PkEmpty \<Rightarrow> ''empty'' | PkFixed \<Rightarrow> ''fixed'' | PkText \<Rightarrow> ''text'' | PkFile \<Rightarrow> ''file'' | PkRandom \<Rightarrow> ''random'')"

definition random_format_name :: "random_format \<Rightarrow> string" where
  "random_format_name f = (case f of Binary \<Rightarrow> ''binary'' | PrintableAscii \<Rightarrow> ''printable_ascii'')"

definition uuid_json :: "view_env \<Rightarrow> uuid option \<Rightarrow> json" where
  "uuid_json V i = optional (JString \<circ> vw_show_uuid V) i"

text \<open>The digest a random payload had is in the metrics of the agent that made it.\<close>

definition random_hash :: "json list \<Rightarrow> i64 \<Rightarrow> string \<Rightarrow> string option" where
  "random_hash samples role name =
     find_map (\<lambda>v. if json_get v ''role'' = JNumber role then as_str (json_get (json_get v ''metrics'') name) else None) samples"

definition payload_metadata :: "view_env \<Rightarrow> string \<Rightarrow> payload_profile \<Rightarrow> string option \<Rightarrow> json" where
  "payload_metadata V direction p hash = JObject
     ([(''direction'', JString direction), (''kind'', JString (payload_kind_name (pp_kind p))),
       (''size_bytes'', JNumber (int (payload_byte_len p)))]
      @ (if pp_kind p = PkFile then [(''artifact_id'', uuid_json V (pp_artifact_id p))] else [])
      @ (if pp_kind p = PkRandom
         then [(''random_format'', JString (random_format_name (pp_random_format p))), (''sha256'', optional JString hash)] else []))"

definition result_payload_metadata :: "view_env \<Rightarrow> string \<Rightarrow> json list \<Rightarrow> json" where
  "result_payload_metadata V body samples =
     (case vw_scenario V body of
        None \<Rightarrow> JNull
      | Some s \<Rightarrow>
          if sc_payload_mode s = CaptureReplay then JObject
            [(''mode'', JString ''capture_replay''), (''capture_artifact_id'', uuid_json V (sc_capture_artifact_id s))]
          else JObject
            [(''mode'', JString ''manual''),
             (''request'', payload_metadata V ''client_to_server'' (sc_request_payload s)
               (random_hash samples 1 ''request_random_sha256'')),
             (''response'', payload_metadata V ''server_to_client'' (sc_response_payload s)
               (random_hash samples 2 ''response_random_sha256''))])"

definition find_run :: "run_record list \<Rightarrow> string \<Rightarrow> run_record option" where
  "find_run rows i = find (\<lambda>r. rc_id r = i) rows"

text \<open>Nothing stands for the answer that the run is not found.\<close>

definition run_detail :: "view_env \<Rightarrow> run_record list \<Rightarrow> metric_sample list \<Rightarrow> string \<Rightarrow> json option" where
  "run_detail V rows samples i =
     (case find_run rows i of
        None \<Rightarrow> None
      | Some r \<Rightarrow>
          let samples = map (metric_sample_json V) (samples_between samples i i64_min i64_max)
          in Some (JObject
            [(''id'', JString (rc_id r)), (''run_name'', optional JString (rc_run_name r)),
             (''started_at'', optional JString (rc_started_at r)), (''finished_at'', optional JString (rc_finished_at r)),
             (''status'', JString (rc_status r)), (''error'', optional JString (rc_error r)),
             (''scenario'', redacted_scenario V (rc_scenario_json r)),
             (''payload_metadata'', result_payload_metadata V (rc_scenario_json r) samples),
             (''samples'', JArray samples)]))"

definition run_summary_detail :: "view_env \<Rightarrow> run_record list \<Rightarrow> metric_sample list \<Rightarrow> string \<Rightarrow> json option" where
  "run_summary_detail V rows samples i =
     map_option (\<lambda>v. case v of JObject fs \<Rightarrow> JObject (json_put ''samples'' (JArray []) fs) | _ \<Rightarrow> v)
       (run_detail V rows samples i)"

text \<open>Content type, file name and body of an export.\<close>

definition csv_line :: "view_env \<Rightarrow> json \<Rightarrow> string" where
  "csv_line V v =
     string_field v ''agent_id'' @ '','' @ vw_print V (json_get v ''role'') @ '','' @ vw_print V (json_get v ''unix_ms'')
     @ '','' @ vw_print V (json_get v ''metrics'') @ [CHR 0x0A]"

definition export_run :: "view_env \<Rightarrow> run_record list \<Rightarrow> metric_sample list \<Rightarrow> string \<Rightarrow> string option
    \<Rightarrow> (string \<times> string \<times> string) option" where
  "export_run V rows samples i requested =
     map_option (\<lambda>detail.
       let format = (case requested of None \<Rightarrow> ''json'' | Some f \<Rightarrow> f)
       in if format = ''csv'' then
            (''text/csv'', ''attachment; filename=run.csv'',
             ''agent_id,role,unix_ms,metrics_json'' @ [CHR 0x0A] @ concat (map (csv_line V) (array_items detail ''samples'')))
          else (''application/json'', ''attachment; filename=run.json'', vw_pretty V detail))
       (run_detail V rows samples i)"

section \<open>Diagnostics\<close>

text \<open>Nothing stands for the answer that the limit is not between 1 and 500.\<close>

definition diagnostic_limit :: "i64 option \<Rightarrow> i64 \<Rightarrow> nat option" where
  "diagnostic_limit value fallback =
     (let limit = (case value of None \<Rightarrow> fallback | Some n \<Rightarrow> n)
      in if 1 \<le> limit \<and> limit \<le> 500 then Some (nat limit) else None)"

text \<open>The last events in the order they happened: the newest are selected, and then turned round.\<close>

definition recent_events :: "nat \<Rightarrow> 'a list \<Rightarrow> 'a list" where
  "recent_events limit events = rev (take limit (rev events))"

lemma recent_events_eq: "recent_events limit events = drop (length events - limit) events"
  by (simp add: recent_events_def take_rev)

end
