(* ===== verification/Run_Views_Facts.thy ===== *)
theory Run_Views_Facts
  imports Run_Views "HOL-Library.Sublist"
begin

text \<open>
  Facts on the views of runs: what redaction hides and keeps, that the pages of the list of runs
  are the whole list whatever is added meanwhile, and that thinned out samples fit the maximum.
\<close>

section \<open>Members of objects\<close>

lemma json_get_object: "json_get (JObject ms) k = (case map_of ms k of None \<Rightarrow> JNull | Some v \<Rightarrow> v)"
  by (simp add: json_get_def)

lemma map_of_json_put: "map_of (json_put k v ms) = (map_of ms)(k \<mapsto> v)"
  by (simp add: json_put_def update_conv')

lemma json_get_put [simp]: "json_get (JObject (json_put k v ms)) k' = (if k' = k then v else json_get (JObject ms) k')"
  by (simp add: json_get_object map_of_json_put)

lemma json_get_set_member_other: "k \<noteq> outer \<Longrightarrow> json_get (set_member outer inner x v) k = json_get v k"
  by (auto simp: set_member_def split: json.split option.split)

lemma json_get_set_member:
  "json_get (set_member outer inner x v) outer =
     (case json_get v outer of JObject nested \<Rightarrow> JObject (json_put inner x nested) | y \<Rightarrow> y)"
  by (cases v) (auto simp: set_member_def as_object_def json_get_object map_of_json_put json_get_def [of "JNull"]
      json_get_def [of "JBool _"] json_get_def [of "JNumber _"] json_get_def [of "JString _"] json_get_def [of "JArray _"]
      split: json.splits)

lemma nested_set_member:
  "json_get (json_get (set_member outer inner x v) outer) k =
     (if k = inner \<and> as_object (json_get v outer) \<noteq> None then x else json_get (json_get v outer) k)"
  unfolding json_get_set_member by (cases "json_get v outer") (simp_all add: as_object_def)

lemma json_get_no_object: "as_object v = None \<Longrightarrow> json_get v k = JNull"
  by (simp add: as_object_def json_get_def split: json.splits)

lemma member_set:
  "json_get (json_get (set_member outer inner x v) d) k =
     (if d = outer \<and> k = inner \<and> as_object (json_get v outer) \<noteq> None then x else json_get (json_get v d) k)"
  by (cases "d = outer") (auto simp: nested_set_member json_get_set_member_other)

lemma object_set: "as_object (json_get (set_member outer inner x v) d) = None \<longleftrightarrow> as_object (json_get v d) = None"
  by (cases "d = outer")
    (auto simp: json_get_set_member json_get_set_member_other as_object_def split: json.splits)

definition secret_of :: "string \<Rightarrow> string option" where
  "secret_of k =
     (if k = ''tls'' then Some ''server_key_pem''
      else if k = ''request_payload'' \<or> k = ''response_payload'' then Some ''text'' else None)"

definition blank_of :: "string \<Rightarrow> json" where
  "blank_of k = (if k = ''tls'' then JNull else JString [])"

lemma redacted_member:
  "json_get (json_get (redacted_scenario V body) k) inner =
     (if secret_of k = Some inner \<and> as_object (json_get (json_text V body) k) \<noteq> None then blank_of k
      else json_get (json_get (json_text V body) k) inner)"
  unfolding redacted_scenario_def Let_def fold.simps comp_def id_apply member_set object_set
  by (cases "k = ''tls''"; cases "k = ''request_payload''"; cases "k = ''response_payload''")
    (auto simp: secret_of_def blank_of_def)

lemma redacted_other: "secret_of k = None \<Longrightarrow> json_get (redacted_scenario V body) k = json_get (json_text V body) k"
  by (auto simp: redacted_scenario_def Let_def json_get_set_member_other secret_of_def split: if_splits)


text \<open>
  C25. What is shown of a run hides its secrets and nothing else. In the scenario of every item of the
  list of runs and of the detail of a run, the key of the server and the texts of both payloads are
  blank, whatever the stored text is; every other member, and every other member of the TLS settings and of
  the payloads, is the stored one.
\<close>

theorem shown_runs_hide_secrets:
  assumes "shown = json_get (run_list_json V r) ''scenario''
     \<or> (\<exists>rows samples v. run_detail V rows samples (rc_id r) = Some v \<and> find_run rows (rc_id r) = Some r
          \<and> shown = json_get v ''scenario'')"
    and "stored = json_text V (rc_scenario_json r)"
  shows "json_get (json_get shown ''tls'') ''server_key_pem'' = JNull
    \<and> string_field (json_get shown ''request_payload'') ''text'' = []
    \<and> string_field (json_get shown ''response_payload'') ''text'' = []
    \<and> (\<forall>k. k \<notin> {''tls'', ''request_payload'', ''response_payload''} \<longrightarrow> json_get shown k = json_get stored k)
    \<and> (\<forall>k. k \<noteq> ''server_key_pem'' \<longrightarrow> json_get (json_get shown ''tls'') k = json_get (json_get stored ''tls'') k)
    \<and> (\<forall>d\<in>{''request_payload'', ''response_payload''}. \<forall>k. k \<noteq> ''text'' \<longrightarrow>
         json_get (json_get shown d) k = json_get (json_get stored d) k)"
proof -
  have s: "shown = redacted_scenario V (rc_scenario_json r)"
    using assms(1) by (auto simp: run_list_json_def run_detail_def json_get_object Let_def)
  have hidden: "json_get (json_get shown d) k \<in> {JNull, blank_of d}" if "secret_of d = Some k" for d k
    unfolding s redacted_member using that json_get_no_object by auto
  have kept: "json_get shown k = json_get stored k" if "secret_of k = None" for k
    unfolding s assms(2) using that by (rule redacted_other)
  have inner: "json_get (json_get shown d) k = json_get (json_get stored d) k" if "secret_of d \<noteq> Some k" for d k
    unfolding s assms(2) redacted_member using that by simp
  have cleared: "string_field (json_get shown d) ''text'' = []" if "secret_of d = Some ''text''" "blank_of d = JString []" for d
    using hidden [OF that(1)] that(2) by (auto simp: string_field_def as_str_def)
  show ?thesis
  proof (intro conjI allI ballI impI)
    show "json_get (json_get shown ''tls'') ''server_key_pem'' = JNull"
      using hidden [of "''tls''" "''server_key_pem''"] by (simp add: secret_of_def blank_of_def)
    show "string_field (json_get shown ''request_payload'') ''text'' = []"
      by (rule cleared) (simp_all add: secret_of_def blank_of_def)
    show "string_field (json_get shown ''response_payload'') ''text'' = []"
      by (rule cleared) (simp_all add: secret_of_def blank_of_def)
    fix k :: string
    show "json_get shown k = json_get stored k" if "k \<notin> {''tls'', ''request_payload'', ''response_payload''}"
      using that by (intro kept) (simp add: secret_of_def)
    show "json_get (json_get shown ''tls'') k = json_get (json_get stored ''tls'') k" if "k \<noteq> ''server_key_pem''"
      using that by (intro inner) (simp add: secret_of_def)
    show "json_get (json_get shown d) k = json_get (json_get stored d) k"
      if "d \<in> {''request_payload'', ''response_payload''}" "k \<noteq> ''text''" for d
      using that by (intro inner) (auto simp: secret_of_def)
  qed
qed

definition view_example :: view_env where
  "view_example =
     \<lparr>vw_parse = (\<lambda>t. Some (JObject [(''tls'', JObject [(''server_key_pem'', JString t), (''enabled'', JBool True)])])),
      vw_print = (\<lambda>v. []), vw_pretty = (\<lambda>v. []), vw_scenario = (\<lambda>t. None), vw_show_uuid = (\<lambda>u. [])\<rparr>"

definition run_example :: "i64 \<Rightarrow> run_record" where
  "run_example n =
     \<lparr>rc_rowid = n, rc_id = ''r'', rc_scenario_id = None, rc_run_name = None, rc_status = ''running'', rc_started_at = None,
      rc_finished_at = None, rc_error = None, rc_scenario_json = ''key''\<rparr>"

theorem shown_runs_hide_secrets_witness:
  "json_get (json_get (json_get (run_list_json view_example (run_example 1)) ''scenario'') ''tls'') ''server_key_pem'' = JNull
   \<and> json_get (json_get (json_get (run_list_json view_example (run_example 1)) ''scenario'') ''tls'') ''enabled'' = JBool True"
  using shown_runs_hide_secrets [OF disjI1 [OF refl] refl, of view_example "run_example 1"]
  by (simp add: run_example_def view_example_def json_text_def json_get_object)

section \<open>The pages of the list\<close>

text \<open>
  A client that follows the cursors: \<open>db n\<close> is the table when it asks for the n-th time.
\<close>

fun follow_pages :: "(nat \<Rightarrow> run_record list) \<Rightarrow> u32 option \<Rightarrow> nat \<Rightarrow> nat \<Rightarrow> i64 option \<Rightarrow> run_record list list" where
  "follow_pages db limit 0 n cursor = []"
| "follow_pages db limit (Suc fuel) n cursor =
     (case run_page (db n) limit cursor of (items, next_cursor) \<Rightarrow>
        items # (case next_cursor of None \<Rightarrow> [] | Some c \<Rightarrow> follow_pages db limit fuel (Suc n) (Some c)))"

definition descending :: "run_record list \<Rightarrow> bool" where
  "descending rs \<longleftrightarrow> sorted_wrt (\<lambda>a b. rc_rowid b < rc_rowid a) rs"

lemma newest_first_filter: "newest_first (filter P rows) = filter P (newest_first rows)"
  by (simp add: newest_first_def filter_sort flip: rev_filter)

lemma descending_newest_first:
  assumes "distinct (map rc_rowid rows)"
  shows "descending (newest_first rows)"
proof -
  have "distinct (map rc_rowid (sort_key rc_rowid rows))" using assms by (simp add: distinct_map)
  then have "sorted_wrt (<) (map rc_rowid (sort_key rc_rowid rows))" by (simp add: strict_sorted_iff)
  then show ?thesis by (simp add: descending_def newest_first_def sorted_wrt_rev sorted_wrt_map)
qed

lemma descending_after:
  "descending rs \<Longrightarrow> k < length rs \<Longrightarrow> filter (\<lambda>r. rc_rowid r < rc_rowid (rs ! k)) rs = drop (Suc k) rs"
proof (induction rs arbitrary: k)
  case (Cons r rs)
  show ?case
  proof (cases k)
    case 0
    then have "filter (\<lambda>x. rc_rowid x < rc_rowid r) rs = rs" using Cons.prems(1) by (simp add: descending_def)
    then show ?thesis using 0 by simp
  next
    case (Suc j)
    then have "rs ! j \<in> set rs" using Cons.prems(2) by simp
    then have "rc_rowid (rs ! j) < rc_rowid r" using Cons.prems(1) by (simp add: descending_def)
    then show ?thesis using Suc Cons by (simp add: descending_def not_less less_imp_le)
  qed
qed simp

lemma page_limit_pos: "0 < page_limit limit"
  by (simp add: page_limit_def)

lemma run_page_eq:
  assumes "newest_first (filter (\<lambda>r. rc_rowid r < (case cursor of None \<Rightarrow> i64_max | Some c \<Rightarrow> c)) rows) = D"
  shows "run_page rows limit cursor =
    (take (page_limit limit) D, if page_limit limit < length D then Some (rc_rowid (D ! (page_limit limit - 1))) else None)"
  using assms page_limit_pos [of limit] by (simp add: run_page_def list_page_def Let_def min_def)

text \<open>The table only grows, by rows with larger numbers.\<close>

definition grows :: "(nat \<Rightarrow> run_record list) \<Rightarrow> bool" where
  "grows db \<longleftrightarrow> (\<forall>n. \<exists>new. db (Suc n) = db n @ new \<and> (\<forall>a\<in>set new. \<forall>b\<in>set (db n). rc_rowid b < rc_rowid a))"

lemma grows_from_first:
  assumes "grows db"
  shows "\<exists>new. db n = db 0 @ new \<and> (\<forall>a\<in>set new. \<forall>b\<in>set (db 0). rc_rowid b < rc_rowid a)"
proof (induction n)
  case (Suc n)
  obtain new where "db (Suc n) = db n @ new" "\<forall>a\<in>set new. \<forall>b\<in>set (db n). rc_rowid b < rc_rowid a"
    using assms unfolding grows_def by blast
  then show ?case using Suc by (auto intro!: exI [of _ "drop (length (db 0)) (db n) @ new"])
qed simp

lemma old_rows_below:
  assumes "grows db" and "r \<in> set (db 0)"
  shows "filter (\<lambda>x. rc_rowid x < rc_rowid r) (db n) = filter (\<lambda>x. rc_rowid x < rc_rowid r) (db 0)"
proof -
  obtain new where "db n = db 0 @ new" "\<forall>a\<in>set new. \<forall>b\<in>set (db 0). rc_rowid b < rc_rowid a"
    using grows_from_first [OF assms(1)] by blast
  moreover from this(2) assms(2) have "filter (\<lambda>x. rc_rowid x < rc_rowid r) new = []"
    by (fastforce simp: filter_empty_conv)
  ultimately show ?thesis by simp
qed

lemma follow_pages_rest:
  assumes g: "grows db" and d: "distinct (map rc_rowid (db 0))"
  shows "newest_first (filter (\<lambda>r. rc_rowid r < (case cursor of None \<Rightarrow> i64_max | Some c \<Rightarrow> c)) (db n)) = D \<Longrightarrow>
    suffix D (newest_first (db 0)) \<Longrightarrow> length D < fuel \<Longrightarrow>
    concat (follow_pages db limit fuel n cursor) = D
    \<and> (\<forall>p\<in>set (follow_pages db limit fuel n cursor). length p \<le> page_limit limit)"
proof (induction fuel arbitrary: n cursor D)
  case (Suc fuel)
  let ?L = "page_limit limit" and ?S = "newest_first (db 0)"
  note page = run_page_eq [OF Suc.prems(1), of limit]
  show ?case
  proof (cases "?L < length D")
    case False
    then show ?thesis by (simp add: page)
  next
    case True
    define c where "c = rc_rowid (D ! (?L - 1))"
    obtain front where S: "?S = front @ D" using Suc.prems(2) by (auto simp: suffix_def)
    have i: "length front + (?L - 1) < length ?S" "?S ! (length front + (?L - 1)) = D ! (?L - 1)"
      using True page_limit_pos [of limit] by (simp_all add: S nth_append)
    then have mem: "D ! (?L - 1) \<in> set (db 0)"
      using nth_mem [OF i(1)] by (simp add: newest_first_def)
    have "filter (\<lambda>r. rc_rowid r < c) ?S = drop (Suc (length front + (?L - 1))) ?S"
      using descending_after [OF descending_newest_first [OF d] i(1)] i(2) by (simp add: c_def)
    then have "newest_first (filter (\<lambda>r. rc_rowid r < c) (db (Suc n))) = drop ?L D"
      using old_rows_below [OF g mem, of "Suc n"] page_limit_pos [of limit]
      by (simp add: newest_first_filter S c_def)
    moreover have "suffix (drop ?L D) ?S" unfolding S using suffix_drop suffix_order.trans suffixI by blast
    ultimately have "concat (follow_pages db limit fuel (Suc n) (Some c)) = drop ?L D
      \<and> (\<forall>p\<in>set (follow_pages db limit fuel (Suc n) (Some c)). length p \<le> ?L)"
      using Suc.prems(3) True page_limit_pos [of limit] by (intro Suc.IH) simp_all
    then show ?thesis using True by (simp add: page c_def)
  qed
qed simp

text \<open>
  C39. The pages of the list of runs are the whole list. A client that follows the cursors from the
  first page on, while runs are added to the table, gets every run there was at the beginning
  once, from the newest to the oldest, in pages of at most the limit asked for and never more than 100.
\<close>

theorem pages_list_every_run:
  assumes "grows db" and "distinct (map rc_rowid (db 0))" and "\<forall>r\<in>set (db 0). rc_rowid r < i64_max"
    and "length (db 0) < fuel"
  shows "concat (follow_pages db limit fuel 0 None) = newest_first (db 0)
    \<and> (\<forall>p\<in>set (follow_pages db limit fuel 0 None). length p \<le> page_limit limit) \<and> page_limit limit \<le> 100"
proof -
  have "filter (\<lambda>r. rc_rowid r < i64_max) (db 0) = db 0" using assms(3) by (simp add: filter_id_conv)
  then show ?thesis
    using follow_pages_rest [OF assms(1,2), of None 0 "newest_first (db 0)" fuel limit] assms(4)
    by (simp add: newest_first_def page_limit_def)
qed

theorem pages_list_every_run_witness:
  "map (map rc_rowid) (follow_pages (\<lambda>n. map run_example [1..3 + int n]) (Some 2) 5 0 None) = [[3, 2], [1]]
   \<and> concat (follow_pages (\<lambda>n. map run_example [1..3 + int n]) (Some 2) 5 0 None) = newest_first (map run_example [1..3])"
proof -
  let ?db = "\<lambda>n. map run_example [1..3 + int n]"
  have "[1..3 + int (Suc n)] = [1..3 + int n] @ [4 + int n]" for n
    by (simp add: upto_rec2 add.commute)
  then have "grows ?db" by (auto simp: grows_def run_example_def)
  moreover have "distinct (map rc_rowid (?db 0))" "\<forall>r\<in>set (?db 0). rc_rowid r < i64_max" "length (?db 0) < 5"
    by (simp_all add: run_example_def i64_max_def comp_def distinct_map inj_on_def)
  ultimately have "concat (follow_pages ?db (Some 2) 5 0 None) = newest_first (?db 0)"
    using pages_list_every_run by blast
  moreover have "map (map rc_rowid) (follow_pages ?db (Some 2) 5 0 None) = [[3, 2], [1]]" by code_simp
  ultimately show ?thesis by simp
qed

section \<open>Samples\<close>

lemma every_nth_snoc:
  "every_nth s (xs @ [x]) = every_nth s xs @ (if length xs mod s = 0 then [x] else [])"
  by (simp add: every_nth_def enumerate_append_eq)

lemma div_round_up:
  fixes s n :: nat
  assumes s: "0 < s"
  shows "(n + (s - 1)) div s = n div s + (if n mod s = 0 then 0 else 1)"
proof -
  obtain q r where n: "n = s * q + r" "r < s" "q = n div s" "r = n mod s"
    using s by (metis mult_div_mod_eq mod_less_divisor)
  show ?thesis unfolding n(3,4) [symmetric]
    by (rule div_nat_eqI) (use n(1,2) s in \<open>auto simp: algebra_simps\<close>)
qed

lemma length_every_nth: "0 < s \<Longrightarrow> length (every_nth s xs) = (length xs + (s - 1)) div s"
proof (induction xs rule: rev_induct)
  case (snoc x xs)
  have "(Suc (length xs) + (s - 1)) div s = length xs div s + 1" using snoc.prems by simp
  then show ?case using snoc unfolding every_nth_snoc length_append div_round_up [OF snoc.prems] by auto
qed (simp add: every_nth_def)

lemma every_nth_one: "every_nth 1 xs = xs"
  by (simp add: every_nth_def)

lemma every_nth_subseq: "subseq (every_nth s xs) xs"
proof -
  have "subseq (map snd (filter (\<lambda>(i, _). i mod s = 0) (enumerate 0 xs))) (map snd (enumerate 0 xs))"
    by (intro subseq_map subseq_filter_left)
  then show ?thesis by (simp add: every_nth_def)
qed

lemma every_nth_hd: "xs \<noteq> [] \<Longrightarrow> \<exists>ys. every_nth s xs = hd xs # ys"
  by (cases xs) (simp_all add: every_nth_def)

lemma sample_stride_fits:
  assumes "0 < m"
  shows "(n + (sample_stride n m - 1)) div sample_stride n m \<le> m"
proof -
  let ?s = "sample_stride n m"
  have s: "0 < ?s" by (simp add: sample_stride_def)
  obtain q r where n: "n = m * q + r" "r < m" "q = n div m" "r = n mod m"
    using assms by (metis mult_div_mod_eq mod_less_divisor)
  then have "n \<le> m * ((n + (m - 1)) div m)"
    unfolding div_round_up [OF assms] n(3,4) [symmetric] by (auto simp: add_mult_distrib2)
  also have "\<dots> \<le> m * ?s" by (simp add: sample_stride_def)
  finally have "n + (?s - 1) < ?s * Suc m" using s by (simp add: algebra_simps)
  then have "(n + (?s - 1)) div ?s < Suc m" using s by (simp add: less_mult_imp_div_less mult.commute)
  then show ?thesis by simp
qed

text \<open>
  Thinned out samples fit. Of the samples of a run in the interval asked for, in the order of time,
  the answer has at most the maximum of points asked for (between 10 and 10000), among them the first,
  in their order; and when there are no more than that, it has all of them.
\<close>

theorem samples_fit_maximum:
  "\<exists>found chosen. found = samples_between rows i (case lo of None \<Rightarrow> i64_min | Some n \<Rightarrow> n) (case hi of None \<Rightarrow> i64_max | Some n \<Rightarrow> n)
    \<and> json_get (run_samples V rows i lo hi max_points) ''samples'' = JArray (map (metric_sample_json V) chosen)
    \<and> subseq chosen found \<and> length chosen \<le> maximum_points max_points \<and> maximum_points max_points \<in> {10..10000}
    \<and> sorted (map ms_unix_ms found) \<and> (found = [] \<or> hd chosen = hd found \<and> chosen \<noteq> [])
    \<and> (maximum_points max_points < length found \<or> chosen = found)"
proof -
  define found where
    "found = samples_between rows i (case lo of None \<Rightarrow> i64_min | Some n \<Rightarrow> n) (case hi of None \<Rightarrow> i64_max | Some n \<Rightarrow> n)"
  let ?m = "maximum_points max_points"
  let ?s = "sample_stride (length found) ?m"
  have m: "?m \<in> {10..10000}" "0 < ?m" by (simp_all add: maximum_points_def)
  have s: "0 < ?s" by (simp add: sample_stride_def)
  have all: "?s = 1" if "length found \<le> ?m"
  proof -
    have "(length found + (?m - 1)) div ?m \<le> (?m + (?m - 1)) div ?m" using that by (intro div_le_mono) simp
    also have "\<dots> = 1" using m(2) by (simp add: div_nat_eqI)
    finally show ?thesis by (simp add: sample_stride_def)
  qed
  show ?thesis
  proof (rule exI [of _ found], rule exI [of _ "every_nth ?s found"], intro conjI)
    show "found = samples_between rows i (case lo of None \<Rightarrow> i64_min | Some n \<Rightarrow> n) (case hi of None \<Rightarrow> i64_max | Some n \<Rightarrow> n)"
      by (rule found_def)
    show "json_get (run_samples V rows i lo hi max_points) ''samples'' = JArray (map (metric_sample_json V) (every_nth ?s found))"
      by (simp add: run_samples_def json_get_object found_def Let_def)
    show "length (every_nth ?s found) \<le> ?m"
      using sample_stride_fits [OF m(2), of "length found"] s by (simp add: length_every_nth)
    show "found = [] \<or> hd (every_nth ?s found) = hd found \<and> every_nth ?s found \<noteq> []"
      using every_nth_hd [of found ?s] by auto
    show "subseq (every_nth ?s found) found" by (rule every_nth_subseq)
    show "?m \<in> {10..10000}" by (rule m(1))
    show "?m < length found \<or> every_nth ?s found = found" 
      using every_nth_one [of found] by (cases "length found \<le> ?m") (simp_all only: all not_le simp_thms)
    show "sorted (map ms_unix_ms found)" unfolding found_def samples_between_def by (rule sorted_sort_key)
  qed
qed

end
