(* ===== verification/Control_Api.thy ===== *)
theory Control_Api
  imports Agent_Stream Net_Orch
begin

text \<open>
  Handlers of the control plane's HTTP interface with logic of their own
  (\<open>crates/control/src/main.rs\<close>): saving and archiving network profiles, saving and listing scenarios, the
  preflight of a scenario with the probes it sends to agents, the diagnosis of a profile; and
  what happens to the database when the control plane starts (\<open>main\<close>, \<open>database.rs\<close>).
\<close>

section \<open>Network profiles\<close>

definition profiles_upsert :: "world \<Rightarrow> network_profile_draft \<Rightarrow> unit ctl" where
  "profiles_upsert w d =
     db_exec w (\<lambda>db. db\<lparr>db_profiles := (db_profiles db)(np_id d \<mapsto>
       (case db_profiles db (np_id d) of
          None \<Rightarrow> \<lparr>pw_draft = d, pw_status = ''draft'', pw_archived = False\<rparr>
        | Some row \<Rightarrow> row\<lparr>pw_draft := d,
            pw_status := (if pw_status row = ''prepared'' then ''prepared'' else ''draft'')\<rparr>))\<rparr>)"

definition save_network_profile :: "world \<Rightarrow> network_profile_draft \<Rightarrow> network_profile_draft ctl" where
  "save_network_profile w d =
     bind_c (lift_c (case profile_validate d of Inl e \<Rightarrow> Inl (InvalidProfile e) | Inr u \<Rightarrow> Inr u)) (\<lambda>_.
     then_c (profiles_upsert w d) (ret_c d))"

definition has_prepared_revision :: "uuid \<Rightarrow> database \<Rightarrow> bool" where
  "has_prepared_revision profile db \<longleftrightarrow>
     list_ex (\<lambda>i. case db_revisions db i of
        None \<Rightarrow> False | Some r \<Rightarrow> rv_profile_id r = profile \<and> rv_status r = ''prepared'') (db_revision_ids db)"

datatype archive_result = Archived | PreparedRevision | NoProfile

definition profiles_archive :: "world \<Rightarrow> uuid \<Rightarrow> archive_result ctl" where
  "profiles_archive w profile =
     bind_c (db_query w (has_prepared_revision profile)) (\<lambda>prepared.
       if prepared then ret_c PreparedRevision
       else
         bind_c (get_c (\<lambda>s. db_profiles (ap_db s) profile)) (\<lambda>row.
         then_c (db_exec w (\<lambda>db. db\<lparr>db_profiles := (db_profiles db)(profile :=
             map_option (\<lambda>row. row\<lparr>pw_archived := True, pw_status := ''archived''\<rparr>) (db_profiles db profile))\<rparr>))
           (ret_c (if row = None then NoProfile else Archived))))"

definition archive_network_profile :: "world \<Rightarrow> uuid \<Rightarrow> unit ctl" where
  "archive_network_profile w profile =
     bind_c (get_c ap_active_run) (\<lambda>active.
     then_c (guard_c (active = None) ArchiveDuringRun) (
     bind_c (profiles_archive w profile) (\<lambda>result. case result of
        Archived \<Rightarrow> ret_c ()
      | PreparedRevision \<Rightarrow> fail_c RevisionStillPrepared
      | NoProfile \<Rightarrow> fail_c ProfileNotFound)))"

section \<open>Scenarios\<close>

text \<open>The table of scenarios has the last one saved first.\<close>

definition scenarios_upsert :: "world \<Rightarrow> uuid \<Rightarrow> string \<Rightarrow> string \<Rightarrow> unit ctl" where
  "scenarios_upsert w i name body =
     db_exec w (\<lambda>db. db\<lparr>db_scenarios := (i, name, body) # filter (\<lambda>row. fst row \<noteq> i) (db_scenarios db)\<rparr>)"

definition save_scenario :: "world \<Rightarrow> scenario \<Rightarrow> scenario ctl" where
  "save_scenario w s =
     bind_c (lift_c (case scenario_validate s of Inl e \<Rightarrow> Inl (InvalidScenario e) | Inr u \<Rightarrow> Inr u)) (\<lambda>_.
     then_c (validate_artifacts w s) (
     then_c (scenarios_upsert w (sc_id s) (sc_name s) (wd_scenario_json w s)) (ret_c s)))"

definition list_scenarios :: "world \<Rightarrow> scenario list ctl" where
  "list_scenarios w =
     bind_c (db_query w (\<lambda>db. map (snd \<circ> snd) (db_scenarios db))) (\<lambda>bodies.
       ret_c (List.map_filter (wd_parse_scenario w) bodies))"

section \<open>Preflight\<close>

record check =
  ck_name :: string
  ck_node :: "string option"
  ck_ok :: bool
  ck_detail :: "json option"

definition check_to_json :: "check \<Rightarrow> json" where
  "check_to_json c = JObject
     ([(''name'', JString (ck_name c))]
      @ (case ck_node c of None \<Rightarrow> [] | Some n \<Rightarrow> [(''node_id'', JString n)])
      @ [(''ok'', JBool (ck_ok c))]
      @ (case ck_detail c of None \<Rightarrow> [] | Some v \<Rightarrow> [(''detail'', v)]))"

definition inventory_has_ip :: "world \<Rightarrow> json \<Rightarrow> ip_addr \<Rightarrow> bool" where
  "inventory_has_ip w inventory expected \<longleftrightarrow>
     list_ex (\<lambda>address. wd_parse_ip w (hd (split_by ((=) (CHR ''/'')) address)) = Some expected)
       (List.map_filter as_str (concat (map (\<lambda>v. array_items v ''addresses'') (array_items inventory ''interfaces''))))"

text \<open>The answer of an agent to a probe: nothing when it succeeds, or what is wrong.\<close>

definition agent_preflight :: "world \<Rightarrow> agent_session \<Rightarrow> string \<Rightarrow> int \<Rightarrow> string option ctl" where
  "agent_preflight w agent scenario_json role =
     bind_c (ask_c (\<lambda>n. wd_show_uuid w (wd_fresh w n))) (\<lambda>command_id.
     then_c (add_pending_ack command_id) (
     bind_c (send_c w agent (Preflight
         \<lparr>pf_scenario_json = scenario_json, pf_command_id = command_id, pf_endpoint_role = role\<rparr>)) (\<lambda>sent.
       if \<not> sent then then_c (remove_pending_ack command_id) (ret_c (Some ''Agent command channel is closed''))
       else bind_c (ask_c (wd_ack w)) (\<lambda>reply. case reply of
          AckDropped \<Rightarrow> ret_c (Some ''Agent preflight response channel closed'')
        | AckTimeout \<Rightarrow> then_c (remove_pending_ack command_id) (ret_c (Some ''Agent preflight timed out''))
        | Acked who ok err \<Rightarrow> then_c (remove_pending_ack command_id) (ret_c (if ok then None else Some err))))))"

definition recently_seen :: "int \<Rightarrow> agent_session option \<Rightarrow> bool" where
  "recently_seen cutoff a = (case a of None \<Rightarrow> False | Some a \<Rightarrow> cutoff \<le> ag_last_seen_ms a)"

definition node_check :: "string \<Rightarrow> string \<Rightarrow> bool \<Rightarrow> check" where
  "node_check name node ok =
     \<lparr>ck_name = name, ck_node = None, ck_ok = ok, ck_detail = Some (JString (if ok then node else node @ '' is offline''))\<rparr>"

definition address_check :: "world \<Rightarrow> string \<Rightarrow> agent_session option \<Rightarrow> ip_addr \<Rightarrow> check" where
  "address_check w name a ip =
     \<lparr>ck_name = name, ck_node = None,
      ck_ok = (case a of None \<Rightarrow> False | Some a \<Rightarrow> inventory_has_ip w (ag_inventory a) ip), ck_detail = Some (JString (show_ip ip))\<rparr>"

definition proxy_checks :: "world \<Rightarrow> scenario \<Rightarrow> agent_session option \<Rightarrow> agent_session option \<Rightarrow> check list" where
  "proxy_checks w s client server =
     (case sc_path s of
        ExplicitProxy _ client_ip _ server_ip port proxy \<Rightarrow>
          [address_check w ''client_source_ip'' client client_ip, address_check w ''server_listen_ip'' server server_ip,
           \<lparr>ck_name = ''proxy_target'', ck_node = None, ck_ok = True,
            ck_detail = Some (JString (proxy @ '' -> '' @ show_ip server_ip @ '':'' @ show_nat (unat port)))\<rparr>]
      | _ \<Rightarrow> [])"

definition probe_check :: "world \<Rightarrow> string \<Rightarrow> string \<Rightarrow> agent_session option \<Rightarrow> string \<Rightarrow> int \<Rightarrow> check list ctl" where
  "probe_check w name fine a scenario_json role =
     (case a of
        None \<Rightarrow> ret_c []
      | Some a \<Rightarrow> bind_c (agent_preflight w a scenario_json role) (\<lambda>wrong.
          ret_c [\<lparr>ck_name = name, ck_node = None, ck_ok = (wrong = None),
                  ck_detail = Some (JString (case wrong of None \<Rightarrow> fine | Some e \<Rightarrow> e))\<rparr>]))"

text \<open>Whether everything is fine, and the checks made.\<close>

definition preflight_checks :: "world \<Rightarrow> scenario \<Rightarrow> (bool \<times> check list) ctl" where
  "preflight_checks w s =
     bind_c (lift_c (case scenario_validate s of Inl e \<Rightarrow> Inl (InvalidScenario e) | Inr u \<Rightarrow> Inr u)) (\<lambda>_.
     then_c (validate_artifacts w s) (
     bind_c (scenario_nodes w s) (\<lambda>(client_id, server_id, ready).
     bind_c (get_c (\<lambda>st. map_of (ap_agents st) client_id)) (\<lambda>client.
     bind_c (get_c (\<lambda>st. map_of (ap_agents st) server_id)) (\<lambda>server.
     bind_c (ask_c (wd_now w)) (\<lambda>now.
       let cutoff = now - 15000;
           checks = [node_check ''client_node'' client_id (recently_seen cutoff client),
                     node_check ''server_node'' server_id (recently_seen cutoff server),
                     \<lparr>ck_name = ''network_profile'', ck_node = None, ck_ok = ready,
                      ck_detail = Some (JString (if ready then ''prepared'' else ''not prepared''))\<rparr>]
                    @ proxy_checks w s client server
       in if is_explicit_proxy s \<and> list_all ck_ok checks then
            bind_c (probe_check w ''client_agent_probe'' ''source bind and proxy TCP connection succeeded''
                      client (wd_scenario_json w s) 1) (\<lambda>p1.
            bind_c (probe_check w ''server_agent_probe'' ''server address and port bind succeeded''
                      server (wd_scenario_json w s) 2) (\<lambda>p2.
              ret_c (list_all ck_ok (checks @ p1 @ p2), checks @ p1 @ p2)))
          else ret_c (list_all ck_ok checks, checks)))))))"

text \<open>The warning of every answer, in UTF-8: route, MTU, offloads and the physical path have to be checked on the devices.\<close>

definition preflight_warning :: string where
  "preflight_warning =
     ''route, MTU, offload'' @
     [CHR 0xEC, CHR 0x99, CHR 0x80] @
     '' '' @
     [CHR 0xEB, CHR 0xAC, CHR 0xBC, CHR 0xEB, CHR 0xA6, CHR 0xAC] @
     '' '' @
     [CHR 0xEA, CHR 0xB2, CHR 0xBD, CHR 0xEB, CHR 0xA1, CHR 0x9C, CHR 0xEB, CHR 0x8A, CHR 0x94] @
     '' Linux '' @
     [CHR 0xEC, CHR 0x8B, CHR 0xA4, CHR 0xEC, CHR 0x9E, CHR 0xA5, CHR 0xEB, CHR 0xB9, CHR 0x84, CHR 0xEC, CHR 0x97, CHR 0x90, CHR 0xEC, CHR 0x84, CHR 0x9C] @
     '' '' @
     [CHR 0xEB, CHR 0xB3, CHR 0x84, CHR 0xEB, CHR 0x8F, CHR 0x84] @
     '' '' @
     [CHR 0xED, CHR 0x99, CHR 0x95, CHR 0xEC, CHR 0x9D, CHR 0xB8, CHR 0xED, CHR 0x95, CHR 0xB4, CHR 0xEC, CHR 0x95, CHR 0xBC] @
     '' '' @
     [CHR 0xED, CHR 0x95, CHR 0xA9, CHR 0xEB, CHR 0x8B, CHR 0x88, CHR 0xEB, CHR 0x8B, CHR 0xA4]"

definition preflight :: "world \<Rightarrow> scenario \<Rightarrow> json ctl" where
  "preflight w s =
     bind_c (preflight_checks w s) (\<lambda>(ok, checks).
       ret_c (JObject [(''ok'', JBool ok), (''checks'', JArray (map check_to_json checks)),
                       (''warnings'', json_strings [preflight_warning])]))"

section \<open>Diagnosis of a profile\<close>

definition node_diagnosis :: "(string \<times> agent_session) list \<Rightarrow> string \<Rightarrow> check list" where
  "node_diagnosis agents node =
     (case map_of agents node of
        None \<Rightarrow> [\<lparr>ck_name = ''node_online'', ck_node = Some node, ck_ok = False, ck_detail = Some (JString ''agent is offline'')\<rparr>]
      | Some a \<Rightarrow>
          [\<lparr>ck_name = ''node_online'', ck_node = Some node, ck_ok = True, ck_detail = Some (JString (ag_hostname a))\<rparr>,
           \<lparr>ck_name = ''inventory_available'', ck_node = Some node, ck_ok = (array_items (ag_inventory a) ''interfaces'' \<noteq> []),
            ck_detail = Some (ag_inventory a)\<rparr>])"

definition diagnose_network :: "world \<Rightarrow> uuid \<Rightarrow> (bool \<times> check list) ctl" where
  "diagnose_network w revision =
     bind_c (revision_context w revision) (\<lambda>(draft, nodes, _).
     bind_c (get_c ap_agents) (\<lambda>agents.
       let checks = concat (map (node_diagnosis agents) nodes)
             @ [\<lparr>ck_name = ''profile_valid'', ck_node = None, ck_ok = \<not> isl (profile_validate draft), ck_detail = None\<rparr>]
       in ret_c (list_all ck_ok checks, checks)))"

definition reconcile_node :: "world \<Rightarrow> string \<Rightarrow> unit ctl" where
  "reconcile_node w node =
     bind_c (ask_c (wd_fresh w)) (\<lambda>operation.
     bind_c (ask_c (wd_now w)) (\<lambda>now.
     then_c (net_command w node operation ''reconcile'' JNull (now + 180000)) (ret_c ())))"

text \<open>The agents as they are shown: with whether they have been heard of in the last fifteen seconds.\<close>

definition agent_online :: "int \<Rightarrow> agent_session \<Rightarrow> bool" where
  "agent_online now a \<longleftrightarrow> now - ag_last_seen_ms a < 15000"

definition agents_view :: "int \<Rightarrow> app_state \<Rightarrow> (string \<times> agent_session \<times> bool) list" where
  "agents_view now s = map (\<lambda>(i, a). (i, a, agent_online now a)) (ap_agents s)"

section \<open>Runs\<close>

definition validate_scenario_handler :: "scenario \<Rightarrow> json ctl" where
  "validate_scenario_handler s =
     bind_c (lift_c (case scenario_validate s of Inl e \<Rightarrow> Inl (InvalidScenario e) | Inr u \<Rightarrow> Inr u)) (\<lambda>_.
       ret_c (JObject [(''valid'', JBool True)]))"

text \<open>The body of a start request: the scenario with a name for the run, or the scenario alone.\<close>

datatype start_run_payload = Wrapped scenario "string option" | Legacy scenario

definition run_answer :: "world \<Rightarrow> uuid \<Rightarrow> string \<Rightarrow> json" where
  "run_answer w run_id status = JObject [(''id'', JString (wd_show_uuid w run_id)), (''status'', JString status)]"

definition start_run_handler :: "world \<Rightarrow> start_run_payload \<Rightarrow> json ctl" where
  "start_run_handler w payload =
     (case (case payload of Wrapped s name \<Rightarrow> (s, name) | Legacy s \<Rightarrow> (s, None)) of
        (s, requested) \<Rightarrow> bind_c (start_run w s requested) (\<lambda>run_id. ret_c (run_answer w run_id ''running'')))"

definition stop_run_handler :: "world \<Rightarrow> uuid \<Rightarrow> json ctl" where
  "stop_run_handler w run_id = then_c (stop_run w run_id) (ret_c (run_answer w run_id ''cancelled''))"

definition pause_run_handler :: "world \<Rightarrow> uuid \<Rightarrow> json ctl" where
  "pause_run_handler w run_id = bind_c (set_run_paused w run_id True) (\<lambda>status. ret_c (run_answer w run_id status))"

definition resume_run_handler :: "world \<Rightarrow> uuid \<Rightarrow> json ctl" where
  "resume_run_handler w run_id = bind_c (set_run_paused w run_id False) (\<lambda>status. ret_c (run_answer w run_id status))"

definition active_run_view :: "world \<Rightarrow> app_state \<Rightarrow> json" where
  "active_run_view w s = JObject [(''run_id'', optional (\<lambda>i. JString (wd_show_uuid w i)) (ap_active_run s))]"

section \<open>Starting the control plane\<close>

text \<open>The database that is opened: the one configured, or the one for the schema of this program.\<close>

definition use_configured_database :: "bool \<Rightarrow> bool \<Rightarrow> int option \<Rightarrow> bool" where
  "use_configured_database schema_exists has_tables version \<longleftrightarrow>
     version = Some 4 \<or> (\<not> schema_exists \<and> \<not> has_tables)"

definition version_supported :: "int option \<Rightarrow> bool" where
  "version_supported version \<longleftrightarrow> (case version of None \<Rightarrow> True | Some v \<Rightarrow> v = 4)"

definition unfinished_status :: "string \<Rightarrow> bool" where
  "unfinished_status status \<longleftrightarrow> status \<in> {''preparing'', ''running'', ''paused'', ''degraded''}"

definition interrupt_runs :: "int \<Rightarrow> database \<Rightarrow> database" where
  "interrupt_runs now d =
     d\<lparr>db_runs := (\<lambda>i. map_option (\<lambda>r. if unfinished_status (rr_status r)
        then r\<lparr>rr_status := ''failed'', rr_finished_at := Some now, rr_error := Reason ''control_restarted''\<rparr> else r)
        (db_runs d i))\<rparr>"

definition expired :: "int \<Rightarrow> database \<Rightarrow> string \<Rightarrow> bool" where
  "expired cutoff d run_id \<longleftrightarrow>
     (case Option.bind (db_runs d run_id) rr_finished_at of None \<Rightarrow> False | Some t \<Rightarrow> t < cutoff)"

text \<open>Samples, events and then runs are deleted, one statement after the other.\<close>

definition apply_retention :: "world \<Rightarrow> int \<Rightarrow> unit ctl" where
  "apply_retention w cutoff =
     then_c (db_exec w (\<lambda>d. d\<lparr>db_samples := filter (\<lambda>r. \<not> expired cutoff d (fst r)) (db_samples d)\<rparr>)) (
     then_c (db_exec w (\<lambda>d. d\<lparr>db_events := filter (\<lambda>r. \<not> expired cutoff d (fst r)) (db_events d)\<rparr>)) (
     then_c (db_exec w (\<lambda>d. d\<lparr>db_run_events := filter (\<lambda>r. \<not> expired cutoff d (re_run_id r)) (db_run_events d)\<rparr>))
       (db_exec w (\<lambda>d. d\<lparr>db_runs := (\<lambda>i. if expired cutoff d i then None else db_runs d i)\<rparr>))))"

definition start_control :: "world \<Rightarrow> int \<Rightarrow> unit ctl" where
  "start_control w retention_days =
     bind_c (ask_c (wd_now w)) (\<lambda>now.
     then_c (db_exec w (interrupt_runs now)) (
       if 0 < retention_days then
         bind_c (ask_c (wd_now w)) (\<lambda>now. apply_retention w (now - retention_days * 86400000))
       else ret_c ()))"

end
