(* ===== verification/Control_Api_Facts.thy ===== *)
theory Control_Api_Facts
  imports Control_Api Control_Facts
begin

text \<open>
  Facts on the handlers: a preflight promises what a start asks for, archiving a profile needs it to
  be unused, a restart leaves no run unfinished, and retention leaves nothing of a run it deletes.
\<close>

section \<open>Handlers that only read\<close>

text \<open>What a handler that only reads may change: the counter of operations, what is pending and what was sent.\<close>

definition same_data :: "app_state \<Rightarrow> app_state \<Rightarrow> bool" where
  "same_data s s' \<longleftrightarrow> ap_db s' = ap_db s \<and> ap_agents s' = ap_agents s \<and> same_book s s'"

lemma same_dataD:
  assumes "same_data s s'"
  shows "ap_db s' = ap_db s" "ap_agents s' = ap_agents s" "ap_active_run s' = ap_active_run s"
  using assms by (simp_all add: same_data_def same_book_def)

lemma same_data_sym: "same_data s s' \<Longrightarrow> same_data s' s"
  by (simp add: same_data_def same_book_def)

interpretation data: handler_relation same_data
  by unfold_locales (auto simp: same_data_def same_book_def)

text \<open>Such a handler is steady when, in addition, its answer depends on nothing but what it may not change.\<close>

definition steady :: "'a ctl \<Rightarrow> bool" where
  "steady m \<longleftrightarrow> keeps same_data m \<and> (\<forall>s s'. same_data s s' \<longrightarrow> fst (m s') = fst (m s))"

lemma steady_again:
  assumes "steady m" and "m s = (r, s1)" and "same_data s s'"
  obtains s2 where "m s' = (r, s2)" "same_data s s2"
proof -
  obtain q s2 where m: "m s' = (q, s2)" by (cases "m s'")
  have "q = r" using assms m unfolding steady_def by (metis fst_conv)
  moreover have "same_data s' s2" using assms(1) m keepsD [of same_data m s'] by (simp add: steady_def)
  ultimately show thesis using that m data.related_trans [OF assms(3)] by blast
qed

lemma steady_pure: "steady (ret_c x)" "steady (fail_c e)" "steady (guard_c b e)" "steady (option_c e o')" "steady (lift_c r)"
  by (auto simp: steady_def data.keeps_pure ret_c_def fail_c_def guard_c_def option_c_def lift_c_def split: option.split)

lemma steady_get: "(\<And>s s'. same_data s s' \<Longrightarrow> f s' = f s) \<Longrightarrow> steady (get_c f)"
  by (simp add: steady_def data.keeps_pure get_c_def)

lemma steady_bind:
  assumes "steady m" and "\<And>x. steady (f x)"
  shows "steady (bind_c m f)"
  unfolding steady_def
proof (intro conjI allI impI)
  show "keeps same_data (bind_c m f)" using assms by (intro data.keeps_bind) (simp_all add: steady_def)
  fix s s' assume d: "same_data s s'"
  obtain r s1 where m: "m s = (r, s1)" by (cases "m s")
  obtain s2 where m': "m s' = (r, s2)" "same_data s s2" using steady_again [OF assms(1) m d] .
  show "fst (bind_c m f s') = fst (bind_c m f s)"
  proof (cases r)
    case (Inr x)
    have "same_data s s1" using assms(1) keepsD [of same_data m s] m by (simp add: steady_def)
    then have "same_data s1 s2" using m'(2) same_data_sym data.related_trans by blast
    then show ?thesis using m m'(1) Inr assms(2) [of x] by (simp add: bind_c_def steady_def)
  qed (use m m'(1) in \<open>simp add: bind_c_def\<close>)
qed

lemma steady_then: "steady m \<Longrightarrow> steady n \<Longrightarrow> steady (then_c m n)"
  unfolding then_c_def by (rule steady_bind)

lemma steady_each: "(\<And>x. steady (f x)) \<Longrightarrow> steady (each_c f xs)"
  by (induction xs) (auto intro: steady_pure steady_then)

lemma steady_if: "steady m \<Longrightarrow> steady n \<Longrightarrow> steady (if b then m else n)" by simp

lemma steady_prod: "(\<And>x y. steady (f x y)) \<Longrightarrow> steady (case p of (x, y) \<Rightarrow> f x y)" by (cases p) simp

lemma steady_query: "reliable w \<Longrightarrow> steady (db_query w q)"
  by (auto simp: steady_def keeps_def db_query_def Let_def reliable_def same_data_def same_book_def)

lemma steady_ask: "(\<And>m n. f m = f n) \<Longrightarrow> steady (ask_c f)"
  by (auto simp: steady_def keeps_def ask_c_def same_data_def same_book_def)

lemmas steady_rules = steady_pure steady_bind steady_then steady_each steady_if steady_prod

lemma steady_artifacts:
  assumes "reliable w"
  shows "steady (validate_artifacts w sc)"
  unfolding validate_artifacts_def validate_payload_artifact_def validate_capture_artifact_def artifacts_find_def Let_def
  by (intro steady_rules steady_query [OF assms])

lemma steady_nodes:
  assumes "reliable w"
  shows "steady (scenario_nodes w sc)" "steady (scenario_runtime w sc)"
  unfolding scenario_nodes_def scenario_runtime_def Let_def
  by (cases "sc_path sc"; simp add: steady_rules steady_query [OF assms])+

lemma steady_online: "steady (online now i role)"
  unfolding online_def by (intro steady_rules steady_get) (simp add: same_dataD)

section \<open>A preflight promises a start\<close>

lemma data_primitives:
  "keeps same_data (ask_c f)" "keeps same_data (db_query w q)" "keeps same_data (send_c w a m)"
  "keeps same_data (add_pending_ack i)" "keeps same_data (remove_pending_ack i)"
  by (auto simp: keeps_def same_data_def same_book_def ask_c_def db_query_def send_c_def add_pending_ack_def
      remove_pending_ack_def modify_c_def Let_def)

lemma data_probe: "keeps same_data (probe_check w name fine a json role)"
  unfolding probe_check_def agent_preflight_def
  by (intro data.keeps_rules data_primitives) (simp split: ack_reply.split add: data.keeps_rules data_primitives)

lemma data_read:
  "keeps same_data (validate_artifacts w sc)" "keeps same_data (scenario_nodes w sc)"
proof -
  show "keeps same_data (validate_artifacts w sc)"
    unfolding validate_artifacts_def validate_payload_artifact_def validate_capture_artifact_def artifacts_find_def Let_def
    by (intro data.keeps_rules data_primitives)
  show "keeps same_data (scenario_nodes w sc)"
    unfolding scenario_nodes_def by (cases "sc_path sc"; simp add: data.keeps_rules data_primitives)
qed

lemma data_preflight: "keeps same_data (preflight_checks w sc)"
  unfolding preflight_checks_def Let_def
  by (intro data.keeps_rules data_primitives data_read data_probe)

text \<open>What a preflight that finds everything fine has seen.\<close>

lemma preflight_saw:
  assumes "preflight_checks w sc st = (Inr (True, checks), st')"
  obtains c v t1 t2 client server now where "scenario_validate sc = Inr ()" "validate_artifacts w sc st = (Inr (), t1)"
    "scenario_nodes w sc t1 = (Inr (c, v, True), t2)" "now = wd_now w (ap_tick t2)"
    "map_of (ap_agents t2) c = Some client" "now - 15000 \<le> ag_last_seen_ms client"
    "map_of (ap_agents t2) v = Some server" "now - 15000 \<le> ag_last_seen_ms server"
proof -
  obtain u t1 n t2 where r: "scenario_validate sc = Inr ()" "validate_artifacts w sc st = (Inr u, t1)"
      "scenario_nodes w sc t1 = (Inr n, t2)"
    using assms unfolding preflight_checks_def
    by (auto simp: bind_c_Inr then_c_def lift_c_def split: sum.splits)
  obtain c v ready where n: "n = (c, v, ready)" by (cases n)
  let ?now = "wd_now w (ap_tick t2)"
  have "recently_seen (?now - 15000) (map_of (ap_agents t2) c) \<and> recently_seen (?now - 15000) (map_of (ap_agents t2) v) \<and> ready"
    using assms r(1) unfolding preflight_checks_def
    by (auto simp: bind_c_def then_c_def lift_c_def get_c_def ask_c_def ret_c_def r(2,3) n node_check_def Let_def
        split: if_splits prod.splits sum.splits)
  then show thesis using that r n by (auto simp: recently_seen_def split: option.splits)
qed

lemma bind_c_eq: "m s = (Inr x, s1) \<Longrightarrow> bind_c m f s = f x s1"
  by (simp add: bind_c_def)

lemma then_c_eq: "m s = (Inr x, s1) \<Longrightarrow> then_c m n s = n s1"
  by (simp add: then_c_def bind_c_def)

lemma runtime_reliable:
  assumes "reliable w" and "named_runtime w s sc = Some rt"
  obtains s' where "scenario_runtime w sc s = (Inr rt, s')" "same_data s s'"
  using assms
  by (cases "sc_path sc")
    (auto simp: named_runtime_def scenario_runtime_def ret_c_def bind_c_def db_query_def option_c_def lift_c_def Let_def
      reliable_def same_data_def same_book_def split: option.splits sum.splits)

lemma create_reliable:
  assumes "reliable w" and "db_runs (ap_db s) i = None"
  obtains s' where "runs_create w i si sj nm s = (Inr (), s')" "run_status s' i = Some ''preparing''" "ap_agents s' = ap_agents s"
  using assms
  by (auto simp: runs_create_def bind_c_def db_query_def Let_def reliable_def modify_c_def run_status_def)

lemma record_reliable:
  assumes "reliable w"
  obtains s' where "record_run_event w i src ag stage status s = (Inr (), s')" "ap_agents s' = ap_agents s"
    "run_status s' = run_status s"
  using assms
  by (auto simp: record_run_event_def append_run_event_def db_exec_def Let_def reliable_def run_status_def fun_eq_iff)

lemma online_eq: "map_of (ap_agents s) i = Some a \<Longrightarrow> now - 15000 \<le> ag_last_seen_ms a \<Longrightarrow> online now i role s = (Inr a, s)"
  by (simp add: online_def bind_c_def get_c_def option_c_def)

text \<open>What start reads one after the other, and then the launch.\<close>

lemma start_run_admitted:
  assumes w: "reliable w" "\<forall>n. db_runs (ap_db s) (wd_show_uuid w (wd_fresh w n)) = None"
    and valid: "scenario_validate sc = Inr ()" "named_runtime w s sc = Some (crt, vrt)"
    and a: "validate_artifacts w sc s = (Inr (), u1)" "ap_active_run u1 = None"
    and n: "scenario_nodes w sc u1 = (Inr (c, v, True), u2)"
    and d: "same_data s u2"
    and on: "map_of (ap_agents u2) c = Some client" "wd_now w (ap_tick u2) - 15000 \<le> ag_last_seen_ms client"
      "map_of (ap_agents u2) v = Some server" "wd_now w (ap_tick u2) - 15000 \<le> ag_last_seen_ms server"
  shows "\<exists>run_id started s1. run_status s1 (wd_show_uuid w run_id) = Some ''preparing''
    \<and> start_run w sc name s = launch_run w sc run_id (wd_scenario_json w sc) started (needed_artifacts sc)
        (c, client, crt) (v, server, vrt) s1"
proof -
  define now u3 where "now = wd_now w (ap_tick u2)" and "u3 = u2\<lparr>ap_tick := Suc (ap_tick u2)\<rparr>"
  have a3: "ask_c (wd_now w) u2 = (Inr now, u3)" by (simp add: ask_c_def now_def u3_def)
  have d3: "same_data s u3" using d by (auto simp: u3_def same_data_def same_book_def)
  have o: "online now c 1 u3 = (Inr client, u3)" "online now v 2 u3 = (Inr server, u3)"
    using on by (simp_all add: online_eq now_def u3_def)
  define run_id u4 where "run_id = wd_fresh w (ap_tick u3)" and "u4 = u3\<lparr>ap_tick := Suc (ap_tick u3)\<rparr>"
  have a4: "ask_c (wd_fresh w) u3 = (Inr run_id, u4)" by (simp add: ask_c_def run_id_def u4_def)
  have "named_runtime w u4 sc = Some (crt, vrt)"
    using valid(2) same_dataD(1) [OF d3] by (auto simp: u4_def named_runtime_def split: scenario_path.splits)
  then obtain u5 where u5: "scenario_runtime w sc u4 = (Inr (crt, vrt), u5)" "same_data u4 u5"
    using runtime_reliable [OF w(1)] by blast
  define started u6 where "started = wd_now w (ap_tick u5)" and "u6 = u5\<lparr>ap_tick := Suc (ap_tick u5)\<rparr>"
  have a6: "ask_c (wd_now w) u5 = (Inr started, u6)" by (simp add: ask_c_def started_def u6_def)
  have "db_runs (ap_db u6) (wd_show_uuid w run_id) = None"
    using w(2) same_dataD(1) [OF d3] same_dataD(1) [OF u5(2)] by (simp add: u6_def u4_def run_id_def)
  then obtain u7 where u7: "runs_create w (wd_show_uuid w run_id) (wd_show_uuid w (sc_id sc)) (wd_scenario_json w sc)
      (run_name w sc name started) u6 = (Inr (), u7)" "run_status u7 (wd_show_uuid w run_id) = Some ''preparing''"
    using create_reliable [OF w(1)] by metis
  obtain u8 where u8: "record_run_event w run_id ''control'' None ''prepare'' ''started'' u7 = (Inr (), u8)"
      "run_status u8 = run_status u7"
    using record_reliable [OF w(1)] by metis
  have "start_run w sc name s = launch_run w sc run_id (wd_scenario_json w sc) started (needed_artifacts sc)
        (c, client, crt) (v, server, vrt) u8"
    unfolding start_run_def
    by (simp add: valid(1) lift_c_def bind_c_def then_c_def a(1) get_c_def a(2) guard_c_def n a3 o a4 u5(1) a6 u7(1) u8(1))
  then show ?thesis using u7(2) u8(2) by metis
qed


definition preflight_world :: world where
  "preflight_world = example_world\<lparr>wd_parse_ip := (\<lambda>t. Some (V4 0))\<rparr>"

definition preflight_control :: app_state where
  "preflight_control = example_control\<lparr>ap_agents := [(''n'', example_session\<lparr>ag_inventory := JObject
     [(''interfaces'', JArray [JObject [(''addresses'', JArray [JString ''0.0.0.0/8''])]])]\<rparr>)]\<rparr>"

lemma preflight_example:
  "\<exists>checks st'. preflight_checks preflight_world example_scenario preflight_control = (Inr (True, checks), st')"
  unfolding preflight_checks_def example_scenario_valid
  by (simp add: handler_defs preflight_world_def preflight_control_def example_world_def example_control_def example_scenario_def
      example_session_def scenario_nodes_def validate_artifacts_def validate_payload_artifact_def validate_capture_artifact_def
      scenario_default_def payload_fixed_def recently_seen_def node_check_def proxy_checks_def address_check_def
      inventory_has_ip_def array_items_def as_array_def json_get_def as_str_def List.map_filter_simps is_explicit_proxy_def
      probe_check_def agent_preflight_def add_pending_ack_def remove_pending_ack_def)


section \<open>Archiving\<close>

lemma archive_outcome:
  assumes "archive_network_profile w profile s = (Inr u, s')"
  shows "ap_active_run s = None \<and> \<not> has_prepared_revision profile (ap_db s)
    \<and> (\<exists>row. db_profiles (ap_db s) profile = Some row
        \<and> db_profiles (ap_db s') = (db_profiles (ap_db s))(profile \<mapsto> row\<lparr>pw_archived := True, pw_status := ''archived''\<rparr>))"
  using assms
  by (auto simp: archive_network_profile_def profiles_archive_def bind_c_Inr then_c_def get_c_def guard_c_def db_query_def db_exec_def
      ret_c_def fail_c_def Let_def fun_upd_def fun_eq_iff split: if_splits archive_result.splits)

section \<open>Starting the control plane\<close>

lemma interrupted_status:
  "map_option rr_status (db_runs (interrupt_runs now d) i) =
     map_option (\<lambda>r. if unfinished_status (rr_status r) then ''failed'' else rr_status r) (db_runs d i)"
  by (cases "db_runs d i") (simp_all add: interrupt_runs_def)

text \<open>What belongs to a run besides its row.\<close>

definition run_leftovers :: "database \<Rightarrow> string \<Rightarrow> bool" where
  "run_leftovers d i \<longleftrightarrow>
     i \<in> fst ` set (db_samples d) \<or> i \<in> fst ` set (db_events d) \<or> i \<in> re_run_id ` set (db_run_events d)"

lemma expired_same:
  "expired cutoff (d\<lparr>db_samples := x\<rparr>) = expired cutoff d" "expired cutoff (d\<lparr>db_events := y\<rparr>) = expired cutoff d"
  "expired cutoff (d\<lparr>db_run_events := z\<rparr>) = expired cutoff d"
  by (simp_all add: expired_def fun_eq_iff)

definition retained :: "int \<Rightarrow> database \<Rightarrow> database \<Rightarrow> bool" where
  "retained cutoff d d' \<longleftrightarrow>
     (\<forall>i. db_runs d' i = db_runs d i \<or> db_runs d' i = None \<and> expired cutoff d i \<and> \<not> run_leftovers d' i)"

lemma apply_retention_retains:
  "apply_retention w cutoff s = (r, s') \<Longrightarrow> retained cutoff (ap_db s) (ap_db s')"
  by (auto simp: apply_retention_def then_c_def bind_c_def db_exec_def Let_def retained_def run_leftovers_def expired_same
      split: if_splits)

lemma start_control_database:
  assumes "start_control w days s = (r, s')"
  shows "(r \<noteq> Inr () \<and> ap_db s' = ap_db s)
    \<or> (\<exists>now cutoff. retained cutoff (interrupt_runs now (ap_db s)) (ap_db s') \<and> (days \<le> 0 \<longrightarrow> ap_db s' = interrupt_runs now (ap_db s))
        \<and> (\<exists>m n. now = wd_now w m \<and> cutoff = wd_now w n - days * 86400000))"
proof -
  obtain now s1 where ask: "ask_c (wd_now w) s = (Inr now, s1)" "ap_db s1 = ap_db s" "now = wd_now w (ap_tick s)"
    by (simp add: ask_c_def)
  show ?thesis
  proof (cases "db_exec w (interrupt_runs now) s1")
    case (Pair e s2)
    show ?thesis
    proof (cases e)
      case (Inl x)
      then show ?thesis using assms ask Pair
        by (auto simp: start_control_def bind_c_def then_c_def db_exec_def Let_def split: if_splits)
    next
      case (Inr u)
      then have d: "ap_db s2 = interrupt_runs now (ap_db s)" using Pair ask
        by (auto simp: db_exec_def Let_def split: if_splits)
      obtain later s3 where ask2: "ask_c (wd_now w) s2 = (Inr later, s3)" "ap_db s3 = ap_db s2" "later = wd_now w (ap_tick s2)"
        by (simp add: ask_c_def)
      show ?thesis
      proof (cases "0 < days")
        case True
        then have "apply_retention w (later - days * 86400000) s3 = (r, s')"
          using assms ask Pair Inr ask2 by (simp add: start_control_def bind_c_def then_c_def)
        then show ?thesis using apply_retention_retains d ask ask2 True by fastforce
      next
        case False
        then have "ap_db s' = interrupt_runs now (ap_db s)"
          using assms ask Pair Inr d by (simp add: start_control_def bind_c_def then_c_def ret_c_def)
        then show ?thesis using ask ask2 by (auto simp: retained_def)
      qed
    qed
  qed
qed

text \<open>
  C38. When the control plane starts, no run is left unfinished and no run is deleted by halves. Once it has
  started, every run that was under way has failed, with the reason that the control plane was restarted, and a run
  that had finished is as it was. A run is deleted only when runs are to be retained for a number of days and it had
  finished before the cutoff, that many days ago (the runs just interrupted have finished now); and whatever statement
  fails, a run whose row is gone has no sample and no event left.
\<close>

theorem restart_settles_runs:
  assumes "start_control w days s = (r, s')"
  shows "\<exists>m n. \<forall>i. (case db_runs (ap_db s') i of
      None \<Rightarrow> db_runs (ap_db s) i \<noteq> None \<longrightarrow>
        0 < days \<and> expired (wd_now w n - days * 86400000) (interrupt_runs (wd_now w m) (ap_db s)) i \<and> \<not> run_leftovers (ap_db s') i
    | Some row \<Rightarrow> (\<exists>old. db_runs (ap_db s) i = Some old
        \<and> (if unfinished_status (rr_status old)
           then r \<noteq> Inr () \<and> row = old
             \<or> row = old\<lparr>rr_status := ''failed'', rr_finished_at := Some (wd_now w m), rr_error := Reason ''control_restarted''\<rparr>
           else row = old)))"
  using start_control_database [OF assms]
proof (elim disjE exE conjE)
  assume "r \<noteq> Inr ()" "ap_db s' = ap_db s"
  then show ?thesis by (auto split: option.split)
next
  fix now cutoff m n
  assume kept: "retained cutoff (interrupt_runs now (ap_db s)) (ap_db s')"
    and days: "days \<le> 0 \<longrightarrow> ap_db s' = interrupt_runs now (ap_db s)"
    and times: "now = wd_now w m" "cutoff = wd_now w n - days * 86400000"
  have row: "db_runs (interrupt_runs now (ap_db s)) i = map_option (\<lambda>r. if unfinished_status (rr_status r)
      then r\<lparr>rr_status := ''failed'', rr_finished_at := Some now, rr_error := Reason ''control_restarted''\<rparr> else r)
      (db_runs (ap_db s) i)" for i by (simp add: interrupt_runs_def)
  have "case db_runs (ap_db s') i of
      None \<Rightarrow> db_runs (ap_db s) i \<noteq> None \<longrightarrow>
        0 < days \<and> expired cutoff (interrupt_runs now (ap_db s)) i \<and> \<not> run_leftovers (ap_db s') i
    | Some row \<Rightarrow> (\<exists>old. db_runs (ap_db s) i = Some old
        \<and> (if unfinished_status (rr_status old)
           then r \<noteq> Inr () \<and> row = old
             \<or> row = old\<lparr>rr_status := ''failed'', rr_finished_at := Some now, rr_error := Reason ''control_restarted''\<rparr>
           else row = old))" for i
  proof -
    have "db_runs (ap_db s') i = db_runs (interrupt_runs now (ap_db s)) i
      \<or> 0 < days \<and> db_runs (ap_db s') i = None \<and> expired cutoff (interrupt_runs now (ap_db s)) i \<and> \<not> run_leftovers (ap_db s') i"
      using kept days unfolding retained_def by (metis linorder_not_less)
    then show ?thesis unfolding row by (cases "db_runs (ap_db s) i") (auto split: option.split)
  qed
  then show ?thesis unfolding times by blast
qed

theorem restart_settles_runs_witness:
  "\<exists>s' row. start_control example_world 0 (example_control\<lparr>ap_db := empty_database\<lparr>db_runs := [''1'' \<mapsto>
       \<lparr>rr_scenario_id = [], rr_scenario_json = [], rr_run_name = [], rr_status = ''running'', rr_started_at = None,
        rr_finished_at = None, rr_error = NoError\<rparr>]\<rparr>\<rparr>) = (Inr (), s')
     \<and> db_runs (ap_db s') ''1'' = Some row \<and> rr_status row = ''failed'' \<and> rr_error row = Reason ''control_restarted''"
proof -
  let ?row = "\<lparr>rr_scenario_id = [], rr_scenario_json = [], rr_run_name = [], rr_status = ''running'', rr_started_at = None,
        rr_finished_at = None, rr_error = NoError\<rparr>"
  let ?s = "example_control\<lparr>ap_db := empty_database\<lparr>db_runs := [''1'' \<mapsto> ?row]\<rparr>\<rparr>"
  obtain s' where st: "start_control example_world 0 ?s = (Inr (), s')"
    by (simp add: start_control_def handler_defs example_world_def)
  have old: "db_runs (ap_db ?s) ''1'' = Some ?row" "unfinished_status (rr_status ?row)"
    by (simp_all add: unfinished_status_def)
  obtain row where "db_runs (ap_db s') ''1'' = Some row" "rr_status row = ''failed''" "rr_error row = Reason ''control_restarted''"
    using restart_settles_runs [OF st] old by (elim exE) (drule spec [of _ "''1''"], auto split: option.splits)
  with st show ?thesis by blast
qed

end
