(* ===== verification/Table_Views.thy ===== *)
theory Table_Views
  imports Run_Views "HOL-Library.List_Lexorder" "HOL-Library.Char_ord"
begin

text \<open>
  The lists and diagnostics the control plane answers with: network operations with their events
  (\<open>network_audit\<close> in \<open>crates/control/src/main.rs\<close>, \<open>repository/diagnostics.rs\<close>), the diagnostics of a
  run, the lists of profiles, revisions and artifacts. A table is the list of its rows in the order of
  their insertion; a time is its text, whose order is that of the times.
\<close>

text \<open>\<open>ORDER BY \<dots> DESC\<close>, later rows last among equals.\<close>

definition order_desc :: "('a \<Rightarrow> 'k::linorder) \<Rightarrow> 'a list \<Rightarrow> 'a list" where
  "order_desc key rows = rev (sort_key key (rev rows))"

section \<open>Network operations\<close>

record operation_view_row =
  op_id :: string
  op_profile_revision_id :: string
  op_kind :: string
  op_status :: string
  op_detail_json :: string
  op_created_at :: string
  op_updated_at :: string

record network_event_row =
  ne_operation_id :: string
  ne_node_id :: string
  ne_stage :: string
  ne_status :: string
  ne_detail_json :: string
  ne_created_at :: string

definition network_event_members :: "view_env \<Rightarrow> network_event_row \<Rightarrow> (string \<times> json) list" where
  "network_event_members V e =
     [(''node_id'', JString (ne_node_id e)), (''stage'', JString (ne_stage e)), (''status'', JString (ne_status e)),
      (''detail'', json_text V (ne_detail_json e)), (''created_at'', JString (ne_created_at e))]"

definition operation_json :: "view_env \<Rightarrow> operation_view_row \<Rightarrow> json list \<Rightarrow> json" where
  "operation_json V r events = JObject
     [(''id'', JString (op_id r)), (''profile_revision_id'', JString (op_profile_revision_id r)),
      (''kind'', JString (op_kind r)), (''status'', JString (op_status r)), (''detail'', json_text V (op_detail_json r)),
      (''events'', JArray events), (''created_at'', JString (op_created_at r)), (''updated_at'', JString (op_updated_at r))]"

definition operation_events :: "network_event_row list \<Rightarrow> string \<Rightarrow> network_event_row list" where
  "operation_events events operation = filter (\<lambda>e. ne_operation_id e = operation) events"

text \<open>The last operations with all their events; nothing when the limit is refused.\<close>

definition network_audit :: "view_env \<Rightarrow> operation_view_row list \<Rightarrow> network_event_row list \<Rightarrow> i64 option \<Rightarrow> json list option" where
  "network_audit V operations events requested =
     map_option (\<lambda>limit.
       map (\<lambda>r. operation_json V r (map (\<lambda>e. JObject (network_event_members V e)) (operation_events events (op_id r))))
         (take limit (order_desc op_created_at operations)))
       (diagnostic_limit requested 50)"

text \<open>One operation with its last events, oldest first.\<close>

definition network_operation :: "view_env \<Rightarrow> operation_view_row list \<Rightarrow> network_event_row list \<Rightarrow> string \<Rightarrow> nat \<Rightarrow> json option" where
  "network_operation V operations events operation limit =
     map_option (\<lambda>r. operation_json V r
         (map (\<lambda>e. JObject ((''source'', JString ''network'') # network_event_members V e))
           (recent_events limit (operation_events events operation))))
       (find (\<lambda>r. op_id r = operation) operations)"

datatype view_error = LimitRefused | NotInTable

definition network_operation_detail :: "view_env \<Rightarrow> operation_view_row list \<Rightarrow> network_event_row list \<Rightarrow> string \<Rightarrow> i64 option
    \<Rightarrow> view_error + json" where
  "network_operation_detail V operations events operation requested =
     bind_res (ok_or LimitRefused (diagnostic_limit requested 200)) (\<lambda>limit.
       ok_or NotInTable (network_operation V operations events operation limit))"

section \<open>Runs\<close>

record participant_row =
  pt_run_id :: string
  pt_agent_id :: string
  pt_role :: i64
  pt_phase :: string
  pt_last_command_id :: "string option"
  pt_error :: "string option"
  pt_updated_at :: string

record run_event_row =
  rw_run_id :: string
  rw_source :: string
  rw_agent_id :: "string option"
  rw_stage :: string
  rw_status :: string
  rw_detail_json :: string
  rw_created_at :: string

definition participant_json :: "participant_row \<Rightarrow> json" where
  "participant_json p = JObject
     [(''agent_id'', JString (pt_agent_id p)), (''role'', JNumber (pt_role p)), (''phase'', JString (pt_phase p)),
      (''last_command_id'', optional JString (pt_last_command_id p)), (''error'', optional JString (pt_error p)),
      (''updated_at'', JString (pt_updated_at p))]"

definition run_event_json :: "view_env \<Rightarrow> run_event_row \<Rightarrow> json" where
  "run_event_json V e = JObject
     [(''source'', JString (rw_source e)), (''agent_id'', optional JString (rw_agent_id e)), (''stage'', JString (rw_stage e)),
      (''status'', JString (rw_status e)), (''detail'', json_text V (rw_detail_json e)), (''created_at'', JString (rw_created_at e))]"

definition run_diagnostics :: "view_env \<Rightarrow> run_record list \<Rightarrow> participant_row list \<Rightarrow> run_event_row list \<Rightarrow> string \<Rightarrow> nat
    \<Rightarrow> json option" where
  "run_diagnostics V runs participants events run_id limit =
     map_option (\<lambda>r. JObject
         [(''id'', JString (rc_id r)), (''status'', JString (rc_status r)), (''error'', optional JString (rc_error r)),
          (''started_at'', optional JString (rc_started_at r)), (''finished_at'', optional JString (rc_finished_at r)),
          (''participants'', JArray (map participant_json
             (sort_key pt_agent_id (filter (\<lambda>p. pt_run_id p = run_id) participants)))),
          (''events'', JArray (map (run_event_json V)
             (recent_events limit (filter (\<lambda>e. rw_run_id e = run_id) events))))])
       (find_run runs run_id)"

definition run_diagnostics_detail :: "view_env \<Rightarrow> run_record list \<Rightarrow> participant_row list \<Rightarrow> run_event_row list \<Rightarrow> string
    \<Rightarrow> i64 option \<Rightarrow> view_error + json" where
  "run_diagnostics_detail V runs participants events run_id requested =
     bind_res (ok_or LimitRefused (diagnostic_limit requested 200)) (\<lambda>limit.
       ok_or NotInTable (run_diagnostics V runs participants events run_id limit))"

section \<open>Profiles, revisions and artifacts\<close>

record profile_view_row =
  pl_id :: string
  pl_name :: string
  pl_draft_json :: string
  pl_status :: string
  pl_archived :: i64
  pl_created_at :: string
  pl_updated_at :: string

definition list_profiles :: "view_env \<Rightarrow> profile_view_row list \<Rightarrow> json list" where
  "list_profiles V rows = map (\<lambda>r. JObject
     [(''id'', JString (pl_id r)), (''name'', JString (pl_name r)), (''draft'', json_text V (pl_draft_json r)),
      (''status'', JString (pl_status r)), (''archived'', JBool (pl_archived r \<noteq> 0)),
      (''created_at'', JString (pl_created_at r)), (''updated_at'', JString (pl_updated_at r))])
     (order_desc pl_updated_at rows)"

record revision_view_row =
  vr_id :: string
  vr_profile_id :: string
  vr_revision :: i64
  vr_sha256 :: string
  vr_body_json :: string
  vr_created_at :: string

record profile_revision =
  vn_id :: uuid
  vn_profile_id :: uuid
  vn_revision :: u32
  vn_sha256 :: string
  vn_body :: network_profile_draft

text \<open>A row whose identifiers or body cannot be read is left out.\<close>

definition revision_from_row :: "(string \<Rightarrow> uuid option) \<Rightarrow> (string \<Rightarrow> network_profile_draft option) \<Rightarrow> revision_view_row
    \<Rightarrow> profile_revision option" where
  "revision_from_row parse_uuid parse_draft r =
     (case (parse_uuid (vr_id r), parse_uuid (vr_profile_id r), parse_draft (vr_body_json r)) of
        (Some i, Some p, Some body) \<Rightarrow>
          Some \<lparr>vn_id = i, vn_profile_id = p, vn_revision = of_int (vr_revision r), vn_sha256 = vr_sha256 r, vn_body = body\<rparr>
      | _ \<Rightarrow> None)"

definition list_revisions :: "(string \<Rightarrow> uuid option) \<Rightarrow> (string \<Rightarrow> network_profile_draft option) \<Rightarrow> (uuid \<Rightarrow> string)
    \<Rightarrow> revision_view_row list \<Rightarrow> uuid option \<Rightarrow> profile_revision list" where
  "list_revisions parse_uuid parse_draft show_uuid rows profile =
     List.map_filter (revision_from_row parse_uuid parse_draft)
       (case profile of
          Some p \<Rightarrow> order_desc vr_revision (filter (\<lambda>r. vr_profile_id r = show_uuid p) rows)
        | None \<Rightarrow> order_desc vr_created_at rows)"

record artifact_view_row =
  av_id :: string
  av_kind :: string
  av_name :: string
  av_sha256 :: string
  av_size_bytes :: i64
  av_format :: string
  av_packet_count :: i64
  av_captured_bytes :: i64
  av_analysis_json :: "string option"
  av_created_at :: string

definition artifact_list :: "view_env \<Rightarrow> artifact_view_row list \<Rightarrow> json list" where
  "artifact_list V rows = map (\<lambda>r. JObject
     [(''id'', JString (av_id r)), (''kind'', JString (av_kind r)), (''name'', JString (av_name r)),
      (''sha256'', JString (av_sha256 r)), (''size_bytes'', JNumber (av_size_bytes r)), (''format'', JString (av_format r)),
      (''packet_count'', JNumber (av_packet_count r)), (''captured_bytes'', JNumber (av_captured_bytes r)),
      (''analysis'', case av_analysis_json r of None \<Rightarrow> JNull | Some t \<Rightarrow> json_text V t),
      (''created_at'', JString (av_created_at r))])
     (order_desc av_created_at rows)"

section \<open>What is shown\<close>

lemma sorted_order_desc: "sorted_wrt (\<lambda>a b. key b \<le> key a) (order_desc key rows)"
proof -
  have "sorted_wrt (\<lambda>a b. key a \<le> key b) (sort_key key (rev rows))"
    using sorted_sort_key [of key "rev rows"] by (simp add: sorted_map)
  then show ?thesis by (simp add: order_desc_def sorted_wrt_rev)
qed

lemma set_order_desc [simp]: "set (order_desc key rows) = set rows" by (simp add: order_desc_def)

lemma length_order_desc [simp]: "length (order_desc key rows) = length rows" by (simp add: order_desc_def)

text \<open>
  An audit has at most as many operations as asked for, never more than 500, and no operation that is left
  out is newer than one that is shown.
\<close>

theorem audit_shows_newest:
  assumes "diagnostic_limit requested 50 = Some limit"
  shows "\<exists>shown. map (\<lambda>v. json_get v ''id'') (the (network_audit V operations events requested)) = map (JString \<circ> op_id) shown
    \<and> length shown = min limit (length operations) \<and> limit \<le> 500
    \<and> (\<exists>rest. order_desc op_created_at operations = shown @ rest
        \<and> (\<forall>a\<in>set shown. \<forall>b\<in>set rest. op_created_at b \<le> op_created_at a))"
proof -
  define rows where "rows = order_desc op_created_at operations"
  have "sorted_wrt (\<lambda>a b. op_created_at b \<le> op_created_at a) (take limit rows @ drop limit rows)"
    unfolding rows_def append_take_drop_id by (rule sorted_order_desc)
  then have "rows = take limit rows @ drop limit rows
      \<and> (\<forall>a\<in>set (take limit rows). \<forall>b\<in>set (drop limit rows). op_created_at b \<le> op_created_at a)"
    unfolding sorted_wrt_append by simp
  moreover have "map (\<lambda>v. json_get v ''id'') (the (network_audit V operations events requested)) = map (JString \<circ> op_id) (take limit rows)"
    using assms by (simp add: network_audit_def operation_json_def json_get_def comp_def rows_def)
  moreover have "limit \<le> 500" using assms by (auto simp: diagnostic_limit_def Let_def split: if_splits)
  moreover have "length (take limit rows) = min limit (length operations)" by (simp add: rows_def min.commute)
  ultimately show ?thesis unfolding rows_def by blast
qed

end
