(* ===== verification/Agent_Tls.thy ===== *)
theory Agent_Tls
  imports Domain_Facts
begin

text \<open>
  How the agent configures TLS for a scenario (\<open>crates/agent/src/tls.rs\<close>): the cipher suites and the
  protocol version it allows, whom it trusts, the protocol it asks for by ALPN, and what it demands of the
  result. The TLS library is a parameter: what it reads from PEM texts, which configurations
  it accepts and the handshake itself.
\<close>

section \<open>Configurations\<close>

datatype 'c verifier = RootsOf "'c list" | NoCertificateVerification

record 'c client_tls =
  cc_suites :: "string list"
  cc_versions :: "tls_version list"
  cc_verifier :: "'c verifier"
  cc_alpn :: "string list"

record ('c, 'k) server_tls =
  vc_suites :: "string list"
  vc_versions :: "tls_version list"
  vc_certificates :: "'c list"
  vc_key :: 'k
  vc_alpn :: "string list"

text \<open>What a handshake agreed on, and the certificates the peer was verified against, if it was.\<close>

record 'c tls_session =
  ts_version :: tls_version
  ts_suite :: string
  ts_alpn :: "string option"
  ts_verified :: "'c list option"

text \<open>
  The library: the names of the cipher suites it has, whether suites and versions go together, the certificates and the
  key in a PEM text (an error, or what there is), whether a certificate can be a root, whether a text is a
  server name, whether a key fits its certificates, and the handshake of a client.
\<close>

record ('c, 'k, 's) tls_library =
  tb_suites :: "string list"
  tb_versions_ok :: "string list \<Rightarrow> tls_version list \<Rightarrow> bool"
  tb_certs :: "string \<Rightarrow> 'c list option"
  tb_key :: "string \<Rightarrow> 'k option option"
  tb_usable_root :: "'c \<Rightarrow> bool"
  tb_server_name :: "string \<Rightarrow> bool"
  tb_single_cert :: "'c list \<Rightarrow> 'k \<Rightarrow> bool"
  tb_handshake :: "'c client_tls \<Rightarrow> string \<Rightarrow> 's \<Rightarrow> 'c tls_session option"

datatype tls_error =
    CipherSuiteUnavailable string | VersionsRejected | CaPemRequired | CertificatesUnreadable | NoUsableCertificates
  | ServerNameInvalid | HandshakeFailed | AlpnNotH2 | CertificateRequired | PrivateKeyRequired | PrivateKeyUnreadable
  | PrivateKeyEmpty | CertificateRejected

definition crypto_provider :: "('c, 'k, 's) tls_library \<Rightarrow> scenario \<Rightarrow> tls_error + string list" where
  "crypto_provider lib s =
     (case tls_cipher_suite (sc_tls s) of
        None \<Rightarrow> Inr (tb_suites lib)
      | Some cipher \<Rightarrow>
          (let suites = filter (\<lambda>suite. suite = cipher) (tb_suites lib)
           in if suites = [] then Inl (CipherSuiteUnavailable cipher) else Inr suites))"

definition protocol_versions :: "tls_version \<Rightarrow> tls_version list" where
  "protocol_versions version = (case version of Tls12 \<Rightarrow> [Tls12] | Tls13 \<Rightarrow> [Tls13])"

definition alpn_protocols :: "scenario \<Rightarrow> string list" where
  "alpn_protocols s = (if sc_protocol s = Http2 then [''h2''] else [])"

definition suites_and_versions :: "('c, 'k, 's) tls_library \<Rightarrow> scenario \<Rightarrow> tls_error + string list \<times> tls_version list" where
  "suites_and_versions lib s =
     bind_res (crypto_provider lib s) (\<lambda>suites.
       let versions = protocol_versions (tls_version (sc_tls s))
       in if tb_versions_ok lib suites versions then Inr (suites, versions) else Inl VersionsRejected)"

section \<open>The client\<close>

text \<open>The certificates of the scenario's CA that can be roots, or no verification at all.\<close>

definition peer_verifier :: "('c, 'k, 's) tls_library \<Rightarrow> tls_profile \<Rightarrow> tls_error + 'c verifier" where
  "peer_verifier lib t =
     (if tls_verify_peer t then
        bind_res (ok_or CaPemRequired (tls_ca_pem t)) (\<lambda>pem.
        bind_res (ok_or CertificatesUnreadable (tb_certs lib pem)) (\<lambda>certificates.
          let roots = filter (tb_usable_root lib) certificates
          in if length roots = 0 then Inl NoUsableCertificates else Inr (RootsOf roots)))
      else Inr NoCertificateVerification)"

definition client_config :: "('c, 'k, 's) tls_library \<Rightarrow> scenario \<Rightarrow> tls_error + 'c client_tls" where
  "client_config lib s =
     bind_res (suites_and_versions lib s) (\<lambda>(suites, versions).
     bind_res (peer_verifier lib (sc_tls s)) (\<lambda>verifier.
       Inr \<lparr>cc_suites = suites, cc_versions = versions, cc_verifier = verifier, cc_alpn = alpn_protocols s\<rparr>))"

definition tls_connect :: "('c, 'k, 's) tls_library \<Rightarrow> 's \<Rightarrow> scenario \<Rightarrow> tls_error + 'c tls_session" where
  "tls_connect lib stream s =
     bind_res (client_config lib s) (\<lambda>config.
       if \<not> tb_server_name lib (tls_server_name (sc_tls s)) then Inl ServerNameInvalid
       else bind_res (ok_or HandshakeFailed (tb_handshake lib config (tls_server_name (sc_tls s)) stream)) (\<lambda>session.
         if sc_protocol s = Http2 \<and> ts_alpn session \<noteq> Some ''h2'' then Inl AlpnNotH2 else Inr session))"

section \<open>The server\<close>

definition tls_acceptor :: "('c, 'k, 's) tls_library \<Rightarrow> scenario \<Rightarrow> tls_error + ('c, 'k) server_tls" where
  "tls_acceptor lib s =
     bind_res (ok_or CertificateRequired (tls_server_cert_pem (sc_tls s))) (\<lambda>certificate_pem.
     bind_res (ok_or PrivateKeyRequired (tls_server_key_pem (sc_tls s))) (\<lambda>key_pem.
     bind_res (ok_or CertificatesUnreadable (tb_certs lib certificate_pem)) (\<lambda>certificates.
     bind_res (ok_or PrivateKeyUnreadable (tb_key lib key_pem)) (\<lambda>found.
     bind_res (ok_or PrivateKeyEmpty found) (\<lambda>key.
     bind_res (suites_and_versions lib s) (\<lambda>(suites, versions).
       if \<not> tb_single_cert lib certificates key then Inl CertificateRejected
       else Inr \<lparr>vc_suites = suites, vc_versions = versions, vc_certificates = certificates, vc_key = key,
                 vc_alpn = alpn_protocols s\<rparr>))))))"

section \<open>What a connection has\<close>

text \<open>
  What the library documents of a handshake: the version and the suite are configured ones, a protocol chosen by ALPN
  was offered, and a peer is verified against the roots that are configured.
\<close>

definition handshake_contract :: "('c, 'k, 's) tls_library \<Rightarrow> bool" where
  "handshake_contract lib \<longleftrightarrow>
     (\<forall>config name stream session. tb_handshake lib config name stream = Some session \<longrightarrow>
        ts_version session \<in> set (cc_versions config) \<and> ts_suite session \<in> set (cc_suites config)
        \<and> (\<forall>p. ts_alpn session = Some p \<longrightarrow> p \<in> set (cc_alpn config))
        \<and> (\<forall>roots. cc_verifier config = RootsOf roots \<longrightarrow> ts_verified session = Some roots))"

lemma suites_and_versions_Inr:
  assumes "suites_and_versions lib s = Inr (suites, versions)"
  shows "versions = [tls_version (sc_tls s)]" and "set suites \<subseteq> set (tb_suites lib)"
    and "tls_cipher_suite (sc_tls s) = Some c \<Longrightarrow> set suites \<subseteq> {c}"
  using assms
  by (auto simp: suites_and_versions_def crypto_provider_def protocol_versions_def Let_def
      split: option.splits tls_version.splits if_splits)

lemma tls_connect_config:
  assumes "tls_connect lib stream s = Inr session"
  obtains config where "client_config lib s = Inr config" "tb_handshake lib config (tls_server_name (sc_tls s)) stream = Some session"
    "sc_protocol s = Http2 \<longrightarrow> ts_alpn session = Some ''h2''"
  using assms by (auto simp: tls_connect_def split: if_splits)

lemma client_config_Inr:
  assumes "client_config lib s = Inr config"
  obtains suites where "suites_and_versions lib s = Inr (suites, cc_versions config)" "cc_suites config = suites"
    "peer_verifier lib (sc_tls s) = Inr (cc_verifier config)" "cc_alpn config = alpn_protocols s"
  using assms by (auto simp: client_config_def)

lemma peer_verifier_roots:
  assumes "peer_verifier lib t = Inr verifier" and "tls_verify_peer t"
  obtains pem certificates roots where "verifier = RootsOf roots" "tls_ca_pem t = Some pem" "tb_certs lib pem = Some certificates"
    "roots \<noteq> []" "set roots \<subseteq> set certificates"
  using assms by (auto simp: peer_verifier_def Let_def split: if_splits)

lemma validated_tls: "scenario_validate s = Inr () \<Longrightarrow> tls_usable (sc_tls s)"
  unfolding scenario_validate_def run_checks_ok checks_append checks_usable by blast

lemma bind_res_eq_Inl: "bind_res m f = Inl e \<longleftrightarrow> m = Inl e \<or> (\<exists>a. m = Inr a \<and> f a = Inl e)"
  by (cases m) simp_all

lemma ok_or_eq_Inl: "ok_or e x = Inl e' \<longleftrightarrow> x = None \<and> e = e'"
  by (cases x) simp_all

lemma suites_and_versions_errors:
  "suites_and_versions lib s = Inl e \<Longrightarrow> e = VersionsRejected \<or> (\<exists>c. e = CipherSuiteUnavailable c)"
  by (auto simp: suites_and_versions_def crypto_provider_def Let_def split: option.splits if_splits)


text \<open>A library with two suites, PEM texts that are one certificate or key each, and a handshake that takes the first of what is configured.\<close>

definition tls_library_example :: "(string, string, unit) tls_library" where
  "tls_library_example =
     \<lparr>tb_suites = [''TLS13_AES_256_GCM_SHA384'', ''TLS13_AES_128_GCM_SHA256''],
      tb_versions_ok = (\<lambda>suites versions. True), tb_certs = (\<lambda>pem. Some [pem]), tb_key = (\<lambda>pem. Some (Some pem)),
      tb_usable_root = (\<lambda>c. True), tb_server_name = (\<lambda>name. True), tb_single_cert = (\<lambda>certs key. True),
      tb_handshake = (\<lambda>config name stream.
         case (cc_versions config, cc_suites config) of
           (v # _, c # _) \<Rightarrow> Some \<lparr>ts_version = v, ts_suite = c,
               ts_alpn = (case cc_alpn config of [] \<Rightarrow> None | p # _ \<Rightarrow> Some p),
               ts_verified = (case cc_verifier config of RootsOf roots \<Rightarrow> Some roots | NoCertificateVerification \<Rightarrow> None)\<rparr>
         | _ \<Rightarrow> None)\<rparr>"

definition tls_scenario_example :: scenario where
  "tls_scenario_example = (scenario_default 0 1)\<lparr>sc_protocol := Http2, sc_tls := tls_profile_default
     \<lparr>tls_enabled := True, tls_verify_peer := True, tls_cipher_suite := Some ''TLS13_AES_128_GCM_SHA256'', tls_ca_pem := Some ''ca'',
      tls_server_cert_pem := Some ''cert'', tls_server_key_pem := Some ''key''\<rparr>\<rparr>"


end
