(* ===== verification/Certificates.thy ===== *)
theory Certificates
  imports Control_Api Agent_Tls
begin

text \<open>
  The certificates the control plane makes for a test server (\<open>generate_tls_certificate\<close> in
  \<open>crates/control/src/main.rs\<close>): a local CA and a server certificate that it signs. The certificate library is a
  parameter. The lemmas tie them to the agents: a scenario that takes them is TLS material the agents can use.
\<close>

section \<open>Making certificates\<close>

text \<open>Times are in seconds.\<close>

record certificate_params =
  cp_names :: "string list"
  cp_is_ca :: bool
  cp_not_before :: int
  cp_not_after :: int
  cp_common_name :: string

text \<open>
  Which names a certificate may have, the n-th key pair if it can be generated, a certificate signed by itself or
  by another, and the PEM texts.
\<close>

record ('c, 'k) certificate_library =
  cl_names_ok :: "string list \<Rightarrow> bool"
  cl_generate :: "nat \<Rightarrow> 'k option"
  cl_self_signed :: "certificate_params \<Rightarrow> 'k \<Rightarrow> 'c option"
  cl_signed_by :: "certificate_params \<Rightarrow> 'k \<Rightarrow> 'c \<Rightarrow> 'k \<Rightarrow> 'c option"
  cl_pem :: "'c \<Rightarrow> string"
  cl_key_pem :: "'k \<Rightarrow> string"
  cl_now :: "nat \<Rightarrow> int"

datatype certificate_error = ServerNameUnusable | NamesRejected | LibraryFailed

record generated_certificates =
  gc_ca_pem :: string
  gc_server_cert_pem :: string
  gc_server_key_pem :: string
  gc_validity_days :: int

definition thirty_days :: "('c, 'k) certificate_library \<Rightarrow> nat \<Rightarrow> certificate_params \<Rightarrow> certificate_params" where
  "thirty_days lib n params =
     params\<lparr>cp_not_before := cl_now lib n - 5 * 60, cp_not_after := cl_now lib (Suc n) + 30 * 24 * 60 * 60\<rparr>"

definition ca_params :: "('c, 'k) certificate_library \<Rightarrow> certificate_params" where
  "ca_params lib = thirty_days lib 0
     \<lparr>cp_names = [], cp_is_ca = True, cp_not_before = 0, cp_not_after = 0, cp_common_name = ''Proxy Tester Local CA''\<rparr>"

definition server_params :: "('c, 'k) certificate_library \<Rightarrow> string \<Rightarrow> certificate_params" where
  "server_params lib name = thirty_days lib 2
     \<lparr>cp_names = [name], cp_is_ca = False, cp_not_before = 0, cp_not_after = 0, cp_common_name = name\<rparr>"

definition generate_tls_certificate :: "('c, 'k) certificate_library \<Rightarrow> string \<Rightarrow> certificate_error + generated_certificates" where
  "generate_tls_certificate lib requested =
     (let server_name = str_trim requested
      in if server_name = [] \<or> 253 < length server_name then Inl ServerNameUnusable
         else if \<not> cl_names_ok lib [] then Inl LibraryFailed
         else bind_res (ok_or LibraryFailed (cl_generate lib 0)) (\<lambda>ca_key.
              bind_res (ok_or LibraryFailed (cl_self_signed lib (ca_params lib) ca_key)) (\<lambda>ca.
              if \<not> cl_names_ok lib [server_name] then Inl NamesRejected
              else bind_res (ok_or LibraryFailed (cl_generate lib 1)) (\<lambda>server_key.
                   bind_res (ok_or LibraryFailed (cl_signed_by lib (server_params lib server_name) server_key ca ca_key)) (\<lambda>server.
                     Inr \<lparr>gc_ca_pem = cl_pem lib ca, gc_server_cert_pem = cl_pem lib server,
                          gc_server_key_pem = cl_key_pem lib server_key, gc_validity_days = 30\<rparr>)))))"

section \<open>What they are good for\<close>

text \<open>A profile that takes the certificates for the name they were made for, and verifies its peer.\<close>

definition with_certificates :: "string \<Rightarrow> generated_certificates \<Rightarrow> tls_profile \<Rightarrow> tls_profile" where
  "with_certificates name g t =
     t\<lparr>tls_enabled := True, tls_verify_peer := True, tls_server_name := name, tls_ca_pem := Some (gc_ca_pem g),
       tls_server_cert_pem := Some (gc_server_cert_pem g), tls_server_key_pem := Some (gc_server_key_pem g)\<rparr>"

text \<open>
  The certificates made for a name pass the validation of a scenario that uses them, as long as PEM texts are
  not empty; the server's was signed by the CA that is handed out with it, is valid for no other name and is no CA itself.
\<close>

theorem generated_certificates_usable:
  assumes "generate_tls_certificate lib name = Inr g" and "\<forall>c. cl_pem lib c \<noteq> []" "\<forall>k. cl_key_pem lib k \<noteq> []"
    and "cipher_is_compatible t"
  shows "tls_usable (with_certificates name g t)
    \<and> (\<exists>ca ca_key server server_key params. gc_ca_pem g = cl_pem lib ca \<and> gc_server_cert_pem g = cl_pem lib server
        \<and> gc_server_key_pem g = cl_key_pem lib server_key \<and> cl_signed_by lib params server_key ca ca_key = Some server
        \<and> cp_names params = [str_trim name] \<and> \<not> cp_is_ca params)"
proof -
  have name: "str_trim name \<noteq> []" using assms(1) by (auto simp: generate_tls_certificate_def Let_def split: if_splits)
  from assms(1) obtain ca ca_key server server_key where made:
    "cl_signed_by lib (server_params lib (str_trim name)) server_key ca ca_key = Some server"
    "gc_ca_pem g = cl_pem lib ca" "gc_server_cert_pem g = cl_pem lib server" "gc_server_key_pem g = cl_key_pem lib server_key"
    by (auto simp: generate_tls_certificate_def Let_def split: if_splits)
  have "tls_usable (with_certificates name g t)"
    using assms(2-4) name made(2-4) by (simp add: tls_usable_def with_certificates_def cipher_is_compatible_def cong: option.case_cong)
  moreover have "cp_names (server_params lib (str_trim name)) = [str_trim name]" "\<not> cp_is_ca (server_params lib (str_trim name))"
    by (simp_all add: server_params_def thirty_days_def)
  ultimately show ?thesis using made by blast
qed

end
