(* ===== verification/Database_Open.thy ===== *)
theory Database_Open
  imports Control_Api
begin

text \<open>
  Which database the control plane opens (\<open>open_database\<close>, \<open>schema_fallback_url\<close> and the version check of
  \<open>migrate\<close> in \<open>crates/control/src/database.rs\<close>): the one configured, or, when that holds data of another
  schema, one beside it for this schema. Paths are those of the standard library on Unix, as bytes; what a
  database holds is a parameter.
\<close>

section \<open>Paths\<close>

text \<open>
  The root or the leading current directory of a path is not part of its body; of the body's segments, empty ones and
  \<open>.\<close> do not count at the end.
\<close>

definition before_body :: "string \<Rightarrow> nat" where
  "before_body p = (if starts_with p ''/'' \<or> p = ''.'' \<or> starts_with p ''./'' then 1 else 0)"

definition trim_segments :: "string list \<Rightarrow> string list" where
  "trim_segments segs = rev (dropWhile (\<lambda>s. s = [] \<or> s = ''.'') (rev segs))"

definition body_segments :: "string \<Rightarrow> string list" where
  "body_segments p = trim_segments (split_by ((=) CHR ''/'') (drop (before_body p) p))"

fun join_segments :: "string list \<Rightarrow> string" where
  "join_segments [] = []"
| "join_segments [s] = s"
| "join_segments (s # rest) = s @ ''/'' @ join_segments rest"

definition file_name :: "string \<Rightarrow> string option" where
  "file_name p =
     (case rev (body_segments p) of
        [] \<Rightarrow> None
      | s # _ \<Rightarrow> if s = ''..'' then None else Some s)"

text \<open>A name is split at its last dot, unless that is its first character.\<close>

definition split_file_name :: "string \<Rightarrow> string \<times> string option" where
  "split_file_name name =
     (case rsplit_once CHR ''.'' name of
        None \<Rightarrow> (name, None)
      | Some (stem, extension) \<Rightarrow> if stem = [] then (name, None) else (stem, Some extension))"

definition file_stem :: "string \<Rightarrow> string option" where
  "file_stem p = map_option (fst \<circ> split_file_name) (file_name p)"

definition path_extension :: "string \<Rightarrow> string option" where
  "path_extension p = Option.bind (file_name p) (snd \<circ> split_file_name)"

definition path_parent :: "string \<Rightarrow> string" where
  "path_parent p = take (before_body p) p @ join_segments (trim_segments (butlast (body_segments p)))"

text \<open>For a path with a file name.\<close>

definition with_file_name :: "string \<Rightarrow> string \<Rightarrow> string" where
  "with_file_name p name =
     (let parent = path_parent p
      in if parent = [] \<or> last parent = CHR ''/'' then parent @ name else parent @ ''/'' @ name)"

section \<open>The database of this schema\<close>

datatype open_error = ConnectFailed string | QueryFailed string | NotSqlite | InMemoryDatabase | InvalidFilename | UnsupportedVersion int

definition strip_prefix :: "string \<Rightarrow> string \<Rightarrow> string option" where
  "strip_prefix s start = (if starts_with s start then Some (drop (length start) s) else None)"

definition fallback_path :: "string \<Rightarrow> open_error + string" where
  "fallback_path path =
     (if path = '':memory:'' \<or> path = [] then Inl InMemoryDatabase
      else bind_res (ok_or InvalidFilename (file_stem path)) (\<lambda>stem.
        let extension = (case path_extension path of None \<Rightarrow> ''db'' | Some e \<Rightarrow> e)
        in Inr (with_file_name path (stem @ ''.schema-4.'' @ extension))))"

definition schema_fallback_url :: "string \<Rightarrow> open_error + string" where
  "schema_fallback_url url =
     (let (before, suffix) = (case split_once CHR ''?'' url of None \<Rightarrow> (url, []) | Some x \<Rightarrow> x)
      in bind_res (ok_or NotSqlite (strip_prefix before ''sqlite://'')) (\<lambda>path.
         bind_res (fallback_path path) (\<lambda>fallback.
           Inr (''sqlite://'' @ map (\<lambda>c. if c = CHR 0x5C then CHR ''/'' else c) fallback
                @ (if suffix = [] then [] else ''?'' @ suffix)))))"

section \<open>Opening\<close>

text \<open>
  What is behind a URL: whether it can be opened, whether it has the table of the schema's version, whether it has tables
  of the application, and the version if it has one; None is a query that fails.
\<close>

record databases =
  da_connects :: "string \<Rightarrow> bool"
  da_schema_exists :: "string \<Rightarrow> bool option"
  da_has_tables :: "string \<Rightarrow> bool option"
  da_version :: "string \<Rightarrow> int option option"

definition stored_version :: "databases \<Rightarrow> string \<Rightarrow> bool \<Rightarrow> open_error + int option" where
  "stored_version da url schema_exists = (if schema_exists then ok_or (QueryFailed url) (da_version da url) else Inr None)"

text \<open>The URL opened, and whether it is not the one configured.\<close>

definition open_database :: "databases \<Rightarrow> string \<Rightarrow> open_error + string \<times> bool" where
  "open_database da configured =
     (if \<not> da_connects da configured then Inl (ConnectFailed configured)
      else bind_res (ok_or (QueryFailed configured) (da_schema_exists da configured)) (\<lambda>schema_exists.
           bind_res (ok_or (QueryFailed configured) (da_has_tables da configured)) (\<lambda>has_tables.
           bind_res (stored_version da configured schema_exists) (\<lambda>version.
             if use_configured_database schema_exists has_tables version then Inr (configured, False)
             else bind_res (schema_fallback_url configured) (\<lambda>fallback.
               if da_connects da fallback then Inr (fallback, True) else Inl (ConnectFailed fallback))))))"

text \<open>The check before any statement of the schema is run on the database that was opened.\<close>

definition check_version :: "databases \<Rightarrow> string \<Rightarrow> open_error + unit" where
  "check_version da url =
     bind_res (ok_or (QueryFailed url) (da_schema_exists da url)) (\<lambda>schema_exists.
     bind_res (stored_version da url schema_exists) (\<lambda>version.
       if version_supported version then Inr () else Inl (UnsupportedVersion (the version))))"

section \<open>Foreign data stays as it is\<close>

lemma fallback_examples:
  "schema_fallback_url ''sqlite://data/app.db?mode=rwc'' = Inr ''sqlite://data/app.schema-4.db?mode=rwc''"
  "schema_fallback_url ''sqlite:///var//lib/./app'' = Inr ''sqlite:///var//lib/app.schema-4.db''"
  "schema_fallback_url ''sqlite://./.hidden'' = Inr ''sqlite://./.hidden.schema-4.db''"
  "schema_fallback_url ''sqlite://:memory:'' = Inl InMemoryDatabase"
  "schema_fallback_url ''sqlite://a/..'' = Inl InvalidFilename"
  "schema_fallback_url ''postgres://a'' = Inl NotSqlite"
  by code_simp+

text \<open>
  The database that is opened is the one configured exactly when it is of this schema or has no table of the
  application; otherwise it is the one of the fallback URL, whose schema is then checked, so data of another schema are not touched.
\<close>

theorem foreign_data_preserved:
  assumes "open_database da configured = Inr (url, other)" and "check_version da url = Inr ()"
  shows "(other \<longleftrightarrow> \<not> (da_version da configured = Some (Some 4) \<and> da_schema_exists da configured = Some True
       \<or> da_schema_exists da configured = Some False \<and> da_has_tables da configured = Some False))
    \<and> (\<not> other \<longrightarrow> url = configured) \<and> (other \<longrightarrow> schema_fallback_url configured = Inr url)
    \<and> (da_schema_exists da url = Some True \<longrightarrow> da_version da url \<in> {Some None, Some (Some 4)})"
proof (intro conjI)
  show "\<not> other \<longrightarrow> url = configured" "other \<longrightarrow> schema_fallback_url configured = Inr url"
    using assms(1) by (auto simp: open_database_def split: if_splits)
  show "da_schema_exists da url = Some True \<longrightarrow> da_version da url \<in> {Some None, Some (Some 4)}"
    using assms(2) by (auto simp: check_version_def stored_version_def version_supported_def split: option.splits if_splits)
      (metis option.exhaust)
  show "other \<longleftrightarrow> \<not> (da_version da configured = Some (Some 4) \<and> da_schema_exists da configured = Some True
       \<or> da_schema_exists da configured = Some False \<and> da_has_tables da configured = Some False)"
    using assms(1) by (auto simp: open_database_def stored_version_def use_configured_database_def split: if_splits)
qed

end
