(* ===== verification/Agent_Inventory_Facts.thy ===== *)
theory Agent_Inventory_Facts
  imports Agent_Inventory Agent_Journal
begin

text \<open>
  The fingerprint of an inventory and the plans made on it: what the fingerprint does not cover (the
  addresses that are not IPv4) is not of consequence for a plan, but for its warnings, so that a plan
  applied under an unchanged fingerprint is the plan that would be made when it is applied.
\<close>

section \<open>The fingerprint covers what it should\<close>

definition ipv4_only :: "interface_inventory \<Rightarrow> interface_inventory" where
  "ipv4_only i = i\<lparr>ii_addresses := filter address_is_ipv4 (ii_addresses i)\<rparr>"

lemma fingerprint_interfaces_map: "fingerprint_interfaces = map ipv4_only"
  by (simp add: fun_eq_iff fingerprint_interfaces_def ipv4_only_def)

lemma ipv4_only_simps [simp]:
  "ii_name (ipv4_only i) = ii_name i" "ii_kind (ipv4_only i) = ii_kind i" "ii_mtu (ipv4_only i) = ii_mtu i"
  "ii_master (ipv4_only i) = ii_master i" "ii_link_up (ipv4_only i) = ii_link_up i"
  "ii_offloads (ipv4_only i) = ii_offloads i" "ii_addresses (ipv4_only i) = filter address_is_ipv4 (ii_addresses i)"
  by (simp_all add: ipv4_only_def)

lemma map_of_entries:
  "distinct ks \<Longrightarrow> map_of (List.map_filter (\<lambda>k. map_option (Pair k) (m k)) ks) k = (if k \<in> set ks then m k else None)"
  by (induction ks) (auto simp: List.map_filter_simps split: option.split)

lemma offload_entries_determine:
  assumes "offload_entries (ii_offloads i) = offload_entries (ii_offloads j)" and "known_offloads i" "known_offloads j"
  shows "ii_offloads i = ii_offloads j"
proof
  fix k
  let ?K = "[''gro'', ''gso'', ''lro'', ''rx'', ''tso'', ''tx'']"
  have "distinct ?K" by simp
  then have "k \<in> set ?K \<Longrightarrow> ii_offloads i k = ii_offloads j k"
    using arg_cong [OF assms(1), of "\<lambda>es. map_of es k"] unfolding offload_entries_def by (simp only: map_of_entries if_True)
  moreover have "k \<notin> set ?K \<Longrightarrow> ii_offloads i k = None \<and> ii_offloads j k = None"
    using assms(2,3) unfolding known_offloads_def by auto
  ultimately show "ii_offloads i k = ii_offloads j k" by metis
qed

lemma optional_inj: "(\<And>x y. f x = f y \<Longrightarrow> x = y) \<Longrightarrow> (\<And>x. f x \<noteq> JNull) \<Longrightarrow> optional f a = optional f b \<Longrightarrow> a = b"
  by (cases a; cases b) (auto simp: optional_def, metis)

lemma json_strings_inj: "json_strings xs = json_strings ys \<Longrightarrow> xs = ys"
  by (simp add: json_strings_def inj_map_eq_map inj_def)

lemma flags_inj: "flags_to_json e m = flags_to_json e n \<Longrightarrow> e m = e n"
  by (auto simp: flags_to_json_def inj_map_eq_map inj_def)

lemma interface_json_determines:
  assumes "interface_to_json offload_entries i = interface_to_json offload_entries j" and "known_offloads i" "known_offloads j"
  shows "i = j"
proof -
  have "ii_name i = ii_name j" "ii_link_up i = ii_link_up j"
    "optional JString (ii_kind i) = optional JString (ii_kind j)" "optional JString (ii_mac i) = optional JString (ii_mac j)"
    "optional JString (ii_state i) = optional JString (ii_state j)" "optional JString (ii_master i) = optional JString (ii_master j)"
    "optional (\<lambda>n. JNumber (uint n)) (ii_mtu i) = optional (\<lambda>n. JNumber (uint n)) (ii_mtu j)"
    "json_strings (ii_addresses i) = json_strings (ii_addresses j)"
    "flags_to_json offload_entries (ii_offloads i) = flags_to_json offload_entries (ii_offloads j)"
    using assms(1) by (simp_all add: interface_to_json_def)
  moreover have "JNumber (uint m) = JNumber (uint n) \<Longrightarrow> m = n" for m n :: u32
    by (simp add: word_uint_eq_iff)
  ultimately show ?thesis
    using offload_entries_determine [OF flags_inj assms(2,3)]
    by (intro interface_inventory.equality) (auto dest: json_strings_inj optional_inj [rotated 2])
qed

lemma canonical_determines:
  assumes "canonical ifs ps = canonical jfs qs" and "\<forall>i\<in>set ifs. known_offloads i" "\<forall>i\<in>set jfs. known_offloads i"
  shows "map ipv4_only ifs = map ipv4_only jfs" and "ps = qs"
proof -
  have "map (interface_to_json offload_entries) (map ipv4_only ifs) = map (interface_to_json offload_entries) (map ipv4_only jfs)"
    using assms(1) by (simp add: canonical_def fingerprint_interfaces_map)
  moreover have "known_offloads i \<Longrightarrow> known_offloads (ipv4_only i)" for i by (simp add: known_offloads_def)
  then have "inj_on (interface_to_json offload_entries) (set (map ipv4_only ifs) \<union> set (map ipv4_only jfs))"
    using assms(2,3) by (auto intro!: inj_onI dest!: interface_json_determines)
  ultimately show "map ipv4_only ifs = map ipv4_only jfs" using inj_on_map_eq_map by blast
  show "ps = qs" using assms(1) by (auto simp: canonical_def dest: json_strings_inj)
qed

section \<open>Plans do not depend on the rest\<close>

definition reduced :: "node_inventory \<Rightarrow> node_inventory" where
  "reduced nv = nv\<lparr>ni_interfaces := map ipv4_only (ni_interfaces nv)\<rparr>"

lemma address_host_part: "address_host a = host_part a"
  by (induction a) (auto simp: address_host_def host_part_def split_once_def split: option.splits list.split)

lemma find_map_list: "find P (map f xs) = map_option f (find (\<lambda>x. P (f x)) xs)"
  by (induction xs) simp_all

lemma endpoint_interface_reduced:
  "endpoint_interface (reduced nv) e = map_sum id (\<lambda>(current, addresses). (ipv4_only current, addresses)) (endpoint_interface nv e)"
  by (auto simp: endpoint_interface_def reduced_def find_map_list Let_def split: option.split sum.split)

lemma pool_addresses_ipv4: "expand_pool e = Inr as \<Longrightarrow> a \<in> set as \<Longrightarrow> address_is_ipv4 a"
  by (auto simp: expand_pool_def address_is_ipv4_def host_part_cidr [simplified] split: option.splits)

lemma endpoint_interface_pool: "endpoint_interface nv e = Inr (current, as) \<Longrightarrow> expand_pool e = Inr as"
  by (auto simp: endpoint_interface_def Let_def split: if_splits option.splits sum.splits)

lemma operator_missing_ipv4_only:
  assumes "\<forall>a\<in>set as. address_is_ipv4 a"
  shows "operator_missing (ipv4_only i) as = operator_missing i as"
  unfolding operator_missing_def
proof (rule filter_cong [OF refl])
  fix a assume "a \<in> set as"
  with assms have "address_is_ipv4 c" if "address_host c = address_host a" for c
    using that unfolding address_host_part address_is_ipv4_def by (metis (no_types))
  then show "(\<not> (\<exists>c\<in>set (ii_addresses (ipv4_only i)). address_host c = address_host a)) \<longleftrightarrow>
      (\<not> (\<exists>c\<in>set (ii_addresses i). address_host c = address_host a))" by auto
qed

lemma managed_check_ipv4_only: "managed_check d e (ipv4_only i) = managed_check d e i"
proof -
  have "(\<exists>a\<in>set (ii_addresses (ipv4_only i)). address_is_ipv4 a) \<longleftrightarrow> (\<exists>a\<in>set (ii_addresses i). address_is_ipv4 a)" by auto
  then show ?thesis unfolding managed_check_def ipv4_only_simps(1-6) by simp
qed

definition quiet_part :: "plan_part \<Rightarrow> plan_part" where "quiet_part p = p\<lparr>pt_warnings := []\<rparr>"
definition quiet_plan :: "network_plan \<Rightarrow> network_plan" where "quiet_plan p = p\<lparr>nl_warnings := []\<rparr>"

lemma managed_part_reduced:
  "map_sum id quiet_part (managed_part node revision role d (reduced nv) e (ipv4_only i) as)
   = map_sum id quiet_part (managed_part node revision role d nv e i as)"
proof -
  have "has_capability (reduced nv) c = has_capability nv c" for c by (simp add: has_capability_def reduced_def)
  moreover have "restore_commands ns (ipv4_only i) ifc as = restore_commands ns i ifc as" for ns ifc
    unfolding restore_commands_def ipv4_only_simps(1-6) ..
  ultimately show ?thesis
    by (simp add: managed_part_def managed_check_ipv4_only quiet_part_def Let_def split: option.split)
qed

lemma plan_endpoint_reduced:
  "map_sum id (map_option quiet_part) (plan_endpoint node revision d (reduced nv) x)
   = map_sum id (map_option quiet_part) (plan_endpoint node revision d nv x)"
proof (cases x)
  case (Pair role e)
  show ?thesis
  proof (cases "endpoint_interface nv e")
    case (Inl err)
    then show ?thesis by (simp add: Pair plan_endpoint_def endpoint_interface_reduced Let_def)
  next
    case (Inr found)
    obtain i as where f: "found = (i, as)" by (cases found)
    have "\<forall>a\<in>set as. address_is_ipv4 a"
      using pool_addresses_ipv4 [OF endpoint_interface_pool] Inr f by blast
    then have "operator_part role e (ipv4_only i) as = operator_part role e i as"
      by (simp add: operator_part_def operator_missing_ipv4_only)
    moreover have "map_sum id (map_option quiet_part) (bind_res m (\<lambda>p. Inr (Some p))) = bind_res (map_sum id quiet_part m) (\<lambda>p. Inr (Some p))"
      for m :: "plan_error + plan_part" by (cases m) simp_all
    ultimately show ?thesis
      using managed_part_reduced [of node revision role d nv e i as]
      by (simp add: Pair plan_endpoint_def endpoint_interface_reduced Inr f Let_def)
  qed
qed

lemma plan_endpoints_reduced:
  "map_sum id (map quiet_part) (plan_endpoints node revision d (reduced nv) xs)
   = map_sum id (map quiet_part) (plan_endpoints node revision d nv xs)"
proof (induction xs)
  case (Cons x xs)
  then show ?case using plan_endpoint_reduced [of node revision d nv x]
    by (cases "plan_endpoint node revision d (reduced nv) x"; cases "plan_endpoint node revision d nv x";
        cases "plan_endpoints node revision d (reduced nv) xs"; cases "plan_endpoints node revision d nv xs")
      (auto split: option.splits simp: map_option_case)
qed simp

lemma plan_reduced:
  "map_sum id quiet_plan (network_plan_for node revision d (reduced nv)) = map_sum id quiet_plan (network_plan_for node revision d nv)"
proof -
  let ?xs = "[(''client'', np_client_endpoint d), (''server'', np_server_endpoint d)]"
  have quiet: "map f ps = map f qs" if "map quiet_part ps = map quiet_part qs" and "\<And>p. f (quiet_part p) = f p"
    for f :: "plan_part \<Rightarrow> 'b" and ps qs
    using arg_cong [OF that(1), of "map f"] that(2) by (simp add: comp_def)
  have "has_capability (reduced nv) c = has_capability nv c" "ni_fingerprint (reduced nv) = ni_fingerprint nv" for c
    by (simp_all add: has_capability_def reduced_def)
  then show ?thesis
    using plan_endpoints_reduced [of node revision d nv ?xs]
    by (cases "plan_endpoints node revision d (reduced nv) ?xs"; cases "plan_endpoints node revision d nv ?xs")
      (auto simp: network_plan_for_def quiet_plan_def quiet_part_def intro!: quiet arg_cong [of _ _ concat])
qed

section \<open>An unchanged fingerprint\<close>

definition collected_canonical :: "collector \<Rightarrow> json" where
  "collected_canonical co = canonical (node_interfaces co) (protected_interfaces co)"

text \<open>Two collections whose canonical forms do not collide.\<close>

definition no_collision :: "collector \<Rightarrow> collector \<Rightarrow> bool" where
  "no_collision a b \<longleftrightarrow>
     (co_sha256 a (co_print a (collected_canonical a)) = co_sha256 b (co_print b (collected_canonical b))
        \<longrightarrow> collected_canonical a = collected_canonical b)"

lemma same_fingerprint:
  assumes "ni_fingerprint (inventory a) = ni_fingerprint (inventory b)" and "no_collision a b"
  shows "map ipv4_only (node_interfaces a) = map ipv4_only (node_interfaces b)" and "protected_interfaces a = protected_interfaces b"
proof -
  have "canonical (node_interfaces a) (protected_interfaces a) = canonical (node_interfaces b) (protected_interfaces b)"
    using assms by (simp add: inventory_def fingerprint_of_def no_collision_def collected_canonical_def)
  from canonical_determines [OF this inventory_known inventory_known]
  show "map ipv4_only (node_interfaces a) = map ipv4_only (node_interfaces b)" and "protected_interfaces a = protected_interfaces b"
    by this
qed

lemma same_fingerprint_same_plan:
  assumes "ni_fingerprint (inventory a) = ni_fingerprint (inventory b)" and "no_collision a b"
    and "node_capabilities a = node_capabilities b"
  shows "map_sum id quiet_plan (network_plan_for node revision d (inventory a))
       = map_sum id quiet_plan (network_plan_for node revision d (inventory b))"
proof -
  have "reduced (inventory a) = reduced (inventory b)"
    using same_fingerprint [OF assms(1,2)] assms(1,3) by (simp add: reduced_def inventory_def)
  then show ?thesis using plan_reduced by metis
qed

text \<open>
  C18. A plan that is applied is the plan that would be made now. When the agent applies a plan made on an
  earlier inventory and does not refuse it as stale, the inventory taken now gives the same plan but for its warnings
  (IPv6 addresses may have come and gone), as long as the same tools are there and the two canonical forms do
  not collide under SHA-256. In particular none of the interfaces the plan moves is that of a default route, IPv4 or
  IPv6, of the host as it is now.
\<close>

theorem applied_plan_is_current:
  assumes "network_plan_for node revision d (inventory earlier) = Inr plan"
    and "network_apply sys (Some (ni_fingerprint (inventory now))) operation plan lease h = (outcome, h')"
    and "outcome \<noteq> Some InventoryChanged"
    and "no_collision now earlier" and "node_capabilities now = node_capabilities earlier"
  shows "(\<exists>current. network_plan_for node revision d (inventory now) = Inr current
      \<and> nl_commands current = nl_commands plan \<and> nl_rollback_commands current = nl_rollback_commands plan
      \<and> nl_endpoints current = nl_endpoints plan)
    \<and> (\<forall>el\<in>set (nl_endpoints plan). \<forall>family\<in>{''-4'', ''-6''}. \<forall>route\<in>set (output_array now ''ip'' (default_routes family)).
         as_str (json_get route ''dev'') \<noteq> Some (el_interface el))"
proof -
  obtain parts where parts: "nl_endpoints plan = map pt_endpoint parts"
    "\<forall>p\<in>set parts. part_ok revision d (inventory earlier) p" "nl_inventory_fingerprint plan = ni_fingerprint (inventory earlier)"
    using network_plan_for_parts [OF assms(1)] .
  have same: "ni_fingerprint (inventory now) = ni_fingerprint (inventory earlier)"
    using assms(2,3) parts(3) unfolding network_apply_def by (auto split: if_splits)
  have "map_sum id quiet_plan (network_plan_for node revision d (inventory now)) = Inr (quiet_plan plan)"
    using same_fingerprint_same_plan [OF same assms(4,5)] assms(1) by simp
  then obtain current where now: "network_plan_for node revision d (inventory now) = Inr current" "quiet_plan current = quiet_plan plan"
    by (cases "network_plan_for node revision d (inventory now)") auto
  have "nl_commands current = nl_commands plan" "nl_rollback_commands current = nl_rollback_commands plan"
    "nl_endpoints current = nl_endpoints plan"
    using arg_cong [OF now(2), of nl_commands] arg_cong [OF now(2), of nl_rollback_commands] arg_cong [OF now(2), of nl_endpoints]
    by (simp_all add: quiet_plan_def)
  moreover have "el_interface el \<notin> set (protected_interfaces now)" if "el \<in> set (nl_endpoints plan)" for el
  proof -
    from that parts(1,2) obtain p where "el = pt_endpoint p" "part_ok revision d (inventory earlier) p" by auto
    with part_endpoint_safe have "el_interface el \<notin> set (ni_protected_interfaces (inventory earlier))" by blast
    then show ?thesis using same_fingerprint(2) [OF same assms(4)] by (simp add: inventory_def)
  qed
  ultimately show ?thesis using now(1) unfolding mem_protected by blast
qed

text \<open>A host with two interfaces, one of them that of the default route, and two moments that differ in an IPv6 address.\<close>

definition collector_example :: "string \<Rightarrow> collector" where
  "collector_example address =
     \<lparr>co_output = (\<lambda>program args.
        if program = ''ip'' \<and> args = [''-d'', ''-j'', ''link'', ''show''] then Some ''links''
        else if program = ''ip'' \<and> args = [''-j'', ''address'', ''show''] then Some ''addresses''
        else if program = ''ip'' \<and> args = default_routes ''-4'' then Some ''routes'' else None),
      co_status = (\<lambda>program args. False),
      co_array = (\<lambda>raw.
        if raw = ''links'' then
          Some (map (\<lambda>name. JObject [(''ifname'', JString name), (''flags'', JArray [JString ''UP''])]) [''eth1'', ''eth0''])
        else if raw = ''addresses'' then
          Some [JObject [(''ifname'', JString ''eth1''),
                  (''addr_info'', JArray [JObject [(''local'', JString address), (''prefixlen'', JNumber 64)]])]]
        else if raw = ''routes'' then Some [JObject [(''dev'', JString ''eth0'')]] else None),
      co_print = (\<lambda>v. []), co_sha256 = (\<lambda>t. t)\<rparr>"

definition operator_example :: network_profile_draft where
  "operator_example = (network_profile_default 1)\<lparr>np_client_endpoint := \<lparr>ep_node_id = ''node-1'', ep_interface_name = ''eth1'',
     ep_start_cidr = ''10.20.0.10/24'', ep_count = 1\<rparr>, np_server_endpoint := \<lparr>ep_node_id = ''node-2'', ep_interface_name = ''eth2'',
     ep_start_cidr = ''10.20.0.100/24'', ep_count = 1\<rparr>\<rparr>"

lemma example_apply_not_stale:
  assumes "network_apply example_system (Some (nl_inventory_fingerprint plan)) operation plan lease h = (outcome, h')"
  shows "outcome \<noteq> Some InventoryChanged"
proof -
  have writes: "\<exists>h'. write_journal example_system j h = (None, h')" for j h
    by (simp add: write_journal_def example_system_def Let_def)
  have "fst (apply_commands example_system cs j h) = None" for cs j h
    by (induction cs arbitrary: j h) (simp_all add: execute_def run_command_def write_journal_def example_system_def Let_def)
  then have applies: "\<exists>j' h'. apply_commands example_system cs j h = (None, j', h')" for cs j h by (metis prod.collapse)
  define j where "j = \<lparr>nj_operation_id = operation, nj_profile_revision_id = nl_profile_revision_id plan,
      nj_phase = ''applying'', nj_lease_expires_unix_ms = lease,
      nj_rollback_commands = nl_rollback_commands plan, nj_completed_commands = 0\<rparr>"
  obtain h1 where h1: "write_journal example_system j h = (None, h1)" using writes by blast
  obtain j2 h2 where h2: "apply_commands example_system (nl_commands plan) j h1 = (None, j2, h2)" using applies by blast
  obtain h3 where h3: "write_journal example_system (j2\<lparr>nj_phase := ''staged''\<rparr>) h2 = (None, h3)" using writes by blast
  from assms show ?thesis unfolding network_apply_def j_def [symmetric] by (simp add: h1 h2 h3 Let_def)
qed

lemma inventory_fingerprint: "ni_fingerprint (inventory co) = co_sha256 co (co_print co (collected_canonical co))"
  by (simp add: inventory_def fingerprint_of_def collected_canonical_def)

theorem applied_plan_is_current_witness:
  "\<exists>plan current. network_plan_for ''node-1'' ''0123456789'' operator_example (inventory (collector_example ''fe80::1'')) = Inr plan
     \<and> nl_commands plan \<noteq> [] \<and> node_interfaces (collector_example ''fe80::2'') \<noteq> node_interfaces (collector_example ''fe80::1'')
     \<and> network_plan_for ''node-1'' ''0123456789'' operator_example (inventory (collector_example ''fe80::2'')) = Inr current
     \<and> nl_commands current = nl_commands plan"
proof -
  let ?a = "collector_example ''fe80::1''" and ?b = "collector_example ''fe80::2''"
  let ?r = "network_plan_for ''node-1'' ''0123456789'' operator_example (inventory ?a)"
  have "case ?r of Inl _ \<Rightarrow> False | Inr plan \<Rightarrow> nl_commands plan \<noteq> []" by code_simp
  then obtain plan where plan: "?r = Inr plan" "nl_commands plan \<noteq> []" by (cases ?r) simp_all
  have same: "collected_canonical ?b = collected_canonical ?a" by code_simp
  have "node_capabilities ?b = node_capabilities ?a" by (simp add: node_capabilities_def collector_example_def)
  moreover have "no_collision ?b ?a" using same by (simp add: no_collision_def)
  moreover have "ni_fingerprint (inventory ?b) = nl_inventory_fingerprint plan"
  proof -
    have "nl_inventory_fingerprint plan = ni_fingerprint (inventory ?a)" using network_plan_for_parts [OF plan(1)] by blast
    then show ?thesis unfolding inventory_fingerprint same by (simp add: collector_example_def)
  qed
  moreover obtain outcome h' where run: "network_apply example_system (Some (ni_fingerprint (inventory ?b))) ''op'' plan 0 example_host = (outcome, h')"
    by (cases "network_apply example_system (Some (ni_fingerprint (inventory ?b))) ''op'' plan 0 example_host")
  ultimately have "\<exists>current. network_plan_for ''node-1'' ''0123456789'' operator_example (inventory ?b) = Inr current
      \<and> nl_commands current = nl_commands plan"
    using applied_plan_is_current [OF plan(1) run, THEN conjunct1] example_apply_not_stale [of plan] run by auto
  moreover have "map ii_addresses (node_interfaces ?b) \<noteq> map ii_addresses (node_interfaces ?a)" by code_simp
  ultimately show ?thesis using plan by metis
qed

end
