(* ===== verification/Agent_Worker.thy ===== *)
theory Agent_Worker
  imports Agent_Session
begin

text \<open>
  What a worker of the agent does from its start to its last message (\<open>run_job\<close>, \<open>run_job_isolated\<close>,
  \<open>random_payload_hashes\<close> and the task spawned for a start message in \<open>crates/agent/src/main.rs\<close>), as the
  list of its effects in order. The result of the workload and whether a namespace can be entered are
  parameters. The session sees a worker as one that clears its flag and reports once; the lemmas show that it does.
\<close>

section \<open>Effects\<close>

text \<open>
  Waiting some milliseconds, entering a namespace, starting the monitor of interfaces and the reporter of metrics, the
  workload itself, clearing the flag, waiting for the two tasks, and sending a message.
\<close>

datatype worker_effect =
    Wait int | EnterNamespace string | MonitorInterfaces "string list" | ReportMetrics "string option \<times> string option"
  | RunEndpoint role | ClearRunning | JoinMetrics | JoinMonitor | Send agent_message

text \<open>
  Why a namespace cannot be entered, if it cannot; the error of the workload, if any; and the
  error of sending on a stream that is gone, if it is.
\<close>

record worker_world =
  wh_enter :: "string \<Rightarrow> string option"
  wh_workload :: "string option"
  wh_closed :: "string option"

definition observation_interfaces :: "scenario \<Rightarrow> string list" where
  "observation_interfaces s =
     (case sc_runtime_interface s of Some interface \<Rightarrow> [interface] | None \<Rightarrow> sc_observation_interfaces s)"

definition random_payload_hashes :: "(bytes \<Rightarrow> string) \<Rightarrow> scenario \<Rightarrow> prepared_payloads \<Rightarrow> role \<Rightarrow> string option \<times> string option" where
  "random_payload_hashes sha256 s payloads role =
     ((if role = ClientRole \<and> pp_kind (sc_request_payload s) = PkRandom then Some (sha256 (pr_request payloads)) else None),
      (if role = ServerRole \<and> pp_kind (sc_response_payload s) = PkRandom then Some (sha256 (pr_response payloads)) else None))"

text \<open>The effects of the run and its error, if any: also that its completion could not be sent.\<close>

definition run_job :: "('k, 'd) agent_env \<Rightarrow> worker_world \<Rightarrow> worker \<Rightarrow> worker_effect list \<times> string option" where
  "run_job env wh wk =
     (let s = pd_scenario (wk_job wk);
          monitored = observation_interfaces s
      in ((if monitored \<noteq> [] then [MonitorInterfaces monitored] else [])
          @ [ReportMetrics (random_payload_hashes (ae_sha256 env) s (pd_payloads (wk_job wk)) (wk_role wk)),
             RunEndpoint (wk_role wk), ClearRunning, JoinMetrics]
          @ (if monitored \<noteq> [] then [JoinMonitor] else [])
          @ (if wh_workload wh = None then [Wait 1200, Send (worker_event env wk None)] else []),
          if wh_workload wh = None then wh_closed wh else wh_workload wh))"

definition run_job_isolated :: "('k, 'd) agent_env \<Rightarrow> worker_world \<Rightarrow> worker \<Rightarrow> worker_effect list \<times> string option" where
  "run_job_isolated env wh wk =
     (case Option.bind (sc_runtime_namespace (pd_scenario (wk_job wk))) (\<lambda>ns. if ns = [] then None else Some ns) of
        None \<Rightarrow> run_job env wh wk
      | Some namespace \<Rightarrow>
          (case wh_enter wh (''/var/run/netns/'' @ namespace) of
             Some e \<Rightarrow> ([], Some e)
           | None \<Rightarrow>
               (let (effects, result) = run_job env wh wk
                in (EnterNamespace (''/var/run/netns/'' @ namespace) # effects, result))))"

text \<open>The task of a start message, at the time \<open>now\<close>.\<close>

definition worker_task :: "('k, 'd) agent_env \<Rightarrow> worker_world \<Rightarrow> int \<Rightarrow> worker \<Rightarrow> worker_effect list" where
  "worker_task env wh now wk =
     (let (effects, result) = run_job_isolated env wh wk
      in Wait (max 0 (wk_start_ms wk - now)) # effects
         @ (case result of None \<Rightarrow> [] | Some e \<Rightarrow> [Send (worker_event env wk (Some e))])
         @ [ClearRunning])"

section \<open>The last message\<close>

fun sends :: "worker_effect list \<Rightarrow> agent_message list" where
  "sends [] = []"
| "sends (Send m # rest) = m # sends rest"
| "sends (_ # rest) = sends rest"

lemma sends_append [simp]: "sends (xs @ ys) = sends xs @ sends ys"
  by (induction xs rule: sends.induct) simp_all

text \<open>The workload has a namespace that it runs in, or needs none.\<close>

definition isolated_run :: "worker \<Rightarrow> worker_effect list \<Rightarrow> bool" where
  "isolated_run wk effects \<longleftrightarrow>
     (\<forall>xs r ys. effects = xs @ RunEndpoint r # ys \<longrightarrow>
        r = wk_role wk \<and> ClearRunning \<in> set ys \<and> sends xs = []
        \<and> (\<forall>ns. sc_runtime_namespace (pd_scenario (wk_job wk)) = Some ns \<and> ns \<noteq> [] \<longrightarrow>
             EnterNamespace (''/var/run/netns/'' @ ns) \<in> set xs))"

lemma run_job_sends: "sends (fst (run_job env wh wk)) = (if wh_workload wh = None then [worker_event env wk None] else [])"
  by (simp add: run_job_def Let_def)

text \<open>
  On a stream that is open a worker reports once, as the session takes it: its completion, the error of its
  workload, or why it could not enter its namespace, in which case it never runs.
\<close>

theorem worker_reports_once:
  assumes "wh_closed wh = None"
  shows "\<exists>err. sends (worker_task env wh now wk) = [worker_event env wk err]
    \<and> (err = None \<longrightarrow> wh_workload wh = None \<and> RunEndpoint (wk_role wk) \<in> set (worker_task env wh now wk))"
proof -
  have runs: "RunEndpoint (wk_role wk) \<in> set (fst (run_job env wh wk))" by (simp add: run_job_def Let_def)
  have result: "snd (run_job env wh wk) = wh_workload wh" using assms by (simp add: run_job_def Let_def)
  obtain effects where job: "run_job env wh wk = (effects, wh_workload wh)" using result by (cases "run_job env wh wk") simp
  then have "sends effects = (if wh_workload wh = None then [worker_event env wk None] else [])" "RunEndpoint (wk_role wk) \<in> set effects"
    using run_job_sends [of env wh wk] runs by simp_all
  with job show ?thesis
    by (auto simp: worker_task_def run_job_isolated_def Let_def split: option.splits)
qed

theorem workload_isolated: "isolated_run wk (worker_task env wh now wk)"
  unfolding isolated_run_def
  by (auto simp: worker_task_def run_job_isolated_def run_job_def Let_def Cons_eq_append_conv append_eq_Cons_conv append_eq_append_conv2
      split: option.splits if_splits bind_splits)

end
