(* ===== verification/Spec2Isabelle.thy ===== *)
theory Spec2Isabelle
  imports Domain_Facts Agent_Journal Artifact Capture_Formats Telemetry_Facts Workload_Tcp Control_Facts Runtime_Plan
    Net_Orch_Facts Agent_Session_Facts Runner_Facts Launch_Agents
    Upload_Facts Run_Views_Facts Control_Api_Facts Table_Views Certificates Database_Open
    Agent_Inventory_Facts Agent_Tls Agent_Worker
begin

text \<open>
  A model of proxy-tester, a distributed load tester for proxies, written in Rust.

  \<^bold>\<open>The program.\<close> A control plane (\<open>crates/control\<close>) keeps scenarios, network profiles, captures and the
  results of runs in a database and is driven over HTTP. Agents (\<open>crates/agent\<close>), one on each test node, keep a
  stream of messages open to it (\<open>crates/proto\<close>). To run a scenario the control plane validates it
  (\<open>crates/domain\<close>), sends both agents the files they need and a prepare, waits for their acknowledgements, and
  starts both at the same moment a little later; the client's agent then makes connections through the proxy under
  test by a load schedule, the server's agent answers, and both report metrics until the schedule
  ends or someone stops the run. What is sent may be replayed from a packet capture
  (\<open>crates/capture\<close>). Before that, the agents may be asked to move network interfaces into namespaces
  under a plan, with a journal by which everything can be taken back.

  \<^bold>\<open>How the model is laid out.\<close> Every theory opens with what it models. Definitions keep the names of the code; a
  record field has a prefix of its record, a name that clashes with one of HOL a suffix.

  \<^item> \<open>Rust_Prelude\<close>, \<open>Byte_Order\<close>, \<open>Ordered_Map\<close>, \<open>Float64\<close>, \<open>Ip_Addr\<close>: what the crates use of the standard
    library. Integers are words of their width with wrapping, saturating and checked operations; a string is
    the list of its bytes; slices, splitting, trimming and number parsing as the library has them;
    a BTreeMap behind the locale \<open>ordered_map\<close> (interpreted on the association lists the model uses), the two byte
    orders behind the locale \<open>byte_order\<close> (interpreted on both); double precision as far as the load schedule needs it.
  \<^item> \<open>Domain\<close>, \<open>Net_Pool\<close>, \<open>Domain_Facts\<close> (\<open>domain/src/lib.rs\<close>, \<open>expand_pool\<close> of \<open>agent/src/network.rs\<close>): scenarios and
    profiles with their defaults, validation as a list of checks, the load schedule, address pools. The lemmas say
    exactly which scenarios are accepted, that the schedule asks for what its stages say, and that
    the pools of a valid profile are disjoint hosts of one subnet.
  \<^item> \<open>Packet\<close>, \<open>Reassembly\<close>, \<open>Http_Split\<close>, \<open>H2_Capture\<close>, \<open>Capture\<close>, \<open>Capture_Formats\<close> (\<open>capture/src/lib.rs\<close>): both file
    formats, the parsing of frames into a table of flows, reassembly with overlaps and gaps, turns,
    HTTP/1.1 messages and HTTP/2 frames. A well-formedness predicate is kept by every packet; reassembly does not
    depend on the order of segments; messages written one after the other are split again; both formats of the same packets
    give the same analysis.
  \<^item> \<open>Artifact\<close>, \<open>Replay\<close>, \<open>Telemetry\<close>, \<open>Telemetry_Facts\<close> (\<open>artifact.rs\<close>, \<open>payload.rs\<close>, \<open>replay.rs\<close>, \<open>telemetry.rs\<close>,
    \<open>report_metrics\<close> in \<open>main.rs\<close>; the sending side in \<open>control/src/orchestration.rs\<close>): files arrive as they were sent or
    not at all; the plan of a replay; counters, the window of active connections and the report of every second.
  \<^item> \<open>Stream_Io\<close>, \<open>Workload_Tcp\<close>, \<open>Workload_Http1\<close>, \<open>Http1_Facts\<close>, \<open>Workload_Http2\<close>, \<open>Connector\<close>, \<open>Agent_Tls\<close>, \<open>Runner\<close>,
    \<open>Runner_Facts\<close> (\<open>workload/\<close>, \<open>connector.rs\<close>, \<open>tls.rs\<close>, \<open>runner.rs\<close>): a connection is the bytes the peer
    will send, the bytes written to it and what happens when the peer falls silent; operations thread it with the
    counters. A client and a server of the model serve each other; a replay writes the captured bytes; connections are
    accounted for however they end; the clock follows the schedule over the time that is not paused; TLS is
    configured as the scenario says.
  \<^item> \<open>Agent_Net\<close>, \<open>Agent_Inventory\<close>, \<open>Agent_Inventory_Facts\<close>, \<open>Agent_Journal\<close> (\<open>network.rs\<close>): the inventory with its
    fingerprint, plans with their rollback, and applying them under a journal, as transitions of a host
    whose commands do anything. A plan is undone by its rollback, an applied plan is one that would be made now, and an
    invariant over all interleavings with crashes says that a prepared network was applied in full.
  \<^item> \<open>Messages\<close>, \<open>Wire\<close> (\<open>proto/src/conversions.rs\<close>, \<open>control/src/wire.rs\<close>): the messages and the JSON of profiles, plans and
    inventories, with round trips.
  \<^item> \<open>Agent_Session\<close>, \<open>Agent_Session_Facts\<close>, \<open>Agent_Worker\<close> (\<open>agent/src/main.rs\<close>): the handler of each message,
    the memory of commands (locale \<open>recent_memory\<close>), the workers and their flags as a step relation with its invariant,
    and the effects of one worker in order.
  \<^item> \<open>Control_State\<close>, \<open>Orchestration\<close>, \<open>Agent_Stream\<close>, \<open>Run_Bookkeeping\<close>, \<open>Run_Start\<close>, \<open>Control_Facts\<close> (\<open>state.rs\<close>,
    \<open>orchestration.rs\<close>, \<open>repository/\<close>, \<open>agent_stream\<close> in \<open>control/src/main.rs\<close>): actions on the state of the control plane
    that may fail. The locale \<open>handler_relation\<close> carries a relation between the states before and after an action
    through its combinators; its interpretations give the invariant of the bookkeeping, what a handler sends, and
    that a handler leaves the database alone. The outcome of a start is stated for every failure.
  \<^item> \<open>Runtime_Plan\<close>, \<open>Launch_Agents\<close>: both ends together. The control plane computes the namespaces and addresses the
    agent has made, and the messages of a launch, handled by an agent's session, end with a worker that runs the scenario.
  \<^item> \<open>Net_Orch\<close>, \<open>Net_Orch_Facts\<close> (\<open>network_orchestration.rs\<close>): planning, applying and tearing down over the agents.
  \<^item> \<open>Artifact_Upload\<close>, \<open>Upload_Facts\<close>, \<open>Run_Views\<close>, \<open>Run_Views_Facts\<close>, \<open>Table_Views\<close>, \<open>Control_Api\<close>, \<open>Control_Api_Facts\<close>,
    \<open>Certificates\<close>, \<open>Database_Open\<close> (\<open>control/src/main.rs\<close>, \<open>database.rs\<close>, \<open>repository/\<close>): uploads and their store, what is shown of runs and
    tables, the handlers with logic of their own, and the start of the control plane. The store keeps its contents
    under their digests whatever fails; secrets are not shown; a clean preflight promises a start; nothing is left
    unfinished by a restart.

  \<^bold>\<open>Effects.\<close> Fallible code returns a sum, the error to the left. Actions of the control plane and of the
  upload store take the state and return it; every operation on the outside (a database statement, a file, a
  channel, a clock, a fresh identifier) advances a tick, and a parameter says for each tick whether it succeeds and what it
  gives, so a theorem for all parameters is one for all failures. Concurrency is a step relation whose steps are
  the sections of a handler that hold a lock or run without waiting: sessions of agents, workers and timers
  interleave in any order.

  \<^bold>\<open>Loops.\<close> Recursion over data is structural or has a measure. Loops that wait for someone else are partial
  functions to an option whose None is not returning (\<open>clock_loop\<close>, \<open>wait_paused\<close>, \<open>http2_loop\<close>, \<open>send_body_loop\<close>), and
  the theorems about them say when they return: the clock by \<open>client_clock_follows_active_time\<close>, a connection by
  \<open>http2_connection_completes\<close>. Fuel is used where each step consumes input, and is the length of
  the input plus one (\<open>split_whitespace\<close>), or, for a client that follows pages, more than the runs there are
  (\<open>follow_pages\<close>).

  \<^bold>\<open>Parameters.\<close> Third-party packages are arguments, with what the code relies on as hypotheses of the theorems:
  HPACK, SHA-256 (no collision between the two texts at hand), UUID and JSON parsing and printing, the TLS, HTTP/2
  and certificate libraries, random bytes. So are the operating system's commands, files and sockets. Standard library
  functions the code relies on are modelled.

  \<^bold>\<open>Not modelled.\<close> The routing table and extraction of requests, the web socket, the start and shutdown of the
  servers, logging, command line parsing: calls of packages without decisions of the program. The SQL of the schema: tables are records of the model, and a statement is its effect on
  them. The reconnecting loop and the heartbeat of an agent, and switching a thread's namespace, only call the system. Texts of
  errors are constructors where nothing depends on them. Instants of the database are numbers where they are compared and texts
  where they are only shown. The web frontend is TypeScript.
\<close>

end
